(* ===== verification/Prelude.thy ===== *)
theory Prelude
  imports Main "HOL-Library.AList" "HOL-Library.Multiset"
begin

text \<open>
  The prelude of the development: the type of programs that every use case and handler is
  written in, its sequential run, the rules of its laws, and the generic facts on lists of rows
  and association lists that the components share.

  A request of the server is a sequence of atomic actions (one SQL statement, one call of the
  rate limiter under its mutex, one reading of the clock or of the random source) with pure Go
  code between them. The type \<open>prog\<close> keeps the actions apart: \<open>Done a\<close> has returned
  \<open>a\<close>, \<open>Atomic g\<close> performs the atomic action \<open>g\<close> on the shared world and goes on with
  the program that \<open>g\<close> returns. The sequential meaning of a program is \<open>run\<close>; because
  the actions are still visible, the same programs can also be interleaved.
\<close>

section \<open>Programs of atomic actions\<close>

datatype ('w, 'a) prog = Done 'a | Atomic "'w \<Rightarrow> ('w, 'a) prog \<times> 'w"

primrec pbind :: "('w, 'a) prog \<Rightarrow> ('a \<Rightarrow> ('w, 'b) prog) \<Rightarrow> ('w, 'b) prog" where
  "pbind (Done a) f = f a"
| "pbind (Atomic g) f = Atomic (\<lambda>w. map_prod (\<lambda>p. pbind p f) id (g w))"

primrec run_step :: "('w, 'a) prog \<Rightarrow> 'w \<Rightarrow> 'a \<times> 'w" where
  "run_step (Done a) = (\<lambda>w. (a, w))"
| "run_step (Atomic g) = (\<lambda>w. (\<lambda>(h, w'). h w') (map_prod run_step id (g w)))"

definition run :: "('w, 'a) prog \<Rightarrow> 'w \<Rightarrow> 'a \<times> 'w" where
  "run p w = run_step p w"

definition atomic :: "('w \<Rightarrow> 'a \<times> 'w) \<Rightarrow> ('w, 'a) prog" where
  "atomic f = Atomic (\<lambda>w. map_prod Done id (f w))"

named_theorems run_simps \<open>unfolding the sequential run of a program\<close>

lemma run_Done [simp, run_simps]: "run (Done a) w = (a, w)"
  by (simp add: run_def)

lemma run_Atomic [run_simps]: "run (Atomic g) w = (case g w of (p, w') \<Rightarrow> run p w')"
  by (simp add: run_def split: prod.splits)

lemma run_atomic [simp, run_simps]: "run (atomic f) w = f w"
  by (simp add: atomic_def run_Atomic map_prod_def split: prod.splits)

lemma prog_induct [case_names Done Atomic]:
  assumes "\<And>a. P (Done a)" and "\<And>g. (\<And>w. P (fst (g w))) \<Longrightarrow> P (Atomic g)"
  shows "P p"
proof (induction p)
  case (Done a)
  show ?case by (rule assms(1))
next
  case (Atomic g)
  show ?case by (rule assms(2)) (rule Atomic.IH, auto simp: prod_set_defs)
qed

lemma run_pbind [run_simps]: "run (pbind p f) w = (case run p w of (a, w') \<Rightarrow> run (f a) w')"
proof (induction p arbitrary: w rule: prog_induct)
  case (Done a)
  then show ?case by simp
next
  case (Atomic g)
  show ?case using Atomic.IH[of w] by (simp add: run_Atomic case_prod_unfold)
qed

lemma run_if [run_simps]: "run (if b then p else q) w = (if b then run p w else run q w)"
  by simp

lemma run_case_sum [run_simps]:
  "run (case x of Inl e \<Rightarrow> p e | Inr a \<Rightarrow> q a) w =
     (case x of Inl e \<Rightarrow> run (p e) w | Inr a \<Rightarrow> run (q a) w)"
  by (simp split: sum.splits)

lemma run_case_option [run_simps]:
  "run (case x of None \<Rightarrow> p | Some a \<Rightarrow> q a) w =
     (case x of None \<Rightarrow> run p w | Some a \<Rightarrow> run (q a) w)"
  by (simp split: option.splits)

lemma run_case_prod [run_simps]:
  "run (case x of (a, b) \<Rightarrow> p a b) w = (case x of (a, b) \<Rightarrow> run (p a b) w)"
  by (simp split: prod.splits)

lemma pbind_Done [simp]: "pbind p Done = p"
  by (induction p rule: prog_induct) (simp_all add: map_prod_def case_prod_unfold)

section \<open>Properties of every step\<close>

text \<open>
  \<open>prog_ok R Q p\<close>: in whatever world an atomic action of \<open>p\<close> is performed, it changes the
  world as \<open>R\<close> allows, and \<open>Q\<close> holds of what \<open>p\<close> returns. Nothing is said of the world
  between two actions, so the property also holds when other programs run in between.
\<close>

primrec prog_ok :: "('w \<Rightarrow> 'w \<Rightarrow> bool) \<Rightarrow> ('a \<Rightarrow> bool) \<Rightarrow> ('w, 'a) prog \<Rightarrow> bool" where
  "prog_ok R Q (Done a) \<longleftrightarrow> Q a"
| "prog_ok R Q (Atomic g) \<longleftrightarrow> (\<forall>w. (\<lambda>(ok, w'). ok \<and> R w w') (map_prod (prog_ok R Q) id (g w)))"

named_theorems ok_intros \<open>introduction rules for properties of every step\<close>

lemma prog_ok_Atomic: "prog_ok R Q (Atomic g) \<longleftrightarrow> (\<forall>w. prog_ok R Q (fst (g w)) \<and> R w (snd (g w)))"
  by (simp add: case_prod_unfold)

declare prog_ok.simps(2) [simp del]

lemma prog_ok_Done [ok_intros]: "Q a \<Longrightarrow> prog_ok R Q (Done a)"
  by simp

lemma prog_ok_atomic:
  "(\<And>w. R w (snd (f w)) \<and> Q (fst (f w))) \<Longrightarrow> prog_ok R Q (atomic f)"
  by (simp add: atomic_def prog_ok_Atomic)

lemma prog_ok_pbind:
  "prog_ok R Q p \<Longrightarrow> (\<And>a. Q a \<Longrightarrow> prog_ok R Q' (f a)) \<Longrightarrow> prog_ok R Q' (pbind p f)"
  by (induction p rule: prog_induct) (auto simp: prog_ok_Atomic)

lemma prog_ok_mono: "prog_ok R Q p \<Longrightarrow> (\<And>a. Q a \<Longrightarrow> Q' a) \<Longrightarrow> prog_ok R Q' p"
  by (induction p rule: prog_induct) (auto simp: prog_ok_Atomic)

lemma prog_ok_sum [ok_intros]:
  "(\<And>e. x = Inl e \<Longrightarrow> prog_ok R Q (p e)) \<Longrightarrow> (\<And>a. x = Inr a \<Longrightarrow> prog_ok R Q (q a)) \<Longrightarrow>
     prog_ok R Q (case x of Inl e \<Rightarrow> p e | Inr a \<Rightarrow> q a)"
  by (cases x) auto

lemma prog_ok_option [ok_intros]:
  "(x = None \<Longrightarrow> prog_ok R Q p) \<Longrightarrow> (\<And>a. x = Some a \<Longrightarrow> prog_ok R Q (q a)) \<Longrightarrow>
     prog_ok R Q (case x of None \<Rightarrow> p | Some a \<Rightarrow> q a)"
  by (cases x) auto

lemma prog_ok_prod [ok_intros]:
  "(\<And>a b. x = (a, b) \<Longrightarrow> prog_ok R Q (p a b)) \<Longrightarrow> prog_ok R Q (case x of (a, b) \<Rightarrow> p a b)"
  by (cases x) auto

lemma prog_ok_if [ok_intros]:
  "(b \<Longrightarrow> prog_ok R Q p) \<Longrightarrow> (\<not> b \<Longrightarrow> prog_ok R Q q) \<Longrightarrow> prog_ok R Q (if b then p else q)"
  by simp

lemma prog_ok_let [ok_intros]: "prog_ok R Q (f x) \<Longrightarrow> prog_ok R Q (let y = x in f y)"
  by simp

text \<open>A preorder that every step respects relates the worlds before and after a run.\<close>

lemma prog_ok_run:
  assumes "prog_ok R Q p" "reflp R" "transp R"
  shows "R w (snd (run p w)) \<and> Q (fst (run p w))"
  using assms(1)
proof (induction p arbitrary: w rule: prog_induct)
  case (Done a)
  then show ?case using assms(2) by (auto dest: reflpD)
next
  case (Atomic g)
  then have "R w (snd (g w))" "R (snd (g w)) (snd (run (fst (g w)) (snd (g w))))"
    "Q (fst (run (fst (g w)) (snd (g w))))"
    by (auto simp: prog_ok_Atomic)
  then show ?case using assms(3) by (auto simp: run_Atomic case_prod_unfold dest: transpD)
qed

section \<open>Rows and association lists\<close>

lemma find_Some_iff_set: "find P xs = Some x \<Longrightarrow> x \<in> set xs \<and> P x"
  by (induction xs) (auto split: if_splits)

lemma find_None_set: "find P xs = None \<longleftrightarrow> (\<forall>x \<in> set xs. \<not> P x)"
  by (induction xs) auto

text \<open>In a table with distinct keys, looking a key up finds exactly the row that has it.\<close>

lemma find_key_iff:
  "distinct (map key xs) \<Longrightarrow> find (\<lambda>r. key r = k) xs = Some x \<longleftrightarrow> x \<in> set xs \<and> key x = k"
  by (induction xs) (auto simp: image_iff)

lemma find_map_key:
  "(\<And>r. key (f r) = key r) \<Longrightarrow>
     find (\<lambda>r. key r = k) (map f xs) = map_option f (find (\<lambda>r. key r = k) xs)"
  by (induction xs) auto

lemma length_filter_map:
  "(\<And>r. P (f r) \<Longrightarrow> P r) \<Longrightarrow> length (filter P (map f xs)) \<le> length (filter P xs)"
  by (induction xs) (auto intro: le_SucI)

lemma distinct_map_filter_key: "distinct (map key xs) \<Longrightarrow> distinct (map key (filter P xs))"
  by (simp add: distinct_map inj_on_def)

lemma map_key_update: "(\<And>r. key (f r) = key r) \<Longrightarrow> map key (map f xs) = map key xs"
  by simp

end
