(* ===== verification/GoStrings.thy ===== *)
theory GoStrings
  imports Prelude "HOL-Library.Sublist" "HOL-Library.Word"
begin

text \<open>
  Go strings and the functions of the Go standard library that the server applies to them. A Go
  string is a sequence of bytes; here it is a \<open>string\<close>, a list of 8-bit characters. Modelled:
  \<open>strings.TrimSpace\<close> (with every Unicode white space character in its UTF-8 encoding),
  \<open>strings.Split\<close> at one byte, \<open>strings.CutPrefix\<close>, \<open>strings.Contains\<close> of one byte,
  \<open>strings.ToLower\<close> on one ASCII letter, \<open>hex.EncodeToString\<close>, \<open>base64.RawURLEncoding\<close>
  and the decimal parser \<open>strconv.Atoi\<close>.
\<close>

section \<open>Trimming white space\<close>

text \<open>
  \<open>strings.TrimSpace\<close> removes the characters that \<open>unicode.IsSpace\<close> accepts from both
  ends. The table lists their UTF-8 encodings: the six ASCII ones, U+0085, U+00A0, U+1680,
  U+2000 to U+200A, U+2028, U+2029, U+202F, U+205F and U+3000. A string begins (ends) with such
  a character exactly when it begins (ends) with one of these byte sequences, because each starts
  with a UTF-8 start byte followed by continuation bytes only.
\<close>

definition utf8 :: "nat list \<Rightarrow> string" where
  "utf8 = map char_of"

definition space_runes :: "string list" where
  "space_runes = map utf8
     ([[0x20], [0x09], [0x0A], [0x0B], [0x0C], [0x0D], [0xC2, 0x85], [0xC2, 0xA0], [0xE1, 0x9A, 0x80]]
      @ map (\<lambda>b. [0xE2, 0x80, b]) [0x80, 0x81, 0x82, 0x83, 0x84, 0x85, 0x86, 0x87, 0x88, 0x89, 0x8A]
      @ [[0xE2, 0x80, 0xA8], [0xE2, 0x80, 0xA9], [0xE2, 0x80, 0xAF], [0xE2, 0x81, 0x9F], [0xE3, 0x80, 0x80]])"

text \<open>Strip any number of the given tokens from the front of a list.\<close>

function strip_front :: "'a list list \<Rightarrow> 'a list \<Rightarrow> 'a list" where
  "strip_front ts s =
     (case find (\<lambda>t. t \<noteq> [] \<and> prefix t s) ts of
        None \<Rightarrow> s
      | Some t \<Rightarrow> strip_front ts (drop (length t) s))"
  by pat_completeness auto
termination
  by (relation "measure (length o snd)") (auto dest!: find_Some_iff_set simp: prefix_def)

declare strip_front.simps [simp del]

definition trim_left :: "string \<Rightarrow> string" where
  "trim_left s = strip_front space_runes s"

definition trim_right :: "string \<Rightarrow> string" where
  "trim_right s = rev (strip_front (map rev space_runes) (rev s))"

definition TrimSpace :: "string \<Rightarrow> string" where
  "TrimSpace s = trim_right (trim_left s)"

lemma strip_front_decomp: "\<exists>us. set us \<subseteq> set ts \<and> s = concat us @ strip_front ts s"
proof (induction ts s rule: strip_front.induct)
  case (1 ts s)
  show ?case
  proof (cases "find (\<lambda>t. t \<noteq> [] \<and> prefix t s) ts")
    case None
    then show ?thesis by (intro exI[of _ "[]"]) (simp add: strip_front.simps)
  next
    case (Some t)
    then have t: "t \<in> set ts" "prefix t s" by (auto dest: find_Some_iff_set)
    from "1.IH"[OF Some] obtain us where
      us: "set us \<subseteq> set ts" "drop (length t) s = concat us @ strip_front ts (drop (length t) s)"
      by blast
    have "s = t @ drop (length t) s" using t(2) by (auto simp: prefix_def)
    then have "s = concat (t # us) @ strip_front ts s"
      using us(2) Some by (simp add: strip_front.simps[of ts s])
    then show ?thesis using us(1) t(1) by (intro exI[of _ "t # us"]) auto
  qed
qed

lemma strip_front_stops: "t \<in> set ts \<Longrightarrow> t \<noteq> [] \<Longrightarrow> \<not> prefix t (strip_front ts s)"
proof (induction ts s rule: strip_front.induct)
  case (1 ts s)
  show ?case
  proof (cases "find (\<lambda>t. t \<noteq> [] \<and> prefix t s) ts")
    case None
    then have "strip_front ts s = s" by (simp add: strip_front.simps)
    with None "1.prems" show ?thesis by (auto simp: find_None_set)
  next
    case (Some u)
    then show ?thesis using "1.IH"[OF Some "1.prems"] by (simp add: strip_front.simps[of ts s])
  qed
qed

lemma strip_front_fix: "(\<And>t. t \<in> set ts \<Longrightarrow> t \<noteq> [] \<Longrightarrow> \<not> prefix t s) \<Longrightarrow> strip_front ts s = s"
  by (subst strip_front.simps) (auto split: option.splits dest!: find_Some_iff_set)

lemma space_runes_nonempty [simp]: "r \<in> set space_runes \<Longrightarrow> r \<noteq> []"
  by (auto simp: space_runes_def utf8_def)

definition starts_with_space :: "string \<Rightarrow> bool" where
  "starts_with_space s \<longleftrightarrow> list_ex (\<lambda>r. prefix r s) space_runes"

definition ends_with_space :: "string \<Rightarrow> bool" where
  "ends_with_space s \<longleftrightarrow> list_ex (\<lambda>r. suffix r s) space_runes"

lemma trim_left_no_space: "\<not> starts_with_space (trim_left s)"
  using strip_front_stops[OF _ space_runes_nonempty]
  by (auto simp: starts_with_space_def trim_left_def list_ex_iff)

lemma trim_right_no_space: "\<not> ends_with_space (trim_right s)"
proof
  assume "ends_with_space (trim_right s)"
  then obtain r where r: "r \<in> set space_runes" "suffix r (trim_right s)"
    by (auto simp: ends_with_space_def list_ex_iff)
  then have "prefix (rev r) (strip_front (map rev space_runes) (rev s))"
    by (simp add: trim_right_def suffix_to_prefix)
  moreover have "rev r \<in> set (map rev space_runes)" "rev r \<noteq> []" using r(1) by auto
  ultimately show False using strip_front_stops by blast
qed

lemma trim_right_prefix: "prefix (trim_right s) s"
proof -
  obtain us where "rev s = concat us @ strip_front (map rev space_runes) (rev s)"
    using strip_front_decomp[of "map rev space_runes" "rev s"] by blast
  then have "s = trim_right s @ rev (concat us)"
    unfolding trim_right_def by (metis rev_append rev_rev_ident)
  then show ?thesis by (metis prefixI)
qed

lemma starts_with_space_prefix: "prefix s t \<Longrightarrow> starts_with_space s \<Longrightarrow> starts_with_space t"
  by (auto simp: starts_with_space_def list_ex_iff intro: prefix_order.trans)

text \<open>A string with no white space at either end is what trimming returns, and is left alone.\<close>

lemma TrimSpace_no_space: "\<not> starts_with_space (TrimSpace s) \<and> \<not> ends_with_space (TrimSpace s)"
  using trim_right_no_space trim_right_prefix starts_with_space_prefix trim_left_no_space
  unfolding TrimSpace_def by blast

lemma TrimSpace_fix:
  assumes "\<not> starts_with_space s" "\<not> ends_with_space s"
  shows "TrimSpace s = s"
proof -
  have l: "trim_left s = s"
    unfolding trim_left_def using assms(1)
    by (intro strip_front_fix) (auto simp: starts_with_space_def list_ex_iff)
  have "strip_front (map rev space_runes) (rev s) = rev s"
    using assms(2)
    by (intro strip_front_fix) (auto simp: ends_with_space_def list_ex_iff suffix_to_prefix)
  then show ?thesis by (simp add: TrimSpace_def l trim_right_def)
qed

lemma TrimSpace_idem [simp]: "TrimSpace (TrimSpace s) = TrimSpace s"
  using TrimSpace_fix TrimSpace_no_space by blast

lemma TrimSpace_Nil [simp]: "TrimSpace [] = []"
  by (rule TrimSpace_fix) (auto simp: starts_with_space_def ends_with_space_def list_ex_iff)

lemma TrimSpace_decomp:
  "\<exists>us vs. set us \<subseteq> set space_runes \<and> set vs \<subseteq> set space_runes
     \<and> s = concat us @ TrimSpace s @ concat vs"
proof -
  obtain us where us: "set us \<subseteq> set space_runes" "s = concat us @ trim_left s"
    using strip_front_decomp[of space_runes s] unfolding trim_left_def by blast
  let ?t = "trim_left s"
  obtain ws where ws: "set ws \<subseteq> set (map rev space_runes)"
    "rev ?t = concat ws @ strip_front (map rev space_runes) (rev ?t)"
    using strip_front_decomp[of "map rev space_runes" "rev ?t"] by blast
  have "?t = trim_right ?t @ rev (concat ws)"
    using ws(2) unfolding trim_right_def by (metis rev_append rev_rev_ident)
  moreover have "rev (concat ws) = concat (map rev (rev ws))" by (simp add: rev_concat rev_map)
  moreover have "set (map rev (rev ws)) \<subseteq> set space_runes" using ws(1) by auto
  ultimately show ?thesis using us unfolding TrimSpace_def by metis
qed

text \<open>The bytes that can begin or end a white space character.\<close>

definition space_bytes :: "char set" where
  "space_bytes = set (concat space_runes)"

lemma TrimSpace_plain:
  assumes "s = [] \<or> hd s \<notin> space_bytes \<and> last s \<notin> space_bytes"
  shows "TrimSpace s = s"
proof (cases "s = []")
  case True
  then show ?thesis by simp
next
  case False
  with assms have h: "hd s \<notin> space_bytes" "last s \<notin> space_bytes" by auto
  have "\<not> starts_with_space s"
  proof
    assume "starts_with_space s"
    then obtain r t where r: "r \<in> set space_runes" "s = r @ t"
      by (auto simp: starts_with_space_def list_ex_iff prefix_def)
    then have "hd s \<in> set r" using space_runes_nonempty[OF r(1)] by (cases r) auto
    then show False using h(1) r(1) by (auto simp: space_bytes_def)
  qed
  moreover have "\<not> ends_with_space s"
  proof
    assume "ends_with_space s"
    then obtain r t where r: "r \<in> set space_runes" "s = t @ r"
      by (auto simp: ends_with_space_def list_ex_iff suffix_def)
    then have "last s \<in> set r" using space_runes_nonempty[OF r(1)] by auto
    then show False using h(2) r(1) by (auto simp: space_bytes_def)
  qed
  ultimately show ?thesis by (rule TrimSpace_fix)
qed

text \<open>Evaluation: the table as characters, and the common case first.\<close>

lemma space_runes_chars [code]:
  "space_runes =
     [[CHR 0x20], [CHR 0x09], [CHR 0x0A], [CHR 0x0B], [CHR 0x0C], [CHR 0x0D], [CHR 0xC2, CHR 0x85],
      [CHR 0xC2, CHR 0xA0], [CHR 0xE1, CHR 0x9A, CHR 0x80],
      [CHR 0xE2, CHR 0x80, CHR 0x80], [CHR 0xE2, CHR 0x80, CHR 0x81], [CHR 0xE2, CHR 0x80, CHR 0x82],
      [CHR 0xE2, CHR 0x80, CHR 0x83], [CHR 0xE2, CHR 0x80, CHR 0x84], [CHR 0xE2, CHR 0x80, CHR 0x85],
      [CHR 0xE2, CHR 0x80, CHR 0x86], [CHR 0xE2, CHR 0x80, CHR 0x87], [CHR 0xE2, CHR 0x80, CHR 0x88],
      [CHR 0xE2, CHR 0x80, CHR 0x89], [CHR 0xE2, CHR 0x80, CHR 0x8A], [CHR 0xE2, CHR 0x80, CHR 0xA8],
      [CHR 0xE2, CHR 0x80, CHR 0xA9], [CHR 0xE2, CHR 0x80, CHR 0xAF], [CHR 0xE2, CHR 0x81, CHR 0x9F],
      [CHR 0xE3, CHR 0x80, CHR 0x80]]"
  by (simp add: space_runes_def utf8_def char_of_eq_iff)

lemma TrimSpace_code [code]:
  "TrimSpace s = (if s = [] \<or> hd s \<notin> space_bytes \<and> last s \<notin> space_bytes then s else trim_right (trim_left s))"
  using TrimSpace_plain by (simp add: TrimSpace_def)
section \<open>Splitting, prefixes, letter case\<close>

text \<open>\<open>strings.Split(s, sep)\<close> for a separator of one byte: always at least one part.\<close>

fun Split :: "char \<Rightarrow> string \<Rightarrow> string list" where
  "Split c [] = [[]]"
| "Split c (x # s) =
     (if x = c then [] # Split c s
      else (case Split c s of [] \<Rightarrow> [[x]] | p # ps \<Rightarrow> (x # p) # ps))"

lemma Split_nonempty [simp]: "Split c s \<noteq> []"
  by (cases s) (auto split: list.splits)

fun join_with :: "char \<Rightarrow> string list \<Rightarrow> string" where
  "join_with c [] = []"
| "join_with c [p] = p"
| "join_with c (p # q # ps) = p @ c # join_with c (q # ps)"

lemma join_with_Cons: "ps \<noteq> [] \<Longrightarrow> join_with c (p # ps) = p @ c # join_with c ps"
  by (cases ps) auto

lemma join_Split: "join_with c (Split c s) = s"
proof (induction s)
  case Nil
  then show ?case by simp
next
  case (Cons x s)
  obtain p ps where "Split c s = p # ps" using Split_nonempty[of c s] by (cases "Split c s") auto
  with Cons show ?case by (cases ps) (auto simp: join_with_Cons)
qed

lemma Split_no_sep: "p \<in> set (Split c s) \<Longrightarrow> c \<notin> set p"
  by (induction s arbitrary: p) (auto split: if_splits list.splits)

definition CutPrefix :: "string \<Rightarrow> string \<Rightarrow> string option" where
  "CutPrefix p s = (if prefix p s then Some (drop (length p) s) else None)"

definition CutSuffix :: "string \<Rightarrow> string \<Rightarrow> string option" where
  "CutSuffix p s = (if suffix p s then Some (take (length s - length p) s) else None)"

lemma CutPrefix_Some: "CutPrefix p s = Some r \<longleftrightarrow> s = p @ r"
  by (auto simp: CutPrefix_def prefix_def)

lemma CutSuffix_Some: "CutSuffix p s = Some r \<longleftrightarrow> s = r @ p"
  by (auto simp: CutSuffix_def suffix_def)

text \<open>The ASCII letters: \<open>strings.ToLower\<close> of one ASCII byte.\<close>

definition lower_char :: "char \<Rightarrow> char" where
  "lower_char c = (if 65 \<le> (of_char c :: nat) \<and> (of_char c :: nat) \<le> 90
                   then char_of ((of_char c :: nat) + 32) else c)"

section \<open>Encodings of bytes\<close>

type_synonym byte = "8 word"

definition bytes_of :: "string \<Rightarrow> byte list" where
  "bytes_of = map of_char"

text \<open>\<open>hex.EncodeToString\<close>: two lower-case hexadecimal digits per byte.\<close>

definition hex_digits :: string where
  "hex_digits = ''0123456789abcdef''"

definition EncodeToString :: "byte list \<Rightarrow> string" where
  "EncodeToString bs = concat (map (\<lambda>b. [hex_digits ! (unat b div 16), hex_digits ! (unat b mod 16)]) bs)"

text \<open>
  The verb \<open>%q\<close>, \<open>strconv.Quote\<close>: quotes, backslashes and control characters are escaped. The
  bytes of other characters are left as they are, as they are for every printable character.
\<close>

definition quote_char :: "char \<Rightarrow> string" where
  "quote_char c =
     (let n = of_char c :: nat in
      case map_of [(0x22, CHR 0x22), (0x5C, CHR 0x5C), (7, CHR ''a''), (8, CHR ''b''), (12, CHR ''f''), (10, CHR ''n''),
          (13, CHR ''r''), (9, CHR ''t''), (11, CHR ''v'')] n of
        Some d \<Rightarrow> [CHR 0x5C, d]
      | None \<Rightarrow> if n < 32 \<or> n = 127 then [CHR 0x5C, CHR ''x'', hex_digits ! (n div 16), hex_digits ! (n mod 16)] else [c])"

definition quoted :: "string \<Rightarrow> string" where
  "quoted s = [CHR 0x22] @ concat (map quote_char s) @ [CHR 0x22]"

text \<open>\<open>base64.RawURLEncoding\<close>: the URL alphabet and no padding.\<close>

definition url_alphabet :: string where
  "url_alphabet = ''ABCDEFGHIJKLMNOPQRSTUVWXYZabcdefghijklmnopqrstuvwxyz0123456789-_''"

definition b64_digit :: "nat \<Rightarrow> char" where
  "b64_digit i = url_alphabet ! i"

fun RawURLEncode :: "byte list \<Rightarrow> string" where
  "RawURLEncode [] = []"
| "RawURLEncode [a] = [b64_digit (unat a div 4), b64_digit (unat a mod 4 * 16)]"
| "RawURLEncode [a, b] =
     [b64_digit (unat a div 4), b64_digit (unat a mod 4 * 16 + unat b div 16), b64_digit (unat b mod 16 * 4)]"
| "RawURLEncode (a # b # c # bs) =
     b64_digit (unat a div 4) # b64_digit (unat a mod 4 * 16 + unat b div 16)
     # b64_digit (unat b mod 16 * 4 + unat c div 64) # b64_digit (unat c mod 64) # RawURLEncode bs"

lemma unat_byte_less [simp]: "unat (b :: byte) < 256"
  using unsigned_less[of b, where 'a = nat] by simp

lemma length_url_alphabet [simp]: "length url_alphabet = 64"
  by (simp add: url_alphabet_def)

lemma distinct_url_alphabet: "distinct url_alphabet"
  by (simp add: url_alphabet_def)

lemma b64_digit_inj: "i < 64 \<Longrightarrow> j < 64 \<Longrightarrow> b64_digit i = b64_digit j \<longleftrightarrow> i = j"
  by (simp add: b64_digit_def nth_eq_iff_index_eq distinct_url_alphabet)

lemma b64_digit_set: "i < 64 \<Longrightarrow> b64_digit i \<in> set url_alphabet"
  by (simp add: b64_digit_def)

lemma positional_bound: "x < m \<Longrightarrow> r < n \<Longrightarrow> x * n + r < (m * n :: nat)"
proof -
  assume "x < m" "r < n"
  then have "x * n + r < Suc x * n" by simp
  also have "\<dots> \<le> m * n" using \<open>x < m\<close> by (intro mult_le_mono1) simp
  finally show ?thesis .
qed

lemma positional_inj:
  "r < n \<Longrightarrow> r' < n \<Longrightarrow> x * n + r = y * n + (r' :: nat) \<Longrightarrow> x = y \<and> r = r'"
  by (metis add.commute div_mult_self3 div_less add_0 mod_mult_self3 mod_less less_nat_zero_code)

lemma div_mod_eqI: "a div n = a' div n \<Longrightarrow> a mod n = a' mod n \<Longrightarrow> (a :: nat) = a'"
  by (metis div_mult_mod_eq)

lemma b64_nat_bounds:
  "a < 256 \<Longrightarrow> (a :: nat) div 4 < 64"
  "b < 256 \<Longrightarrow> (a :: nat) mod 4 * 16 + b div 16 < 64"
  "c < 256 \<Longrightarrow> (b :: nat) mod 16 * 4 + c div 64 < 64"
  "(a :: nat) mod 4 * 16 < 64" "(b :: nat) mod 16 * 4 < 64"
  using positional_bound[of "a mod 4" 4 "b div 16" 16] positional_bound[of "b mod 16" 16 "c div 64" 4]
  by (simp_all add: less_mult_imp_div_less)

lemma b64_index_bounds [simp]:
  "unat (a :: byte) div 4 < 64" "unat (a :: byte) mod 4 * 16 + unat (b :: byte) div 16 < 64"
  "unat (b :: byte) mod 16 * 4 + unat (c :: byte) div 64 < 64" "unat (c :: byte) mod 64 < 64"
  "unat (a :: byte) mod 4 * 16 < 64" "unat (b :: byte) mod 16 * 4 < 64"
  using b64_nat_bounds unat_byte_less by auto

text \<open>The three ways in which a group of bytes is read back from its digits.\<close>

lemma b64_head: "a div 4 = a' div 4 \<Longrightarrow> b < 256 \<Longrightarrow> b' < 256 \<Longrightarrow>
    (a :: nat) mod 4 * 16 + b div 16 = a' mod 4 * 16 + b' div 16 \<Longrightarrow> a = a' \<and> b div 16 = b' div 16"
  using positional_inj[of "b div 16" 16 "b' div 16" "a mod 4" "a' mod 4"]
  by (auto simp: less_mult_imp_div_less intro: div_mod_eqI)

lemma b64_middle: "b div 16 = b' div 16 \<Longrightarrow> c < 256 \<Longrightarrow> c' < 256 \<Longrightarrow>
    (b :: nat) mod 16 * 4 + c div 64 = b' mod 16 * 4 + c' div 64 \<Longrightarrow> b = b' \<and> c div 64 = c' div 64"
  using positional_inj[of "c div 64" 4 "c' div 64" "b mod 16" "b' mod 16"]
  by (auto simp: less_mult_imp_div_less intro: div_mod_eqI)

lemma b64_last: "c div 64 = c' div 64 \<Longrightarrow> (c :: nat) mod 64 = c' mod 64 \<Longrightarrow> c = c'"
  by (rule div_mod_eqI)

lemmas b64_eqs = b64_digit_inj word_unat_eq_iff

lemma RawURLEncode_set: "set (RawURLEncode bs) \<subseteq> set url_alphabet"
  by (induction bs rule: RawURLEncode.induct) (auto intro: b64_digit_set)

lemma length_RawURLEncode: "length (RawURLEncode bs) = (4 * length bs + 2) div 3"
  by (induction bs rule: RawURLEncode.induct) auto

lemma RawURLEncode_inj: "RawURLEncode xs = RawURLEncode ys \<Longrightarrow> xs = ys"
proof (induction xs arbitrary: ys rule: RawURLEncode.induct)
  case 1
  then show ?case by (cases ys rule: RawURLEncode.cases) auto
next
  case (2 a)
  then show ?case
    by (cases ys rule: RawURLEncode.cases) (auto simp: b64_eqs dest: b64_head[of _ _ 0 0, simplified])
next
  case (3 a b)
  then show ?case
    by (cases ys rule: RawURLEncode.cases)
       (auto simp: b64_eqs dest!: b64_head[OF _ unat_byte_less unat_byte_less]
             dest: b64_middle[of _ _ 0 0, simplified])
next
  case (4 a b c bs)
  show ?case
  proof (cases ys rule: RawURLEncode.cases)
    case (4 a' b' c' bs')
    with "4.prems" have "RawURLEncode bs = RawURLEncode bs'" by simp
    then have bs: "bs = bs'" by (rule "4.IH")
    from "4.prems" 4 have d: "unat a div 4 = unat a' div 4"
      "unat a mod 4 * 16 + unat b div 16 = unat a' mod 4 * 16 + unat b' div 16"
      "unat b mod 16 * 4 + unat c div 64 = unat b' mod 16 * 4 + unat c' div 64"
      "unat c mod 64 = unat c' mod 64"
      by (simp_all add: b64_digit_inj)
    have ab: "unat a = unat a' \<and> unat b div 16 = unat b' div 16"
      by (rule b64_head[OF d(1) unat_byte_less unat_byte_less d(2)])
    then have bc: "unat b = unat b' \<and> unat c div 64 = unat c' div 64"
      using b64_middle[OF _ unat_byte_less unat_byte_less d(3)] by blast
    then have "unat c = unat c'" using b64_last d(4) by blast
    then show ?thesis using ab bc bs 4 by (simp add: word_unat_eq_iff)
  qed (use "4.prems" in auto)
qed

section \<open>Decimal numbers\<close>

definition is_digit :: "char \<Rightarrow> bool" where
  "is_digit c \<longleftrightarrow> 48 \<le> (of_char c :: nat) \<and> (of_char c :: nat) \<le> 57"

definition digit_val :: "char \<Rightarrow> nat" where
  "digit_val c = of_char c - 48"

definition dec_val :: "string \<Rightarrow> nat" where
  "dec_val s = foldl (\<lambda>n c. 10 * n + digit_val c) 0 s"

text \<open>
  \<open>strconv.Atoi\<close>: an optional sign and at least one decimal digit; \<open>None\<close> is the error, also
  for a value outside \<open>int\<close> (64 bits).
\<close>

definition Atoi :: "string \<Rightarrow> int option" where
  "Atoi s =
     (let ds = (case s of c # r \<Rightarrow> if c = CHR ''-'' \<or> c = CHR ''+'' then r else s | [] \<Rightarrow> []);
          n = int (dec_val ds);
          v = (if s \<noteq> [] \<and> hd s = CHR ''-'' then - n else n)
      in if ds \<noteq> [] \<and> list_all is_digit ds \<and> - (2 ^ 63) \<le> v \<and> v < 2 ^ 63 then Some v else None)"

end
