(* ===== verification/GoNet.thy ===== *)
theory GoNet
  imports GoStrings
begin

text \<open>
  The functions of Go's package \<open>net\<close> that the server uses: \<open>ParseIP\<close>, \<open>ParseCIDR\<close>,
  \<open>CIDRMask\<close>, \<open>IPNet.Contains\<close> and \<open>SplitHostPort\<close>. An \<open>IP\<close> is a list of bytes: sixteen
  for a parsed address (IPv4 in its mapped form \<open>::ffff:a.b.c.d\<close>), four after \<open>To4\<close>. \<open>None\<close>
  is the nil address or the error.
\<close>

unbundle bit_operations_syntax

type_synonym IP = "byte list"

record IPNet =
  net_IP :: IP
  net_Mask :: "byte list"

section \<open>Parsing addresses\<close>

text \<open>A decimal octet: digits only, no leading zero, at most 255.\<close>

definition parse_octet :: "string \<Rightarrow> byte option" where
  "parse_octet s =
     (if s \<noteq> [] \<and> list_all is_digit s \<and> (hd s \<noteq> CHR ''0'' \<or> length s = 1) \<and> length s \<le> 3 \<and> dec_val s \<le> 255
      then Some (word_of_nat (dec_val s)) else None)"

fun all_some :: "'a option list \<Rightarrow> 'a list option" where
  "all_some [] = Some []"
| "all_some (None # xs) = None"
| "all_some (Some x # xs) = map_option (Cons x) (all_some xs)"

definition parseIPv4 :: "string \<Rightarrow> byte list option" where
  "parseIPv4 s =
     (let fs = Split CHR ''.'' s in if length fs = 4 then all_some (map parse_octet fs) else None)"

definition hex_val :: "char \<Rightarrow> nat option" where
  "hex_val c =
     (let n = of_char c :: nat in
      if 48 \<le> n \<and> n \<le> 57 then Some (n - 48)
      else if 97 \<le> n \<and> n \<le> 102 then Some (n - 87)
      else if 65 \<le> n \<and> n \<le> 70 then Some (n - 55)
      else None)"

text \<open>A group of one to four hexadecimal digits at the front: its value and the rest.\<close>

fun hex_group :: "nat \<Rightarrow> nat \<Rightarrow> string \<Rightarrow> (nat \<times> nat \<times> string) option" where
  "hex_group off acc [] = Some (off, acc, [])"
| "hex_group off acc (c # s) =
     (case hex_val c of
        None \<Rightarrow> Some (off, acc, c # s)
      | Some d \<Rightarrow> if off > 3 then None else hex_group (Suc off) (16 * acc + d) s)"

text \<open>
  The loop of \<open>parseIPv6\<close>: the bytes read so far and the position of the ellipsis; at most eight
  rounds, the first argument counts them down. The result is the bytes, the ellipsis and what is
  left of the text.
\<close>

fun ipv6_loop :: "nat \<Rightarrow> byte list \<Rightarrow> nat option \<Rightarrow> string \<Rightarrow> (byte list \<times> nat option \<times> string) option" where
  "ipv6_loop 0 ip ell s = Some (ip, ell, s)"
| "ipv6_loop (Suc n) ip ell s =
     (case hex_group 0 0 s of
        None \<Rightarrow> None
      | Some (off, acc, r) \<Rightarrow>
          if off = 0 then None
          else if r \<noteq> [] \<and> hd r = CHR ''.''
          then (if ell = None \<and> length ip \<noteq> 12 then None
                else if 16 < length ip + 4 then None
                else map_option (\<lambda>v4. (ip @ v4, ell, [])) (parseIPv4 s))
          else (let ip' = ip @ [word_of_nat (acc div 256), word_of_nat (acc mod 256)] in
            case r of
              [] \<Rightarrow> Some (ip', ell, [])
            | [c] \<Rightarrow> None
            | c # d # r' \<Rightarrow>
                if c \<noteq> CHR '':'' then None
                else if d = CHR '':''
                then (if ell \<noteq> None then None
                      else if r' = [] then Some (ip', Some (length ip'), [])
                      else ipv6_loop n ip' (Some (length ip')) r')
                else ipv6_loop n ip' ell (d # r')))"

definition parseIPv6 :: "string \<Rightarrow> byte list option" where
  "parseIPv6 s =
     (if s = ''::'' then Some (replicate 16 0)
      else
     (let (ell, t) = (if take 2 s = ''::'' then (Some 0, drop 2 s) else (None, s)) in
      case ipv6_loop 8 [] ell t of
        None \<Rightarrow> None
      | Some (ip, ell, r) \<Rightarrow>
          if r \<noteq> [] then None
          else if length ip < 16
          then (case ell of None \<Rightarrow> None
                | Some e \<Rightarrow> Some (take e ip @ replicate (16 - length ip) 0 @ drop e ip))
          else if ell \<noteq> None then None else Some ip))"

definition v4InV6Prefix :: "byte list" where
  "v4InV6Prefix = replicate 10 0 @ [255, 255]"

text \<open>
  \<open>netip.ParseAddr\<close>, with the number of bits of the address; an address with a zone is refused by
  the callers, so a percent sign is refused here.
\<close>

definition ParseAddr :: "string \<Rightarrow> (IP \<times> nat) option" where
  "ParseAddr s =
     (if CHR ''%'' \<in> set s then None
      else case find (\<lambda>c. c = CHR ''.'' \<or> c = CHR '':'') s of
        None \<Rightarrow> None
      | Some c \<Rightarrow> if c = CHR ''.''
                  then map_option (\<lambda>v4. (v4InV6Prefix @ v4, 32)) (parseIPv4 s)
                  else map_option (\<lambda>ip. (ip, 128)) (parseIPv6 s))"

definition ParseIP :: "string \<Rightarrow> IP option" where
  "ParseIP s = map_option fst (ParseAddr s)"

section \<open>Networks\<close>

definition To4 :: "IP \<Rightarrow> IP option" where
  "To4 ip =
     (if length ip = 4 then Some ip
      else if length ip = 16 \<and> take 12 ip = v4InV6Prefix then Some (drop 12 ip) else None)"

text \<open>\<open>CIDRMask\<close>: \<open>ones\<close> one bits followed by zeros, \<open>bits\<close> in all.\<close>

definition mask_byte :: "nat \<Rightarrow> byte" where
  "mask_byte n = NOT (word_of_nat (255 div 2 ^ min n 8))"

definition CIDRMask :: "nat \<Rightarrow> nat \<Rightarrow> byte list" where
  "CIDRMask ones bits = map (\<lambda>i. mask_byte (ones - 8 * i)) [0..<bits div 8]"

definition Mask :: "IP \<Rightarrow> byte list \<Rightarrow> IP option" where
  "Mask ip m =
     (let ip' = (if length m = 4 \<and> length ip = 16 \<and> take 12 ip = v4InV6Prefix then drop 12 ip else ip)
      in if length ip' = length m then Some (map2 (AND) ip' m) else None)"

text \<open>\<open>dtoi\<close> with the requirement of \<open>ParseCIDR\<close> that all of the text is read.\<close>

definition mask_bits :: "string \<Rightarrow> nat option" where
  "mask_bits s = (if s \<noteq> [] \<and> list_all is_digit s \<and> int (dec_val s) < 16777215 then Some (dec_val s) else None)"

definition Cut :: "char \<Rightarrow> string \<Rightarrow> (string \<times> string) option" where
  "Cut c s = (if c \<in> set s then Some (takeWhile (\<lambda>x. x \<noteq> c) s, tl (dropWhile (\<lambda>x. x \<noteq> c) s)) else None)"

definition ParseCIDR :: "string \<Rightarrow> IPNet option" where
  "ParseCIDR s =
     (case Cut CHR ''/'' s of
        None \<Rightarrow> None
      | Some (addr, suf) \<Rightarrow> (case (ParseAddr addr, mask_bits suf) of
          (Some (ip, bits), Some n) \<Rightarrow>
            if n \<le> bits
            then map_option (\<lambda>base. \<lparr>net_IP = base, net_Mask = CIDRMask n bits\<rparr>) (Mask ip (CIDRMask n bits))
            else None
        | _ \<Rightarrow> None))"

definition networkNumberAndMask :: "IPNet \<Rightarrow> (IP \<times> byte list) option" where
  "networkNumberAndMask n =
     (let ip = (case To4 (net_IP n) of Some v4 \<Rightarrow> v4 | None \<Rightarrow> net_IP n);
          m = net_Mask n in
      if length ip \<noteq> 4 \<and> length ip \<noteq> 16 then None
      else if length m = 4 then (if length ip = 4 then Some (ip, m) else None)
      else if length m = 16 then Some (ip, if length ip = 4 then drop 12 m else m)
      else None)"

definition Contains :: "IPNet \<Rightarrow> IP \<Rightarrow> bool" where
  "Contains n addr =
     (case networkNumberAndMask n of
        None \<Rightarrow> addr = []
      | Some (nn, m) \<Rightarrow>
          let ip = (case To4 addr of Some v4 \<Rightarrow> v4 | None \<Rightarrow> addr)
          in length ip = length nn \<and> map2 (AND) nn m = map2 (AND) ip m)"

section \<open>Host and port\<close>

text \<open>\<open>SplitHostPort\<close>: the host, or \<open>None\<close> for an error; the port is not used.\<close>

definition SplitHostPort :: "string \<Rightarrow> string option" where
  "SplitHostPort hp =
     (if CHR '':'' \<notin> set hp then None
      else
      let port = rev (takeWhile (\<lambda>c. c \<noteq> CHR '':'') (rev hp));
          i = length hp - length port - 1
      in if hd hp = CHR ''[''
         then (let e = length (takeWhile (\<lambda>c. c \<noteq> CHR '']'') hp) in
               if CHR '']'' \<notin> set hp \<or> e + 1 \<noteq> i then None
               else if CHR ''['' \<in> set (drop 1 hp) \<or> CHR '']'' \<in> set (drop (e + 1) hp) then None
               else Some (drop 1 (take e hp)))
         else (let host = take i hp in
               if CHR '':'' \<in> set host then None
               else if CHR ''['' \<in> set hp \<or> CHR '']'' \<in> set hp then None
               else Some host))"

section \<open>Lemmas\<close>

lemma all_some_length: "all_some xs = Some ys \<Longrightarrow> length ys = length xs"
  by (induction xs arbitrary: ys rule: all_some.induct) auto

lemma parseIPv4_length: "parseIPv4 s = Some v4 \<Longrightarrow> length v4 = 4"
  by (auto simp: parseIPv4_def Let_def split: if_splits dest: all_some_length)

lemma ipv6_loop_length:
  "ipv6_loop n ip ell s = Some (ip', ell', r) \<Longrightarrow> even (length ip) \<Longrightarrow> length ip + 2 * n = 16 \<Longrightarrow>
     (\<And>e. ell = Some e \<Longrightarrow> e \<le> length ip) \<Longrightarrow>
     length ip' \<le> 16 \<and> (\<forall>e. ell' = Some e \<longrightarrow> e \<le> length ip')"
proof (induction n ip ell s rule: ipv6_loop.induct)
  case (2 n ip ell s)
  note IH = "2.IH" and P = "2.prems"
  obtain off acc rr where h: "hex_group 0 0 s = Some (off, acc, rr)" "off \<noteq> 0"
    using P(1) by (auto split: option.splits if_splits)
  show ?case
  proof (cases "rr \<noteq> [] \<and> hd rr = CHR ''.''")
    case True
    then show ?thesis using P h
      by (auto split: if_splits dest!: parseIPv4_length)
  next
    case False
    define ip2 where "ip2 = ip @ [word_of_nat (acc div 256) :: byte, word_of_nat (acc mod 256)]"
    have l2: "length ip2 = length ip + 2" by (simp add: ip2_def)
    have ell: "\<And>e. ell = Some e \<Longrightarrow> e \<le> length ip2" using P(4) l2 by fastforce
    show ?thesis
    proof (cases rr rule: remdups_adj.cases)
      case 1
      then show ?thesis using P h False ell l2 by (auto simp: ip2_def[symmetric] Let_def)
    next
      case (2 c)
      then show ?thesis using P h False by (auto simp: Let_def)
    next
      case (3 c d r')
      then show ?thesis
        using P(1-3) h False ell l2
          IH(2)[OF h(1) refl refl h(2) False ip2_def 3 refl]
          IH(1)[OF h(1) refl refl h(2) False ip2_def 3 refl]
        by (auto simp: ip2_def[symmetric] Let_def split: if_splits)
    qed
  qed
qed auto

lemma parseIPv6_length: "parseIPv6 s = Some ip \<Longrightarrow> length ip = 16"
proof -
  assume a: "parseIPv6 s = Some ip"
  have L: "length ip' \<le> 16 \<and> (\<forall>e. ell' = Some e \<longrightarrow> e \<le> length ip')"
    if "ipv6_loop 8 [] ell t = Some (ip', ell', r)" "ell = Some 0 \<or> ell = None" for ell t ip' ell' r
    using ipv6_loop_length[OF that(1)] that(2) by auto
  show ?thesis
    using a L[of "Some 0" "drop 2 s"] L[of None s]
    by (auto simp: parseIPv6_def Let_def split: if_splits option.splits prod.splits)
qed

lemma ParseIP_length: "ParseIP s = Some ip \<Longrightarrow> length ip = 16"
  by (auto simp: ParseIP_def ParseAddr_def v4InV6Prefix_def split: option.splits if_splits
      dest: parseIPv4_length parseIPv6_length)

end
