(* ===== verification/ClientIP.thy ===== *)
theory ClientIP
  imports GoNet
begin

text \<open>
  The address a request is attributed to (\<open>clientIP\<close> and \<open>isTrustedProxy\<close> of
  server/internal/transport/http/handler/auth.go): the peer of the connection, or, when the peer is
  a trusted proxy, the last entry of X-Forwarded-For that is not one. The key of the sign-in limit
  is made from it.
\<close>

section \<open>Definitions\<close>

definition isTrustedProxy :: "IP \<Rightarrow> IPNet list \<Rightarrow> bool" where
  "isTrustedProxy ip trusted \<longleftrightarrow> list_ex (\<lambda>network. Contains network ip) trusted"

text \<open>The loop from the last entry to the first; the entries are given in that order.\<close>

fun last_untrusted :: "IPNet list \<Rightarrow> string list \<Rightarrow> string option" where
  "last_untrusted trusted [] = None"
| "last_untrusted trusted (part # parts) =
     (let entry = TrimSpace part in
      if entry = '''' then last_untrusted trusted parts
      else case ParseIP entry of
             Some ip \<Rightarrow> if isTrustedProxy ip trusted then last_untrusted trusted parts else Some entry
           | None \<Rightarrow> Some entry)"

text \<open>
  The header lines of a request with their canonical names; \<open>Header.Get\<close> returns the first line of
  the name, or the empty text.
\<close>

type_synonym header = "(string \<times> string) list"

definition Header_Get :: "header \<Rightarrow> string \<Rightarrow> string" where
  "Header_Get hs name = (case map_of hs name of None \<Rightarrow> '''' | Some v \<Rightarrow> v)"

definition clientIP :: "string \<Rightarrow> header \<Rightarrow> IPNet list \<Rightarrow> string" where
  "clientIP remoteAddr hs trusted =
     (let host = (case SplitHostPort remoteAddr of Some h \<Rightarrow> h | None \<Rightarrow> remoteAddr) in
      case ParseIP host of
        None \<Rightarrow> host
      | Some peer \<Rightarrow>
          if \<not> isTrustedProxy peer trusted then host
          else let forwarded = Header_Get hs ''X-Forwarded-For'' in
               if forwarded = '''' then host
               else (case last_untrusted trusted (rev (Split CHR '','' forwarded)) of
                       Some entry \<Rightarrow> entry | None \<Rightarrow> host))"

section \<open>The loop against its specification\<close>

text \<open>An entry the loop skips: empty, or the address of a trusted proxy.\<close>

definition skipped :: "IPNet list \<Rightarrow> string \<Rightarrow> bool" where
  "skipped trusted part \<longleftrightarrow> TrimSpace part = ''''
     \<or> (\<exists>ip. ParseIP (TrimSpace part) = Some ip \<and> isTrustedProxy ip trusted)"

lemma last_untrusted_eq:
  "last_untrusted trusted parts = map_option TrimSpace (find (\<lambda>p. \<not> skipped trusted p) parts)"
  by (induction trusted parts rule: last_untrusted.induct)
    (auto simp: skipped_def Let_def split: option.splits)

lemma find_append_hit: "list_ex P xs \<Longrightarrow> find P (xs @ ys) = find P xs"
  by (induction xs) auto

lemma Split_append: "Split c (s @ c # t) = Split c s @ Split c t"
proof (induction s)
  case Nil
  then show ?case by simp
next
  case (Cons x s)
  show ?case
  proof (cases "x = c")
    case False
    obtain p ps where "Split c s = p # ps" by (cases "Split c s") (auto dest: Split_nonempty[THEN notE])
    then show ?thesis using Cons False by (auto split: list.splits)
  qed (use Cons in auto)
qed

end
