(* ===== verification/Apperr.thy ===== *)
theory Apperr
  imports GoStrings
begin

text \<open>
  Errors: the Go error values that flow through the server and the package \<open>apperr\<close>
  (server/pkg/apperr/apperr.go). An error is a value of the datatype \<open>err\<close>; a Go function that
  returns a value and an error is a function into \<open>err + 'a\<close>. The package's functions
  \<open>From\<close>, \<open>KindOf\<close>, \<open>MessageOf\<close> and \<open>DetailsOf\<close> walk the chain of wrapped
  errors with \<open>errors.As\<close>; the lemmas say what they return for the errors the server builds.
\<close>

section \<open>Errors\<close>

datatype kind =
  KindNotFound | KindInvalid | KindUnauthorized | KindForbidden | KindTooMany | KindInternal

fun kind_string :: "kind \<Rightarrow> string" where
  "kind_string KindNotFound = ''not_found''"
| "kind_string KindInvalid = ''invalid''"
| "kind_string KindUnauthorized = ''unauthorized''"
| "kind_string KindForbidden = ''forbidden''"
| "kind_string KindTooMany = ''too_many''"
| "kind_string KindInternal = ''internal''"

text \<open>
  The error variables the code compares against with \<open>errors.Is\<close>: those of the packages
  \<open>domain\<close> and \<open>port\<close>, and \<open>pgx.ErrNoRows\<close> of the database driver.
\<close>

datatype sentinel =
    ErrAgentNotFound | ErrAgentNameRequired | ErrNotEventUser | ErrAgentKeyRevoked
  | ErrEventNotFound | ErrNameRequired | ErrUserNotFound | ErrUserTokenNotFound
  | ErrProviderUnavailable | ErrNoRows

fun sentinel_text :: "sentinel \<Rightarrow> string" where
  "sentinel_text ErrAgentNotFound = ''agent not found''"
| "sentinel_text ErrAgentNameRequired = ''agent name is required''"
| "sentinel_text ErrNotEventUser = ''actor does not own the event''"
| "sentinel_text ErrAgentKeyRevoked = ''agent key has been revoked''"
| "sentinel_text ErrEventNotFound = ''event not found''"
| "sentinel_text ErrNameRequired = ''event name is required''"
| "sentinel_text ErrUserNotFound = ''user not found''"
| "sentinel_text ErrUserTokenNotFound = ''user token not found''"
| "sentinel_text ErrProviderUnavailable = ''identity provider is not configured''"
| "sentinel_text ErrNoRows = ''no rows in result set''"

text \<open>
  \<open>Sentinel\<close>: one of the variables above; \<open>Plain\<close>: any other error without a cause;
  \<open>PgError code text\<close>: an error the database answered with, and its SQLSTATE code;
  \<open>Wrapf pre e post\<close>: \<open>fmt.Errorf\<close> with \<open>%w\<close>; \<open>Error\<close>: the struct
  \<open>apperr.Error\<close> (kind, message, details, cause).
\<close>

datatype err =
    Sentinel sentinel
  | Plain string
  | PgError string string
  | Wrapf string err string
  | Error kind string "(string \<times> string) list" "err option"

fun err_text :: "err \<Rightarrow> string" where
  "err_text (Sentinel s) = sentinel_text s"
| "err_text (Plain t) = t"
| "err_text (PgError code t) = t"
| "err_text (Wrapf pre e post) = pre @ err_text e @ post"
| "err_text (Error k m d None) = m"
| "err_text (Error k m d (Some e)) = m @ '': '' @ err_text e"

fun Unwrap :: "err \<Rightarrow> err option" where
  "Unwrap (Wrapf pre e post) = Some e"
| "Unwrap (Error k m d e) = e"
| "Unwrap _ = None"

text \<open>\<open>errors.Is\<close> for an error variable.\<close>

fun errors_Is :: "err \<Rightarrow> sentinel \<Rightarrow> bool" where
  "errors_Is (Sentinel s) t \<longleftrightarrow> s = t"
| "errors_Is (Wrapf pre e post) t \<longleftrightarrow> errors_Is e t"
| "errors_Is (Error k m d (Some e)) t \<longleftrightarrow> errors_Is e t"
| "errors_Is _ t \<longleftrightarrow> False"

text \<open>\<open>errors.As\<close> for a database error: its code.\<close>

fun errors_As_PgError :: "err \<Rightarrow> string option" where
  "errors_As_PgError (PgError code t) = Some code"
| "errors_As_PgError (Wrapf pre e post) = errors_As_PgError e"
| "errors_As_PgError (Error k m d (Some e)) = errors_As_PgError e"
| "errors_As_PgError _ = None"

section \<open>The package apperr\<close>

definition New :: "kind \<Rightarrow> string \<Rightarrow> err" where
  "New k message = Error k message [] None"

definition NotFound :: "string \<Rightarrow> err" where
  "NotFound message = New KindNotFound message"

definition Invalid :: "string \<Rightarrow> err" where
  "Invalid message = New KindInvalid message"

definition Unauthorized :: "string \<Rightarrow> err" where
  "Unauthorized message = New KindUnauthorized message"

definition Forbidden :: "string \<Rightarrow> err" where
  "Forbidden message = New KindForbidden message"

definition TooMany :: "string \<Rightarrow> err" where
  "TooMany message = New KindTooMany message"

definition Wrap :: "err \<Rightarrow> string \<Rightarrow> err" where
  "Wrap e message = Error KindInternal message [] (Some e)"

fun WithDetails :: "err \<Rightarrow> (string \<times> string) list \<Rightarrow> err" where
  "WithDetails (Error k m d e) details = Error k m details e"
| "WithDetails e details = e"

text \<open>
  \<open>From\<close>: the first \<open>apperr.Error\<close> of the chain, as its kind, message and details, or
  \<open>None\<close> where the code returns \<open>false\<close>.
\<close>

fun From :: "err \<Rightarrow> (kind \<times> string \<times> (string \<times> string) list) option" where
  "From (Error k m d e) = Some (k, m, d)"
| "From (Wrapf pre e post) = From e"
| "From _ = None"

definition KindOf :: "err \<Rightarrow> kind" where
  "KindOf e = (case From e of Some (k, m, d) \<Rightarrow> k | None \<Rightarrow> KindInternal)"

definition MessageOf :: "err \<Rightarrow> string" where
  "MessageOf e = (case From e of Some (k, m, d) \<Rightarrow> m | None \<Rightarrow> err_text e)"

definition DetailsOf :: "err \<Rightarrow> (string \<times> string) list" where
  "DetailsOf e = (case From e of Some (k, m, d) \<Rightarrow> d | None \<Rightarrow> [])"

lemmas apperr_defs = New_def NotFound_def Invalid_def Unauthorized_def Forbidden_def TooMany_def Wrap_def

lemma KindOf_simps [simp]:
  "KindOf (New k m) = k" "KindOf (NotFound m) = KindNotFound" "KindOf (Invalid m) = KindInvalid"
  "KindOf (Unauthorized m) = KindUnauthorized" "KindOf (Forbidden m) = KindForbidden"
  "KindOf (TooMany m) = KindTooMany" "KindOf (Wrap e m) = KindInternal"
  "KindOf (Sentinel s) = KindInternal" "KindOf (Plain t) = KindInternal"
  "KindOf (PgError c t) = KindInternal" "KindOf (Wrapf pre e post) = KindOf e"
  "KindOf (WithDetails (Invalid m) ds) = KindInvalid"
  by (simp_all add: KindOf_def apperr_defs)

lemma MessageOf_simps [simp]:
  "MessageOf (NotFound m) = m" "MessageOf (Invalid m) = m" "MessageOf (Unauthorized m) = m"
  "MessageOf (Forbidden m) = m" "MessageOf (TooMany m) = m" "MessageOf (Wrap e m) = m"
  "MessageOf (WithDetails (Invalid m) ds) = m"
  by (simp_all add: MessageOf_def apperr_defs)

lemma DetailsOf_simps [simp]:
  "DetailsOf (NotFound m) = []" "DetailsOf (Invalid m) = []" "DetailsOf (Unauthorized m) = []"
  "DetailsOf (Forbidden m) = []" "DetailsOf (TooMany m) = []" "DetailsOf (Wrap e m) = []"
  "DetailsOf (WithDetails (Invalid m) ds) = ds"
  by (simp_all add: DetailsOf_def apperr_defs)

text \<open>
  \<open>Wrap\<close> keeps the cause visible to \<open>errors.Is\<close>, and hides its kind: whatever is
  wrapped, the outer kind is internal.
\<close>

lemma errors_Is_Wrap [simp]: "errors_Is (Wrap e m) s \<longleftrightarrow> errors_Is e s"
  by (simp add: Wrap_def)

lemma errors_Is_New [simp]:
  "\<not> errors_Is (NotFound m) s" "\<not> errors_Is (Invalid m) s" "\<not> errors_Is (Unauthorized m) s"
  "\<not> errors_Is (Forbidden m) s" "\<not> errors_Is (TooMany m) s"
  by (simp_all add: apperr_defs)

lemma apperr_distinct [simp]:
  "Wrap e m \<noteq> NotFound m'" "Wrap e m \<noteq> Invalid m'" "Wrap e m \<noteq> Unauthorized m'"
  "Wrap e m \<noteq> Forbidden m'" "Wrap e m \<noteq> TooMany m'" "Wrap e m \<noteq> Sentinel s"
  by (simp_all add: apperr_defs)

end
