(* ===== verification/Json.thy ===== *)
theory Json
  imports Apperr
begin

text \<open>
  The part of \<open>encoding/json\<close> the server uses to fill a struct: a parsed document is a
  \<open>json\<close> value whose objects keep the order and the duplicates of their keys. A key selects the
  field whose name it equals, or equals up to the folding of case; a later key overwrites an
  earlier one; \<open>null\<close> leaves a string or bool field as it is; any other mismatch of types is an
  error.
\<close>

datatype json =
  JNull | JBool bool | JString string | JNumber string | JArray "json list" | JObject "(string \<times> json) list"

text \<open>
  \<open>foldName\<close>, for names of ASCII letters: two characters outside ASCII fold to one, the long s
  (U+017F) and the sign of the kelvin (U+212A).
\<close>

fun fold_name :: "string \<Rightarrow> string" where
  "fold_name [] = []"
| "fold_name (c # cs) =
     (if c = CHR 0xC5 \<and> prefix [CHR 0xBF] cs then CHR ''s'' # fold_name (drop 1 cs)
      else if c = CHR 0xE2 \<and> prefix [CHR 0x84, CHR 0xAA] cs then CHR ''k'' # fold_name (drop 2 cs)
      else lower_char c # fold_name cs)"

definition same_key :: "string \<Rightarrow> string \<Rightarrow> bool" where
  "same_key name key \<longleftrightarrow> fold_name name = fold_name key"

text \<open>The field a key selects among the names of a struct: an exact match is preferred.\<close>

definition field_for :: "string list \<Rightarrow> string \<Rightarrow> string option" where
  "field_for names key =
     (if key \<in> set names then Some key else find (\<lambda>n. same_key n key) names)"

fun decode_string :: "string \<Rightarrow> json \<Rightarrow> err + string" where
  "decode_string old (JString s) = Inr s"
| "decode_string old JNull = Inr old"
| "decode_string old _ = Inl (Plain ''json: cannot unmarshal into Go value of type string'')"

fun decode_bool :: "bool \<Rightarrow> json \<Rightarrow> err + bool" where
  "decode_bool old (JBool b) = Inr b"
| "decode_bool old JNull = Inr old"
| "decode_bool old _ = Inl (Plain ''json: cannot unmarshal into Go value of type bool'')"

text \<open>
  Filling a struct: \<open>set_field\<close> stores the value of one named field; an unknown key is skipped,
  or an error when \<open>strict\<close> (\<open>DisallowUnknownFields\<close>).
\<close>

fun decode_fields ::
  "bool \<Rightarrow> string list \<Rightarrow> (string \<Rightarrow> json \<Rightarrow> 'a \<Rightarrow> err + 'a) \<Rightarrow> (string \<times> json) list \<Rightarrow> 'a \<Rightarrow> err + 'a" where
  "decode_fields strict names set_field [] s = Inr s"
| "decode_fields strict names set_field ((k, v) # kvs) s =
     (case field_for names k of
        None \<Rightarrow> if strict then Inl (Plain (''json: unknown field '' @ k))
                else decode_fields strict names set_field kvs s
      | Some n \<Rightarrow> (case set_field n v s of
                     Inl e \<Rightarrow> Inl e
                   | Inr s' \<Rightarrow> decode_fields strict names set_field kvs s'))"

fun decode_struct ::
  "bool \<Rightarrow> string list \<Rightarrow> (string \<Rightarrow> json \<Rightarrow> 'a \<Rightarrow> err + 'a) \<Rightarrow> json \<Rightarrow> 'a \<Rightarrow> err + 'a" where
  "decode_struct strict names set_field (JObject kvs) s = decode_fields strict names set_field kvs s"
| "decode_struct strict names set_field JNull s = Inr s"
| "decode_struct strict names set_field _ s = Inl (Plain ''json: cannot unmarshal into Go value of type struct'')"

text \<open>What every field store keeps, decoding keeps.\<close>

lemma decode_fields_inv:
  assumes "decode_fields strict names set_field kvs s = Inr s'" "P s"
    and "\<And>n v s s'. set_field n v s = Inr s' \<Longrightarrow> P s \<Longrightarrow> P s'"
  shows "P s'"
  using assms(1,2)
proof (induction kvs arbitrary: s)
  case (Cons kv kvs)
  then show ?case using assms(3)
    by (cases kv) (auto split: option.splits sum.splits if_splits)
qed simp

end
