(* ===== verification/JsonText.thy ===== *)
theory JsonText
  imports Json GoNet
begin

text \<open>
  The text of JSON, as \<open>encoding/json\<close> reads and writes it: \<open>first_value\<close> is what
  \<open>json.NewDecoder(r).Decode\<close> takes from a body (the grammar of the scanner with its limit of
  nesting, and \<open>unquote\<close> of string literals), \<open>json_text\<close> is what \<open>json.Marshal\<close> makes of a
  value. Shown: the fuel of the reader is enough, and reading what was written gives the value back,
  up to the replacement of bytes that are no UTF-8.
\<close>

section \<open>UTF-8\<close>

definition cont :: "nat \<Rightarrow> nat \<Rightarrow> char \<Rightarrow> bool" where
  "cont lo hi c \<longleftrightarrow> lo \<le> of_char c \<and> of_char c \<le> (hi :: nat)"

text \<open>
  The first byte of an encoded character gives the number of bytes and the range of the second one
  (the table \<open>first\<close> and \<open>acceptRanges\<close> of \<open>unicode/utf8\<close>).
\<close>

definition rune_shape :: "nat \<Rightarrow> (nat \<times> nat \<times> nat) option" where
  "rune_shape n =
     (if n < 0x80 then Some (1, 0, 0)
      else if 0xC2 \<le> n \<and> n \<le> 0xDF then Some (2, 0x80, 0xBF)
      else if n = 0xE0 then Some (3, 0xA0, 0xBF)
      else if n = 0xED then Some (3, 0x80, 0x9F)
      else if 0xE1 \<le> n \<and> n \<le> 0xEF then Some (3, 0x80, 0xBF)
      else if n = 0xF0 then Some (4, 0x90, 0xBF)
      else if 0xF1 \<le> n \<and> n \<le> 0xF3 then Some (4, 0x80, 0xBF)
      else if n = 0xF4 then Some (4, 0x80, 0x8F)
      else None)"

text \<open>
  \<open>utf8.DecodeRune\<close>: the number of bytes of the encoded character a text begins with, 0 if it
  begins with none.
\<close>

definition rune_width :: "string \<Rightarrow> nat" where
  "rune_width s =
     (case s of
        [] \<Rightarrow> 0
      | a # r \<Rightarrow> (case rune_shape (of_char a) of
          None \<Rightarrow> 0
        | Some (w, lo, hi) \<Rightarrow>
            if w \<le> length s \<and> (w = 1 \<or> cont lo hi (hd r)) \<and> list_all (cont 0x80 0xBF) (take (w - 2) (tl r))
            then w else 0))"

definition RuneError :: string where
  "RuneError = [CHR 0xEF, CHR 0xBF, CHR 0xBD]"

text \<open>\<open>utf8.AppendRune\<close>; a number that is no character is written as U+FFFD.\<close>

definition encode_rune :: "nat \<Rightarrow> string" where
  "encode_rune n =
     (if n < 0x80 then [char_of n]
      else if n < 0x800 then [char_of (0xC0 + n div 64), char_of (0x80 + n mod 64)]
      else if 0xD800 \<le> n \<and> n \<le> 0xDFFF \<or> 0x10FFFF < n then RuneError
      else if n < 0x10000 then [char_of (0xE0 + n div 4096), char_of (0x80 + n div 64 mod 64), char_of (0x80 + n mod 64)]
      else [char_of (0xF0 + n div 262144), char_of (0x80 + n div 4096 mod 64),
            char_of (0x80 + n div 64 mod 64), char_of (0x80 + n mod 64)])"

text \<open>A text with every byte that is part of no character replaced by U+FFFD.\<close>

function to_valid :: "string \<Rightarrow> string" where
  "to_valid s =
     (if s = [] then []
      else let w = rune_width s in
        if w = 0 then RuneError @ to_valid (tl s)
        else take w s @ to_valid (drop w s))"
  by pat_completeness auto
termination
  by (relation "measure length") auto

declare to_valid.simps [simp del]

lemma rune_shape_width: "rune_shape n = Some (w, lo, hi) \<Longrightarrow> 1 \<le> w \<and> w \<le> 4"
  by (auto simp: rune_shape_def split: if_splits)

lemma rune_width_le: "rune_width s \<le> length s"
  by (auto simp: rune_width_def split: list.split option.split)

lemma rune_width_take:
  assumes "rune_width s = w" "w \<noteq> 0"
  shows "rune_width (take w s @ t) = w"
proof -
  obtain a r lo hi where s: "s = a # r" and w: "rune_shape (of_char a) = Some (w, lo, hi)" "w \<le> Suc (length r)"
    "w = 1 \<or> cont lo hi (hd r)" "list_all (cont 0x80 0xBF) (take (w - 2) (tl r))"
    using assms by (auto simp: rune_width_def split: list.splits option.splits if_splits)
  have "1 \<le> w" using rune_shape_width[OF w(1)] by simp
  then have t: "take w s @ t = a # take (w - 1) r @ t" using s by (cases w) auto
  show ?thesis
  proof (cases r)
    case Nil
    then show ?thesis using w assms(2) t by (simp add: rune_width_def)
  next
    case (Cons b q)
    then show ?thesis using w assms(2) \<open>1 \<le> w\<close> t
      by (cases "w = 1") (auto simp: rune_width_def take_Cons' numeral_2_eq_2)
  qed
qed

lemma rune_width_ascii [simp]: "(of_char c :: nat) < 0x80 \<Longrightarrow> rune_width (c # r) = 1"
  by (simp add: rune_width_def rune_shape_def)

section \<open>String literals\<close>

definition hex4 :: "string \<Rightarrow> nat" where
  "hex4 s = foldl (\<lambda>n c. 16 * n + (case hex_val c of Some d \<Rightarrow> d | None \<Rightarrow> 0)) 0 (take 4 s)"

text \<open>The characters that may follow a backslash, with what they stand for.\<close>

definition escapes :: "(char \<times> char) list" where
  "escapes = [(CHR ''b'', CHR 0x08), (CHR ''f'', CHR 0x0C), (CHR ''n'', CHR 0x0A), (CHR ''r'', CHR 0x0D),
     (CHR ''t'', CHR 0x09), (CHR 0x5C, CHR 0x5C), (CHR ''/'', CHR ''/''), (CHR 0x22, CHR 0x22)]"

text \<open>
  The scanner in a literal after its opening quote: the text up to the closing quote, and what
  follows that quote.
\<close>

function raw_string :: "string \<Rightarrow> (string \<times> string) option" where
  "raw_string s =
     (case s of
        [] \<Rightarrow> None
      | c # r \<Rightarrow>
          if c = CHR 0x22 then Some ([], r)
          else if c = CHR 0x5C
          then (case r of
                  [] \<Rightarrow> None
                | e # q \<Rightarrow>
                    if e = CHR ''u''
                    then (if 4 \<le> length q \<and> list_all (\<lambda>h. hex_val h \<noteq> None) (take 4 q)
                          then map_option (apfst ((@) (c # e # take 4 q))) (raw_string (drop 4 q)) else None)
                    else if map_of escapes e \<noteq> None
                    then map_option (apfst ((@) [c, e])) (raw_string q) else None)
          else if of_char c < (0x20 :: nat) then None
          else map_option (apfst ((@) [c])) (raw_string r))"
  by pat_completeness auto
termination
  by (relation "measure length") auto

declare raw_string.simps [simp del]

text \<open>
  \<open>unquote\<close> on the text of a literal: escapes are replaced, a pair of surrogates is one character,
  a lone surrogate and a byte that is part of no character are U+FFFD.
\<close>

function unquote :: "string \<Rightarrow> string" where
  "unquote s =
     (case s of
        [] \<Rightarrow> []
      | c # r \<Rightarrow>
          if c = CHR 0x5C
          then (case r of
                  [] \<Rightarrow> []
                | e # q \<Rightarrow>
                    if e = CHR ''u''
                    then (let rr = hex4 q; t = drop 4 q in
                          if 0xD800 \<le> rr \<and> rr < 0xE000
                          then (let rr1 = hex4 (drop 2 t) in
                                if rr < 0xDC00 \<and> prefix [CHR 0x5C, CHR ''u''] t \<and> 0xDC00 \<le> rr1 \<and> rr1 < 0xE000
                                then encode_rune ((rr - 0xD800) * 1024 + (rr1 - 0xDC00) + 0x10000) @ unquote (drop 6 t)
                                else RuneError @ unquote t)
                          else encode_rune rr @ unquote t)
                    else (case map_of escapes e of None \<Rightarrow> [] | Some x \<Rightarrow> x # unquote q))
          else let w = rune_width s in
            if w = 0 then RuneError @ unquote r else take w s @ unquote (drop w s))"
  by pat_completeness auto
termination
  by (relation "measure length") auto

declare unquote.simps [simp del]

text \<open>\<open>appendString\<close> of the encoder, with the escapes for HTML that \<open>json.Marshal\<close> makes.\<close>

definition quote_ascii :: "char \<Rightarrow> string" where
  "quote_ascii c =
     (let n = of_char c :: nat in
      if c = CHR 0x22 \<or> c = CHR 0x5C then [CHR 0x5C, c]
      else if n = 0x08 then CHR 0x5C # ''b''
      else if n = 0x0C then CHR 0x5C # ''f''
      else if n = 0x0A then CHR 0x5C # ''n''
      else if n = 0x0D then CHR 0x5C # ''r''
      else if n = 0x09 then CHR 0x5C # ''t''
      else if n < 0x20 \<or> c \<in> {CHR ''<'', CHR ''>'', CHR ''&''}
      then CHR 0x5C # ''u00'' @ [hex_digits ! (n div 16), hex_digits ! (n mod 16)]
      else [c])"

definition quote_rune :: "string \<Rightarrow> string" where
  "quote_rune t =
     (if t = [CHR 0xE2, CHR 0x80, CHR 0xA8] then CHR 0x5C # ''u2028''
      else if t = [CHR 0xE2, CHR 0x80, CHR 0xA9] then CHR 0x5C # ''u2029''
      else t)"

function quote_body :: "string \<Rightarrow> string" where
  "quote_body s =
     (case s of
        [] \<Rightarrow> []
      | c # r \<Rightarrow>
          if of_char c < (0x80 :: nat) then quote_ascii c @ quote_body r
          else let w = rune_width s in
            if w = 0 then (CHR 0x5C # ''ufffd'') @ quote_body r
            else quote_rune (take w s) @ quote_body (drop w s))"
  by pat_completeness auto
termination
  by (relation "measure length") auto

declare quote_body.simps [simp del]

text \<open>Reading a quoted text: first the scanner, then \<open>unquote\<close>.\<close>

lemma raw_string_plain:
  "c \<noteq> CHR 0x22 \<Longrightarrow> c \<noteq> CHR 0x5C \<Longrightarrow> 0x20 \<le> (of_char c :: nat) \<Longrightarrow>
     raw_string (c # t) = map_option (apfst ((@) [c])) (raw_string t)"
  by (simp add: raw_string.simps[of "c # t"])

lemma raw_string_escape:
  "map_of escapes e = Some x \<Longrightarrow> raw_string (CHR 0x5C # e # t) = map_option (apfst ((@) [CHR 0x5C, e])) (raw_string t)"
  by (auto simp: raw_string.simps[of "CHR 0x5C # e # t"] escapes_def split: if_splits)

lemma raw_string_u:
  "list_all (\<lambda>h. hex_val h \<noteq> None) [a, b, c, d] \<Longrightarrow>
     raw_string (CHR 0x5C # CHR ''u'' # a # b # c # d # t)
       = map_option (apfst ((@) [CHR 0x5C, CHR ''u'', a, b, c, d])) (raw_string t)"
  by (simp add: raw_string.simps[of "CHR 0x5C # CHR ''u'' # a # b # c # d # t"] eval_nat_numeral)

lemma hex_val_digit: "i < 16 \<Longrightarrow> hex_val (hex_digits ! i) = Some i"
proof -
  assume "i < 16"
  then have "i \<in> set [0..<16]" by simp
  moreover have "\<forall>i \<in> set [0..<16]. hex_val (hex_digits ! i) = Some i"
    by (simp add: hex_digits_def hex_val_def upt_rec Let_def)
  ultimately show ?thesis by blast
qed

lemma quote_ascii_cases:
  assumes "of_char c < (0x80 :: nat)"
  obtains (escape) e where "map_of escapes e = Some c" "quote_ascii c = [CHR 0x5C, e]" "e \<noteq> CHR ''u''"
  | (code) a b where "quote_ascii c = [CHR 0x5C, CHR ''u'', CHR ''0'', CHR ''0'', a, b]"
      "hex_val a = Some (of_char c div 16)" "hex_val b = Some (of_char c mod 16)"
  | (plain) "quote_ascii c = [c]" "c \<noteq> CHR 0x22" "c \<noteq> CHR 0x5C" "0x20 \<le> (of_char c :: nat)"
proof -
  define n where "n = (of_char c :: nat)"
  have c: "c = char_of n" by (simp add: n_def)
  consider "n = 0x22 \<or> n = 0x5C" | "n \<in> {0x08, 0x0C, 0x0A, 0x0D, 0x09}"
    | "n \<notin> {0x22, 0x5C, 0x08, 0x0C, 0x0A, 0x0D, 0x09}" by blast
  then show thesis
  proof cases
    case 1
    then have "c = CHR 0x22 \<or> c = CHR 0x5C" by (auto simp: c char_of_eq_iff)
    then show thesis using escape[of c] by (auto simp: quote_ascii_def escapes_def)
  next
    case 2
    then have "c \<in> {CHR 0x08, CHR 0x0C, CHR 0x0A, CHR 0x0D, CHR 0x09}" by (auto simp: c char_of_eq_iff)
    moreover have "map_of escapes CHR ''b'' = Some CHR 0x08" "map_of escapes CHR ''f'' = Some CHR 0x0C"
      "map_of escapes CHR ''n'' = Some CHR 0x0A" "map_of escapes CHR ''r'' = Some CHR 0x0D"
      "map_of escapes CHR ''t'' = Some CHR 0x09" by (simp_all add: escapes_def)
    ultimately show thesis using escape by (auto simp: quote_ascii_def)
  next
    case 3
    then have q: "c \<noteq> CHR 0x22" "c \<noteq> CHR 0x5C" by (auto simp: n_def)
    have "n div 16 < 16" using assms by (simp add: n_def)
    note h = hex_val_digit[OF this] hex_val_digit[of "n mod 16"]
    show thesis
    proof (cases "n < 0x20 \<or> c \<in> {CHR ''<'', CHR ''>'', CHR ''&''}")
      case True
      then have "quote_ascii c = CHR 0x5C # ''u00'' @ [hex_digits ! (n div 16), hex_digits ! (n mod 16)]"
        using 3 q by (simp add: quote_ascii_def n_def[symmetric] Let_def)
      then show thesis using code h by (simp add: n_def)
    next
      case False
      then have "quote_ascii c = [c]" using 3 q by (simp add: quote_ascii_def n_def[symmetric] Let_def)
      then show thesis using plain q False by (simp add: n_def)
    qed
  qed
qed

lemma raw_string_ascii:
  assumes "of_char c < (0x80 :: nat)"
  shows "raw_string (quote_ascii c @ t) = map_option (apfst ((@) (quote_ascii c))) (raw_string t)"
  using assms
proof (cases rule: quote_ascii_cases)
  case (code a b)
  then have "list_all (\<lambda>h. hex_val h \<noteq> None) [CHR ''0'', CHR ''0'', a, b]" by (simp add: hex_val_def)
  then show ?thesis using code raw_string_u by simp
qed (simp_all add: raw_string_escape raw_string_plain)

lemma raw_string_bytes:
  "list_all (\<lambda>c. 0x80 \<le> (of_char c :: nat)) bs \<Longrightarrow> raw_string (bs @ t) = map_option (apfst ((@) bs)) (raw_string t)"
proof (induction bs)
  case (Cons c bs)
  then have "c \<noteq> CHR 0x22" "c \<noteq> CHR 0x5C" by auto
  then show ?case using Cons by (cases "raw_string t") (auto simp: raw_string_plain)
next
  case Nil
  then show ?case by (cases "raw_string t") auto
qed

lemma unquote_Nil [simp]: "unquote [] = []"
  by (simp add: unquote.simps)

lemma unquote_escape:
  "map_of escapes e = Some x \<Longrightarrow> e \<noteq> CHR ''u'' \<Longrightarrow> unquote (CHR 0x5C # e # t) = x # unquote t"
  by (simp add: unquote.simps[of "CHR 0x5C # e # t"])

lemma hex4_append: "hex4 (a # b # c # d # t) = hex4 [a, b, c, d]"
  by (simp add: hex4_def)

lemma drop_4: "drop 4 (a # b # c # d # t) = t"
  by simp

lemma unquote_u:
  "hex4 [a, b, c, d] = n \<Longrightarrow> \<not> (0xD800 \<le> n \<and> n < 0xE000) \<Longrightarrow>
     unquote (CHR 0x5C # CHR ''u'' # a # b # c # d # t) = encode_rune n @ unquote t"
  using hex4_append[of a b c d t] by (subst unquote.simps) (auto simp: Let_def)

lemma unquote_rune:
  assumes "rune_width s = w" "w \<noteq> 0" "hd s \<noteq> CHR 0x5C"
  shows "unquote (take w s @ t) = take w s @ unquote t"
proof -
  have w: "rune_width (take w s @ t) = w" using rune_width_take assms by blast
  have "s \<noteq> []" using assms by (auto simp: rune_width_def)
  then obtain r where r: "take w s @ t = hd s # r" using assms by (cases s; cases w) auto
  define u where "u = hd s # r"
  have "length (take w s) = w" using rune_width_le[of s] assms(1) by simp
  then have "take w (take w s @ t) = take w s" "drop w (take w s @ t) = t" by simp_all
  then have "take w u = take w s" "drop w u = t" by (simp_all add: r u_def)
  moreover have "unquote u = take w u @ unquote (drop w u)"
    using w r assms(2,3) by (subst unquote.simps) (simp add: u_def Let_def)
  ultimately show ?thesis using r by (simp add: u_def)
qed

lemma unquote_ascii:
  assumes "of_char c < (0x80 :: nat)"
  shows "unquote (quote_ascii c @ t) = c # unquote t"
  using assms
proof (cases rule: quote_ascii_cases)
  case (code a b)
  have "hex4 [CHR ''0'', CHR ''0'', a, b] = of_char c" using code by (simp add: hex4_def hex_val_def)
  moreover have "encode_rune (of_char c) = [c]" using assms by (simp add: encode_rune_def)
  ultimately show ?thesis using code unquote_u assms by simp
next
  case plain
  then show ?thesis using unquote_rune[of "[c]" 1] assms by simp
qed (simp add: unquote_escape)

lemma rune_bytes_high:
  assumes "rune_width (c # r) = w" "w \<noteq> 0" "\<not> of_char c < (0x80 :: nat)"
  shows "list_all (\<lambda>c. 0x80 \<le> (of_char c :: nat)) (take w (c # r))"
proof -
  obtain lo hi where w: "rune_shape (of_char c) = Some (w, lo, hi)" "w \<le> Suc (length r)"
    "w = 1 \<or> cont lo hi (hd r)" "list_all (cont 0x80 0xBF) (take (w - 2) (tl r))"
    using assms by (auto simp: rune_width_def split: option.splits if_splits)
  have lo: "0x80 \<le> lo" "2 \<le> w" using w(1) assms(3) by (auto simp: rune_shape_def split: if_splits)
  then obtain b q where r: "r = b # q" using w(2) by (cases r) auto
  have "list_all (\<lambda>c. 0x80 \<le> (of_char c :: nat)) (take (w - 2) q)"
    using w(4) r by (auto simp: cont_def list_all_iff)
  moreover have "take w (c # r) = c # b # take (w - 2) q" using lo(2) r by (simp add: take_Cons' numeral_2_eq_2)
  ultimately show ?thesis using assms(3) lo w(3) r by (auto simp: cont_def)
qed

lemma raw_string_fffd: "raw_string (CHR 0x5C # ''ufffd'' @ t) = map_option (apfst ((@) (CHR 0x5C # ''ufffd''))) (raw_string t)"
  "raw_string (CHR 0x5C # ''u2028'' @ t) = map_option (apfst ((@) (CHR 0x5C # ''u2028''))) (raw_string t)"
  "raw_string (CHR 0x5C # ''u2029'' @ t) = map_option (apfst ((@) (CHR 0x5C # ''u2029''))) (raw_string t)"
  by (simp_all add: raw_string_u hex_val_def)

lemma unquote_fffd: "unquote (CHR 0x5C # ''ufffd'' @ t) = RuneError @ unquote t"
  "unquote (CHR 0x5C # ''u2028'' @ t) = [CHR 0xE2, CHR 0x80, CHR 0xA8] @ unquote t"
  "unquote (CHR 0x5C # ''u2029'' @ t) = [CHR 0xE2, CHR 0x80, CHR 0xA9] @ unquote t"
  by (simp_all add: unquote_u hex4_def hex_val_def encode_rune_def RuneError_def char_of_eq_iff)

lemma raw_string_rune:
  assumes "rune_width (c # r) = w" "w \<noteq> 0" "\<not> of_char c < (0x80 :: nat)"
  shows "raw_string (quote_rune (take w (c # r)) @ t) = map_option (apfst ((@) (quote_rune (take w (c # r))))) (raw_string t)"
  using raw_string_bytes[OF rune_bytes_high[OF assms], of t] by (simp add: quote_rune_def raw_string_fffd[simplified])

lemma unquote_quote_rune:
  assumes "rune_width (c # r) = w" "w \<noteq> 0" "\<not> of_char c < (0x80 :: nat)"
  shows "unquote (quote_rune (take w (c # r)) @ t) = take w (c # r) @ unquote t"
proof -
  have "c \<noteq> CHR 0x5C" using assms(3) by auto
  then show ?thesis using unquote_rune[OF assms(1,2), of t] by (simp add: quote_rune_def unquote_fffd[simplified])
qed

lemma raw_string_quote: "raw_string (quote_body s @ CHR 0x22 # t) = Some (quote_body s, t)"
proof (induction s rule: quote_body.induct)
  case (1 s)
  show ?case
  proof (cases s)
    case Nil
    then show ?thesis by (simp add: quote_body.simps raw_string.simps[of "CHR 0x22 # t"])
  next
    case (Cons c r)
    consider "of_char c < (0x80 :: nat)" | "\<not> of_char c < (0x80 :: nat)" "rune_width s = 0"
      | "\<not> of_char c < (0x80 :: nat)" "rune_width s \<noteq> 0" by blast
    then show ?thesis
    proof cases
      case 1
      then show ?thesis using "1.IH"(1)[OF Cons] by (subst (1 2) quote_body.simps) (simp add: Cons raw_string_ascii)
    next
      case 2
      then show ?thesis using "1.IH"(2)[OF Cons _ refl] Cons
        by (subst (1 2) quote_body.simps) (simp add: raw_string_fffd[simplified])
    next
      case 3
      then show ?thesis using "1.IH"(3)[OF Cons _ refl] Cons
        by (subst (1 2) quote_body.simps) (simp add: raw_string_rune Let_def)
    qed
  qed
qed

lemma unquote_quote: "unquote (quote_body s) = to_valid s"
proof (induction s rule: quote_body.induct)
  case (1 s)
  show ?case
  proof (cases s)
    case Nil
    then show ?thesis by (simp add: quote_body.simps to_valid.simps)
  next
    case (Cons c r)
    consider "of_char c < (0x80 :: nat)" | "\<not> of_char c < (0x80 :: nat)" "rune_width s = 0"
      | "\<not> of_char c < (0x80 :: nat)" "rune_width s \<noteq> 0" by blast
    then show ?thesis
    proof cases
      case 1
      then show ?thesis using "1.IH"(1)[OF Cons]
        by (subst quote_body.simps, subst to_valid.simps) (simp add: Cons unquote_ascii Let_def)
    next
      case 2
      then show ?thesis using "1.IH"(2)[OF Cons _ refl] Cons
        by (subst quote_body.simps, subst to_valid.simps) (simp add: unquote_fffd[simplified] Let_def)
    next
      case 3
      then show ?thesis using "1.IH"(3)[OF Cons _ refl] Cons
        by (subst quote_body.simps, subst to_valid.simps) (simp add: unquote_quote_rune Let_def)
    qed
  qed
qed

section \<open>Values\<close>

definition json_space :: "char \<Rightarrow> bool" where
  "json_space c \<longleftrightarrow> c \<in> {CHR 0x20, CHR 0x09, CHR 0x0A, CHR 0x0D}"

definition skip_space :: "string \<Rightarrow> string" where
  "skip_space s = dropWhile json_space s"

definition maxNestingDepth :: nat where "maxNestingDepth = 10000"

text \<open>A number literal at the front: its text and the rest.\<close>

definition span_digits :: "string \<Rightarrow> string \<times> string" where
  "span_digits s = (takeWhile is_digit s, dropWhile is_digit s)"

definition number_int :: "string \<Rightarrow> (string \<times> string) option" where
  "number_int s =
     (case s of
        [] \<Rightarrow> None
      | c # r \<Rightarrow> if c = CHR ''0'' then Some ([c], r)
                 else if is_digit c then Some (span_digits s) else None)"

definition number_frac :: "string \<Rightarrow> (string \<times> string) option" where
  "number_frac s =
     (case s of
        c # r \<Rightarrow> if c = CHR ''.''
                 then (case span_digits r of (ds, q) \<Rightarrow> if ds = [] then None else Some (c # ds, q))
                 else Some ([], s)
      | [] \<Rightarrow> Some ([], s))"

definition number_exp :: "string \<Rightarrow> (string \<times> string) option" where
  "number_exp s =
     (case s of
        c # r \<Rightarrow> if c = CHR ''e'' \<or> c = CHR ''E''
                 then (let sign = takeWhile (\<lambda>x. x = CHR ''+'' \<or> x = CHR ''-'') (take 1 r) in
                       case span_digits (drop (length sign) r) of (ds, q) \<Rightarrow>
                         if ds = [] then None else Some (c # sign @ ds, q))
                 else Some ([], s)
      | [] \<Rightarrow> Some ([], s))"

definition number :: "string \<Rightarrow> (string \<times> string) option" where
  "number s =
     (let sign = takeWhile (\<lambda>x. x = CHR ''-'') (take 1 s) in
      case number_int (drop (length sign) s) of
        None \<Rightarrow> None
      | Some (i, s1) \<Rightarrow> (case number_frac s1 of
          None \<Rightarrow> None
        | Some (f, s2) \<Rightarrow> (case number_exp s2 of
            None \<Rightarrow> None
          | Some (x, s3) \<Rightarrow> Some (sign @ i @ f @ x, s3))))"

definition string_value :: "string \<Rightarrow> (string \<times> string) option" where
  "string_value s = map_option (apfst unquote) (raw_string s)"

text \<open>
  A value, the elements of an array after its bracket and the members of an object after its brace.
  The first argument is fuel; the second is how much deeper arrays and objects may still be nested.
\<close>

fun json_value :: "nat \<Rightarrow> nat \<Rightarrow> string \<Rightarrow> (json \<times> string) option"
and json_elements :: "nat \<Rightarrow> nat \<Rightarrow> string \<Rightarrow> (json list \<times> string) option"
and json_members :: "nat \<Rightarrow> nat \<Rightarrow> string \<Rightarrow> ((string \<times> json) list \<times> string) option" where
  "json_value 0 d s = None"
| "json_value (Suc n) d s =
     (case skip_space s of
        [] \<Rightarrow> None
      | c # r \<Rightarrow>
          if c = CHR ''{''
          then (if d = 0 then None
                else if prefix ''}'' (skip_space r) then Some (JObject [], tl (skip_space r))
                else map_option (apfst JObject) (json_members n (d - 1) r))
          else if c = CHR ''[''
          then (if d = 0 then None
                else if prefix '']'' (skip_space r) then Some (JArray [], tl (skip_space r))
                else map_option (apfst JArray) (json_elements n (d - 1) r))
          else if c = CHR 0x22 then map_option (apfst JString) (string_value r)
          else if prefix ''true'' (c # r) then Some (JBool True, drop 4 (c # r))
          else if prefix ''false'' (c # r) then Some (JBool False, drop 5 (c # r))
          else if prefix ''null'' (c # r) then Some (JNull, drop 4 (c # r))
          else map_option (apfst JNumber) (number (c # r)))"
| "json_elements 0 d s = None"
| "json_elements (Suc n) d s =
     (case json_value n d s of
        None \<Rightarrow> None
      | Some (v, r) \<Rightarrow> (case skip_space r of
          [] \<Rightarrow> None
        | c # q \<Rightarrow> if c = CHR '']'' then Some ([v], q)
                   else if c = CHR '','' then map_option (apfst (Cons v)) (json_elements n d q)
                   else None))"
| "json_members 0 d s = None"
| "json_members (Suc n) d s =
     (if \<not> prefix [CHR 0x22] (skip_space s) then None
      else case string_value (tl (skip_space s)) of
        None \<Rightarrow> None
      | Some (k, r0) \<Rightarrow> (if \<not> prefix '':'' (skip_space r0) then None
          else case json_value n d (tl (skip_space r0)) of
            None \<Rightarrow> None
          | Some (v, r) \<Rightarrow> (case skip_space r of
              [] \<Rightarrow> None
            | c # q \<Rightarrow> if c = CHR ''}'' then Some ([(k, v)], q)
                       else if c = CHR '','' then map_option (apfst (Cons (k, v))) (json_members n d q)
                       else None)))"

text \<open>
  \<open>Decode\<close> of the first value of a body through \<open>MaxBytesReader\<close>: a value that is no array or
  object ends only with the byte after it or the end of the body, so it must end before the limit.
\<close>

definition composite :: "json \<Rightarrow> bool" where
  "composite j \<longleftrightarrow> (case j of JArray vs \<Rightarrow> True | JObject kvs \<Rightarrow> True | _ \<Rightarrow> False)"

definition first_value :: "nat \<Rightarrow> string \<Rightarrow> json option" where
  "first_value limit body =
     (let s = take limit body in
      case json_value (Suc (2 * length s)) maxNestingDepth s of
        None \<Rightarrow> None
      | Some (j, r) \<Rightarrow> if r = [] \<and> limit < length body \<and> \<not> composite j then None else Some j)"

section \<open>The fuel of the reader\<close>

lemma skip_space_le: "length (skip_space s) \<le> length s"
  by (simp add: skip_space_def length_dropWhile_le)

lemma map_apfst_Some [simp]: "map_option (apfst f) x = Some (v, r) \<longleftrightarrow> (\<exists>u. x = Some (u, r) \<and> v = f u)"
  by (cases x) (auto simp: apfst_def map_prod_def split: prod.splits)

lemma raw_string_shorter: "raw_string s = Some (x, r) \<Longrightarrow> length r < length s"
proof (induction s arbitrary: x r rule: raw_string.induct)
  case (1 s)
  note IH = "1.IH" and P = "1.prems"
  obtain c q where s: "s = c # q" using P by (cases s) (auto simp: raw_string.simps)
  show ?case
  proof (cases "c = CHR 0x22 \<or> c \<noteq> CHR 0x5C")
    case True
    then show ?thesis using P IH(3)[OF s] by (auto simp: s raw_string.simps[of "c # q"] split: if_splits intro: less_SucI)
  next
    case False
    then obtain e p where q: "q = e # p" using P by (cases q) (auto simp: s raw_string.simps)
    show ?thesis
    proof (cases "e = CHR ''u''")
      case True
      then obtain u where "raw_string (drop 4 p) = Some (u, r)" "4 \<le> length p \<and> list_all (\<lambda>h. hex_val h \<noteq> None) (take 4 p)"
        using P False True by (auto simp: s q raw_string.simps[of "CHR 0x5C # CHR ''u'' # p"] split: if_splits)
      then show ?thesis using IH(1)[OF s _ _ q True] False by (fastforce simp: s q)
    next
      case False2: False
      then obtain u where "raw_string p = Some (u, r)" "map_of escapes e \<noteq> None"
        using P False False2 by (auto simp: s q raw_string.simps[of "CHR 0x5C # e # p"] split: if_splits)
      then show ?thesis using IH(2)[OF s _ _ q False2] False by (fastforce simp: s q)
    qed
  qed
qed

lemma string_value_shorter: "string_value s = Some (x, r) \<Longrightarrow> length r < length s"
  by (auto simp: string_value_def dest: raw_string_shorter)

lemma number_shorter: "number s = Some (x, r) \<Longrightarrow> length r < length s"
proof -
  assume a: "number s = Some (x, r)"
  define k where "k = length (takeWhile (\<lambda>x. x = CHR ''-'') (take 1 s))"
  have le: "length (dropWhile p xs) \<le> length xs" for p :: "char \<Rightarrow> bool" and xs by (rule length_dropWhile_le)
  have le2: "length (dropWhile p (drop j xs)) \<le> length xs" for p :: "char \<Rightarrow> bool" and xs j
    using le[of p "drop j xs"] by simp
  have i: "number_int t = Some (i, q) \<Longrightarrow> length q < length t" for t i q
    by (cases t) (auto simp: number_int_def span_digits_def le less_Suc_eq_le split: if_splits)
  have f: "number_frac t = Some (i, q) \<Longrightarrow> length q \<le> length t" for t i q
    using le by (cases t) (auto simp: number_frac_def span_digits_def le_SucI split: if_splits)
  have e: "number_exp t = Some (i, q) \<Longrightarrow> length q \<le> length t" for t i q
    using le2 by (cases t) (auto simp: number_exp_def span_digits_def Let_def le_SucI split: if_splits)
  obtain i1 s1 f1 s2 e1 where "number_int (drop k s) = Some (i1, s1)" "number_frac s1 = Some (f1, s2)" "number_exp s2 = Some (e1, r)"
    using a by (auto simp: number_def Let_def k_def split: option.splits)
  then have "length s1 < length (drop k s)" "length s2 \<le> length s1" "length r \<le> length s2" using i f e by blast+
  then show ?thesis by simp
qed

lemma json_shorter:
  "json_value n d s = Some (v, r) \<Longrightarrow> length r < length s"
  "json_elements n d s = Some (vs, r) \<Longrightarrow> length r < length s"
  "json_members n d s = Some (kvs, r) \<Longrightarrow> length r < length s"
proof (induction n d s and n d s and n d s arbitrary: v r and vs r and kvs r
    rule: json_value_json_elements_json_members.induct)
  case (2 n d s)
  obtain c q where s: "skip_space s = c # q" using "2.prems" by (auto split: list.splits)
  have l: "length q < length s" using skip_space_le[of s] s by simp
  have t: "length (tl (skip_space q)) \<le> length q" using skip_space_le[of q] by simp
  consider "c = CHR ''{''" | "c = CHR ''[''" | "c = CHR 0x22" | "c \<notin> {CHR ''{'', CHR ''['', CHR 0x22}" by blast
  then show ?case
  proof cases
    case 1
    then show ?thesis using "2.prems" "2.IH"(1)[OF s 1] l t by (auto simp: s split: if_splits intro: less_trans le_less_trans)
  next
    case 2
    then show ?thesis using "2.prems" "2.IH"(2)[OF s _ 2] l t by (auto simp: s split: if_splits intro: less_trans le_less_trans)
  next
    case 3
    then show ?thesis using "2.prems" l by (auto simp: s dest!: string_value_shorter)
  next
    case 4
    then have "length r \<le> length q"
      using "2.prems" by (auto simp: s less_Suc_eq_le dest!: number_shorter split: if_splits)
    then show ?thesis using l by simp
  qed
next
  case (4 n d s)
  obtain w p c q where r: "json_value n d s = Some (w, p)" "skip_space p = c # q"
    using "4.prems" by (auto split: option.splits list.splits)
  have "length p < length s" using "4.IH"(1)[OF r(1)] .
  then have l: "length q < length s" using skip_space_le[of p] r(2) by simp
  show ?case using "4.prems" "4.IH"(2)[OF r(1) refl r(2)] l by (auto simp: r split: if_splits intro: less_trans)
next
  case (6 n d s)
  obtain k r0 w p c q where r: "prefix [CHR 0x22] (skip_space s)" "string_value (tl (skip_space s)) = Some (k, r0)"
      "prefix '':'' (skip_space r0)" "json_value n d (tl (skip_space r0)) = Some (w, p)" "skip_space p = c # q"
    using "6.prems" by (auto split: option.splits list.splits if_splits)
  have a: "length r0 < length (tl (skip_space s))" using string_value_shorter[OF r(2)] .
  have b: "length p < length (tl (skip_space r0))" using "6.IH"(1)[OF _ r(2) refl _ r(4)] r by simp
  have l: "length q < length s"
    using a b skip_space_le[of p] skip_space_le[of r0] skip_space_le[of s] r(5) by simp
  show ?case using "6.prems" "6.IH"(2)[OF _ r(2) refl _ r(4) refl r(5)] r l by (auto split: if_splits intro: less_trans)
qed simp_all

text \<open>With more fuel than twice the bytes of the text, the result does not depend on the fuel.\<close>

lemma json_fuel:
  "2 * length s < n \<Longrightarrow> 2 * length s < m \<Longrightarrow> json_value n d s = json_value m d s"
  "Suc (2 * length s) < n \<Longrightarrow> Suc (2 * length s) < m \<Longrightarrow> json_elements n d s = json_elements m d s"
  "2 * length s < n \<Longrightarrow> 2 * length s < m \<Longrightarrow> json_members n d s = json_members m d s"
proof (induction n d s and n d s and n d s arbitrary: m and m and m
    rule: json_value_json_elements_json_members.induct)
  case (2 n d s)
  obtain k where m: "m = Suc k" using "2.prems" by (cases m) auto
  show ?case
  proof (cases "skip_space s")
    case (Cons c q)
    then have "length q < length s" using skip_space_le[of s] by simp
    then have l: "Suc (2 * length q) < n" "Suc (2 * length q) < k" using "2.prems" m by auto
    then have l2: "2 * length q < n" "2 * length q < k" by auto
    have o: "c = CHR ''{'' \<Longrightarrow> d \<noteq> 0 \<Longrightarrow> \<not> prefix ''}'' (skip_space q) \<Longrightarrow> json_members n (d - 1) q = json_members k (d - 1) q"
      using "2.IH"(1)[OF Cons _ _ _ l2] by blast
    have a: "c = CHR ''['' \<Longrightarrow> d \<noteq> 0 \<Longrightarrow> \<not> prefix '']'' (skip_space q) \<Longrightarrow> json_elements n (d - 1) q = json_elements k (d - 1) q"
      by (rule "2.IH"(2)[OF Cons _ _ _ _ l]) simp_all
    show ?thesis unfolding m json_value.simps Cons list.case
      by (intro if_cong refl) (simp_all only: o a not_False_eq_True)
  qed (simp add: m)
next
  case (4 n d s)
  obtain k where m: "m = Suc k" using "4.prems" by (cases m) auto
  have "2 * length s < n" "2 * length s < k" using "4.prems" m by simp_all
  note e = "4.IH"(1)[OF this]
  have "json_elements n d q = json_elements k d q"
    if r: "json_value n d s = Some (w, p)" "skip_space p = c # q" "c = CHR '',''" for w p c q
  proof -
    have "length q < length s" using json_shorter(1)[OF r(1)] skip_space_le[of p] r(2) by simp
    then show ?thesis using "4.IH"(2)[OF r(1) refl r(2)] r(3) "4.prems" m by simp
  qed
  note E = this
  show ?case
  proof (cases "json_value n d s")
    case (Some u)
    obtain w p where u: "u = (w, p)" by fastforce
    show ?thesis
    proof (cases "skip_space p")
      case (Cons c q)
      have "c = CHR '','' \<Longrightarrow> json_elements n d q = json_elements k d q" using E[OF _ Cons] Some u by blast
      then show ?thesis unfolding m json_elements.simps e[symmetric] Some u prod.case option.case Cons list.case by simp
    qed (simp add: m Some u flip: e)
  qed (simp add: m flip: e)
next
  case (6 n d s)
  obtain k where m: "m = Suc k" using "6.prems" by (cases m) auto
  show ?case
  proof (cases "prefix [CHR 0x22] (skip_space s)")
    case True
    have e: "json_value n d (tl (skip_space r0)) = json_value k d (tl (skip_space r0))"
      "json_value n d (tl (skip_space r0)) = Some (w, p) \<Longrightarrow> skip_space p = c # q \<Longrightarrow> c = CHR '','' \<Longrightarrow>
         json_members n d q = json_members k d q"
      if r: "string_value (tl (skip_space s)) = Some (x, r0)" "prefix '':'' (skip_space r0)" for x r0 w p c q
    proof -
      have a: "Suc (length r0) < length s" "length (tl (skip_space r0)) < length s"
        using string_value_shorter[OF r(1)] skip_space_le[of s] skip_space_le[of r0] by simp_all
      then show "json_value n d (tl (skip_space r0)) = json_value k d (tl (skip_space r0))"
        using "6.IH"(1)[OF _ r(1) refl] True r(2) "6.prems" m by simp
      assume q: "json_value n d (tl (skip_space r0)) = Some (w, p)" "skip_space p = c # q" "c = CHR '',''"
      then have "length q < length s" using json_shorter(1)[OF q(1)] skip_space_le[of p] a by simp
      then show "json_members n d q = json_members k d q"
        using "6.IH"(2)[OF _ r(1) refl _ q(1) refl q(2)] True r(2) q(3) "6.prems" m by simp
    qed
    note E = this
    show ?thesis
    proof (cases "string_value (tl (skip_space s))")
      case None
      then show ?thesis by (simp add: m)
    next
      case (Some u)
      obtain x r0 where r0: "string_value (tl (skip_space s)) = Some (x, r0)" using Some by (cases u) auto
      show ?thesis
      proof (cases "prefix '':'' (skip_space r0)")
        case P: True
        note e = E(1)[OF r0 P]
        show ?thesis
        proof (cases "json_value n d (tl (skip_space r0))")
          case (Some v)
          obtain w p where v: "json_value n d (tl (skip_space r0)) = Some (w, p)" using Some by (cases v) auto
          show ?thesis
          proof (cases "skip_space p")
            case (Cons c q)
            have "c = CHR '','' \<Longrightarrow> json_members n d q = json_members k d q" using E(2)[OF r0 P v Cons] .
            then show ?thesis unfolding m json_members.simps e[symmetric] r0 v prod.case option.case Cons list.case
              by simp
          qed (simp add: m v r0 flip: e)
        qed (simp add: m r0 flip: e)
      qed (simp add: m r0)
    qed
  qed (simp add: m)
qed simp_all

section \<open>Writing values\<close>

definition quote :: "string \<Rightarrow> string" where
  "quote s = CHR 0x22 # quote_body s @ [CHR 0x22]"

text \<open>\<open>json.Marshal\<close> of a value; a number is written as its literal.\<close>

fun json_text :: "json \<Rightarrow> string" where
  "json_text JNull = ''null''"
| "json_text (JBool b) = (if b then ''true'' else ''false'')"
| "json_text (JString s) = quote s"
| "json_text (JNumber t) = t"
| "json_text (JArray vs) = ''['' @ join_with CHR '','' (map json_text vs) @ '']''"
| "json_text (JObject kvs) =
     ''{'' @ join_with CHR '','' (map (\<lambda>(k, v). quote k @ '':'' @ json_text v) kvs) @ ''}''"

text \<open>What a reader gets back: every string with valid UTF-8.\<close>

fun valid_json :: "json \<Rightarrow> json" where
  "valid_json JNull = JNull"
| "valid_json (JBool b) = JBool b"
| "valid_json (JString s) = JString (to_valid s)"
| "valid_json (JNumber t) = JNumber t"
| "valid_json (JArray vs) = JArray (map valid_json vs)"
| "valid_json (JObject kvs) = JObject (map (\<lambda>(k, v). (to_valid k, valid_json v)) kvs)"

text \<open>Values without numbers, nested at most so deep.\<close>

fun shallow :: "nat \<Rightarrow> json \<Rightarrow> bool" where
  "shallow d (JArray vs) = (0 < d \<and> list_all (shallow (d - 1)) vs)"
| "shallow d (JObject kvs) = (0 < d \<and> list_all (\<lambda>(k, v). shallow (d - 1) v) kvs)"
| "shallow d (JNumber t) = False"
| "shallow d _ = True"

lemma skip_space_plain [simp]: "\<not> json_space c \<Longrightarrow> skip_space (c # s) = c # s"
  by (simp add: skip_space_def)

lemma plain_chars [simp]: "\<not> json_space CHR ''{''" "\<not> json_space CHR ''}''" "\<not> json_space CHR ''[''" "\<not> json_space CHR '']''"
  "\<not> json_space CHR 0x22" "\<not> json_space CHR '':''" "\<not> json_space CHR '',''" "\<not> json_space CHR ''n''"
  "\<not> json_space CHR ''t''" "\<not> json_space CHR ''f''"
  by (simp_all add: json_space_def)

lemma string_value_quote: "string_value (quote_body s @ CHR 0x22 # t) = Some (to_valid s, t)"
  by (simp add: string_value_def raw_string_quote unquote_quote)

lemma json_text_head:
  "shallow d j \<Longrightarrow> \<exists>c r. json_text j = c # r \<and> c \<in> set ''ntf{['' \<union> {CHR 0x22}"
  by (cases j) (auto simp: quote_def)

definition reads_back :: "json \<Rightarrow> bool" where
  "reads_back j \<longleftrightarrow> (\<forall>d n t. shallow d j \<longrightarrow> 2 * length (json_text j) < n \<longrightarrow>
     json_value n d (json_text j @ t) = Some (valid_json j, t))"

lemma reads_backD:
  "reads_back j \<Longrightarrow> shallow d j \<Longrightarrow> 2 * length (json_text j) < n \<Longrightarrow>
     json_value n d (json_text j @ t) = Some (valid_json j, t)"
  by (simp add: reads_back_def)

lemma json_elements_text:
  "vs \<noteq> [] \<Longrightarrow> list_all reads_back vs \<Longrightarrow> list_all (shallow d) vs \<Longrightarrow>
     Suc (2 * length (join_with CHR '','' (map json_text vs))) < n \<Longrightarrow>
     json_elements n d (join_with CHR '','' (map json_text vs) @ CHR '']'' # t) = Some (map valid_json vs, t)"
proof (induction vs arbitrary: n)
  case (Cons v vs)
  obtain m where n: "n = Suc m" using Cons.prems(4) by (cases n) auto
  show ?case
  proof (cases "vs = []")
    case True
    then show ?thesis using Cons.prems reads_backD[of v d m] by (simp add: n)
  next
    case False
    then have j: "join_with CHR '','' (map json_text (v # vs)) = json_text v @ CHR '','' # join_with CHR '','' (map json_text vs)"
      by (simp add: join_with_Cons)
    have "json_elements m d (join_with CHR '','' (map json_text vs) @ CHR '']'' # t) = Some (map valid_json vs, t)"
      using Cons.prems False j n by (intro Cons.IH) auto
    then show ?thesis unfolding j using Cons.prems reads_backD[of v d m] False j by (simp add: n)
  qed
qed simp

lemma json_members_text:
  "kvs \<noteq> [] \<Longrightarrow> list_all (reads_back \<circ> snd) kvs \<Longrightarrow> list_all (\<lambda>(k, v). shallow d v) kvs \<Longrightarrow>
     2 * length (join_with CHR '','' (map (\<lambda>(k, v). quote k @ '':'' @ json_text v) kvs)) < n \<Longrightarrow>
     json_members n d (join_with CHR '','' (map (\<lambda>(k, v). quote k @ '':'' @ json_text v) kvs) @ CHR ''}'' # t)
       = Some (map (\<lambda>(k, v). (to_valid k, valid_json v)) kvs, t)"
proof (induction kvs arbitrary: n)
  case (Cons kv kvs)
  obtain k v where kv: "kv = (k, v)" by fastforce
  obtain m where n: "n = Suc m" using Cons.prems(4) by (cases n) auto
  show ?case
  proof (cases "kvs = []")
    case True
    then show ?thesis using Cons.prems reads_backD[of v d m] by (simp add: n kv quote_def string_value_quote)
  next
    case False
    let ?J = "join_with CHR '','' (map (\<lambda>(k, v). quote k @ '':'' @ json_text v) kvs)"
    have j: "join_with CHR '','' (map (\<lambda>(k, v). quote k @ '':'' @ json_text v) (kv # kvs))
        = quote k @ '':'' @ json_text v @ CHR '','' # ?J"
      using False by (simp add: join_with_Cons kv)
    have "json_members m d (?J @ CHR ''}'' # t) = Some (map (\<lambda>(k, v). (to_valid k, valid_json v)) kvs, t)"
      using Cons.prems False j n by (intro Cons.IH) auto
    then show ?thesis unfolding j using Cons.prems reads_backD[of v d m] False j
      by (simp add: n kv quote_def string_value_quote)
  qed
qed simp

lemma json_reads_back: "reads_back j"
proof (induction j)
  case (JArray vs)
  show ?case unfolding reads_back_def
  proof (intro allI impI)
    fix d n t assume s: "shallow d (JArray vs)" and l: "2 * length (json_text (JArray vs)) < n"
    then obtain m where n: "n = Suc m" by (cases n) auto
    show "json_value n d (json_text (JArray vs) @ t) = Some (valid_json (JArray vs), t)"
    proof (cases vs)
      case (Cons v us)
      obtain c r where h: "json_text v = c # r" "c \<in> set ''ntf{['' \<union> {CHR 0x22}"
        using json_text_head[of "d - 1" v] s Cons by auto
      then have "\<not> prefix '']'' (skip_space (join_with CHR '','' (map json_text vs) @ CHR '']'' # t))"
        using Cons by (cases us) auto
      moreover have "json_elements m (d - 1) (join_with CHR '','' (map json_text vs) @ CHR '']'' # t) = Some (map valid_json vs, t)"
        using JArray s l Cons n by (intro json_elements_text) (auto simp: list_all_iff)
      ultimately show ?thesis using s by (simp add: n)
    qed (use s in \<open>simp add: n\<close>)
  qed
next
  case (JObject kvs)
  show ?case unfolding reads_back_def
  proof (intro allI impI)
    fix d n t assume s: "shallow d (JObject kvs)" and l: "2 * length (json_text (JObject kvs)) < n"
    then obtain m where n: "n = Suc m" by (cases n) auto
    let ?J = "join_with CHR '','' (map (\<lambda>(k, v). quote k @ '':'' @ json_text v) kvs)"
    show "json_value n d (json_text (JObject kvs) @ t) = Some (valid_json (JObject kvs), t)"
    proof (cases kvs)
      case (Cons kv us)
      have R: "list_all (reads_back \<circ> snd) kvs" using JObject by (fastforce simp: list_all_iff)
      have "\<not> prefix ''}'' (skip_space (?J @ CHR ''}'' # t))"
        using Cons by (cases us; cases kv) (auto simp: quote_def)
      moreover have "json_members m (d - 1) (?J @ CHR ''}'' # t) = Some (map (\<lambda>(k, v). (to_valid k, valid_json v)) kvs, t)"
        using R s l Cons n by (intro json_members_text) (auto simp: list_all_iff)
      ultimately show ?thesis using s by (simp add: n)
    qed (use s in \<open>simp add: n\<close>)
  qed
next
  case (JString s)
  show ?case unfolding reads_back_def
  proof (intro allI impI)
    fix d n t assume "2 * length (json_text (JString s)) < n"
    then obtain m where "n = Suc m" by (cases n) auto
    then show "json_value n d (json_text (JString s) @ t) = Some (valid_json (JString s), t)"
      by (simp add: quote_def string_value_quote)
  qed
next
  case (JBool b)
  show ?case unfolding reads_back_def
  proof (intro allI impI)
    fix d n t assume "2 * length (json_text (JBool b)) < n"
    then obtain m where "n = Suc m" by (cases n) auto
    then show "json_value n d (json_text (JBool b) @ t) = Some (valid_json (JBool b), t)" by simp
  qed
next
  case JNull
  show ?case unfolding reads_back_def
  proof (intro allI impI)
    fix d n t assume "2 * length (json_text JNull) < n"
    then obtain m where "n = Suc m" by (cases n) auto
    then show "json_value n d (json_text JNull @ t) = Some (valid_json JNull, t)" by simp
  qed
qed (simp add: reads_back_def)

lemma shallow_mono: "shallow d j \<Longrightarrow> d \<le> e \<Longrightarrow> shallow e j"
proof (induction j arbitrary: d e)
  case (JArray vs)
  then show ?case by (auto simp: list_all_iff intro: diff_le_mono)
next
  case (JObject kvs)
  have "shallow (e - 1) v" if m: "(k, v) \<in> set kvs" for k v
  proof -
    have "shallow (d - 1) v" "d - 1 \<le> e - 1" using JObject.prems m by (auto simp: list_all_iff)
    then show ?thesis using JObject.IH[OF m] by simp
  qed
  then show ?case using JObject.prems by (auto simp: list_all_iff)
qed auto

lemma first_value_text:
  assumes "shallow d j" "d \<le> maxNestingDepth" "length (json_text j) \<le> limit"
  shows "first_value limit (json_text j) = Some (valid_json j)"
proof -
  have "json_value (Suc (2 * length (json_text j))) maxNestingDepth (json_text j @ []) = Some (valid_json j, [])"
    using assms shallow_mono by (intro reads_backD[OF json_reads_back]) auto
  then show ?thesis using assms(3) by (simp add: first_value_def Let_def)
qed

end
