(* ===== verification/Domain.thy ===== *)
theory Domain
  imports Apperr
begin

text \<open>
  The package \<open>domain\<close> (server/internal/core/domain) and the Go values it uses. A
  \<open>time.Time\<close> is the number of nanoseconds since Go's zero time, 1 January of year 1 UTC, as an
  integer; the locations and the monotonic reading that Go keeps beside it play no role here. A
  \<open>time.Duration\<close> is a number of nanoseconds.
\<close>

section \<open>Time\<close>

type_synonym time = int
type_synonym duration = int

definition Second :: duration where "Second = 1000000000"
definition Minute :: duration where "Minute = 60 * Second"
definition Hour :: duration where "Hour = 60 * Minute"

definition zero_time :: time where "zero_time = 0"

definition IsZero :: "time \<Rightarrow> bool" where
  "IsZero t \<longleftrightarrow> t = zero_time"

definition Before :: "time \<Rightarrow> time \<Rightarrow> bool" where
  "Before t u \<longleftrightarrow> t < u"

definition Add :: "time \<Rightarrow> duration \<Rightarrow> time" where
  "Add t d = t + d"

text \<open>\<open>Time.Sub\<close> saturates at the least and the greatest 64-bit duration.\<close>

definition Sub :: "time \<Rightarrow> time \<Rightarrow> duration" where
  "Sub t u = max (- (2 ^ 63)) (min (2 ^ 63 - 1) (t - u))"

text \<open>\<open>Time.Truncate\<close> rounds down to a multiple of the duration since the zero time.\<close>

definition Truncate :: "time \<Rightarrow> duration \<Rightarrow> time" where
  "Truncate t d = (if d \<le> 0 then t else t - t mod d)"

text \<open>\<open>Time.Unix\<close>: whole seconds since 1970, which is 62135596800 seconds after the zero time.\<close>

definition Unix :: "time \<Rightarrow> int" where
  "Unix t = t div Second - 62135596800"

text \<open>Integer division of Go, which rounds towards zero.\<close>

definition Quo :: "int \<Rightarrow> int \<Rightarrow> int" where
  "Quo a b = sgn a * sgn b * (\<bar>a\<bar> div \<bar>b\<bar>)"

lemma Quo_nonneg [simp]: "0 \<le> a \<Longrightarrow> 0 < b \<Longrightarrow> Quo a b = a div b"
  by (cases "a = 0") (auto simp: Quo_def)

lemma Sub_ge_iff: "0 < d \<Longrightarrow> d < 2 ^ 63 \<Longrightarrow> d \<le> Sub t u \<longleftrightarrow> d \<le> t - u"
  by (auto simp: Sub_def)

section \<open>Users, tokens, agents and events\<close>

definition ProviderGoogle :: string where "ProviderGoogle = ''google''"
definition ProviderApple :: string where "ProviderApple = ''apple''"
definition ProviderMicrosoft :: string where "ProviderMicrosoft = ''microsoft''"

definition Providers :: "string list" where
  "Providers = [ProviderGoogle, ProviderApple, ProviderMicrosoft]"

definition ValidProvider :: "string \<Rightarrow> bool" where
  "ValidProvider provider \<longleftrightarrow> List.member Providers provider"

record User =
  User_ID :: string
  User_Provider :: string
  User_Subject :: string
  User_Email :: string
  User_CreatedAt :: time

record UserToken =
  UserToken_TokenHash :: string
  UserToken_UserID :: string
  UserToken_ExpiresAt :: time
  UserToken_CreatedAt :: time

definition Expired :: "UserToken \<Rightarrow> time \<Rightarrow> bool" where
  "Expired t at \<longleftrightarrow> \<not> Before at (UserToken_ExpiresAt t)"

record Identity =
  Identity_Provider :: string
  Identity_Subject :: string
  Identity_Email :: string

record Agent =
  Agent_ID :: string
  Agent_UserID :: string
  Agent_Name :: string
  Agent_KeyHash :: string
  Agent_CreatedAt :: time
  Agent_RevokedAt :: time
  Agent_LastUsedAt :: time

definition Revoked :: "Agent \<Rightarrow> bool" where
  "Revoked a \<longleftrightarrow> \<not> IsZero (Agent_RevokedAt a)"

text \<open>\<open>Validate\<close> returns \<open>nil\<close> or an error: \<open>None\<close> or \<open>Some\<close> here.\<close>

definition Agent_Validate :: "Agent \<Rightarrow> err option" where
  "Agent_Validate a =
     (if TrimSpace (Agent_Name a) = '''' then Some (Sentinel ErrAgentNameRequired) else None)"

record Event =
  Event_ID :: string
  Event_UserID :: string
  Event_Name :: string
  Event_Description :: string
  Event_CreatedAt :: time
  Event_UpdatedAt :: time

definition Event_Validate :: "Event \<Rightarrow> err option" where
  "Event_Validate e =
     (if TrimSpace (Event_Name e) = '''' then Some (Sentinel ErrNameRequired) else None)"

lemma Expired_iff: "Expired t at \<longleftrightarrow> UserToken_ExpiresAt t \<le> at"
  by (auto simp: Expired_def Before_def)

lemma ValidProvider_iff: "ValidProvider p \<longleftrightarrow> p \<in> {''google'', ''apple'', ''microsoft''}"
  by (auto simp: ValidProvider_def Providers_def ProviderGoogle_def ProviderApple_def ProviderMicrosoft_def)

end
