(* ===== verification/RateLimiter.thy ===== *)
theory RateLimiter
  imports Domain
begin

text \<open>
  The in-memory rate limiter (server/internal/adapters/memory/rate_limiter.go): fixed windows, one
  counter per action, key and window, at most \<open>maxTrackedBuckets\<close> counters. The map of counters
  is an association list with distinct keys. Go iterates over a map in an unspecified order, so
  the two loops take the order of the keys from a parameter \<open>ord\<close>; the lemmas that need it
  assume \<open>map_order ord\<close>, that an iteration meets each key once.
\<close>

section \<open>State and operations\<close>

record Limit =
  Max :: int
  Window :: duration

record bucketKey =
  bk_action :: string
  bk_key :: string
  bk_windowStart :: int

type_synonym limits = "string \<rightharpoonup> Limit"
type_synonym counts = "(bucketKey \<times> int) list"
type_synonym map_order = "bucketKey list \<Rightarrow> bucketKey list"

definition map_order :: "map_order \<Rightarrow> bool" where
  "map_order ord \<longleftrightarrow> (\<forall>ks. mset (ord ks) = mset ks)"

definition maxTrackedBuckets :: nat where "maxTrackedBuckets = 4096"

definition count_of :: "counts \<Rightarrow> bucketKey \<Rightarrow> int" where
  "count_of counts b = (case map_of counts b of None \<Rightarrow> 0 | Some n \<Rightarrow> n)"

text \<open>A bucket is dropped by \<open>prune\<close> when its action has no limit or its window is over.\<close>

definition stale :: "limits \<Rightarrow> time \<Rightarrow> bucketKey \<Rightarrow> bool" where
  "stale limits now bucket =
     (case limits (bk_action bucket) of
        None \<Rightarrow> True
      | Some limit \<Rightarrow> bk_windowStart bucket + Quo (Window limit) Second \<le> Unix now)"

fun prune_loop :: "limits \<Rightarrow> time \<Rightarrow> bucketKey list \<Rightarrow> counts \<Rightarrow> counts" where
  "prune_loop limits now [] counts = counts"
| "prune_loop limits now (bucket # bs) counts =
     prune_loop limits now bs (if stale limits now bucket then AList.delete bucket counts else counts)"

definition prune :: "limits \<Rightarrow> map_order \<Rightarrow> time \<Rightarrow> counts \<Rightarrow> counts" where
  "prune limits ord now counts = prune_loop limits now (ord (map fst counts)) counts"

fun evict_loop :: "bucketKey list \<Rightarrow> counts \<Rightarrow> counts" where
  "evict_loop [] counts = counts"
| "evict_loop (bucket # bs) counts =
     (if length counts < maxTrackedBuckets then counts else evict_loop bs (AList.delete bucket counts))"

definition evict :: "map_order \<Rightarrow> counts \<Rightarrow> counts" where
  "evict ord counts = evict_loop (ord (map fst counts)) counts"

definition bucket_of :: "Limit \<Rightarrow> time \<Rightarrow> string \<Rightarrow> string \<Rightarrow> bucketKey" where
  "bucket_of limit now key action =
     \<lparr>bk_action = action, bk_key = key, bk_windowStart = Unix (Truncate now (Window limit))\<rparr>"

definition make_room :: "limits \<Rightarrow> map_order \<Rightarrow> time \<Rightarrow> counts \<Rightarrow> counts" where
  "make_room limits ord now counts =
     (if maxTrackedBuckets \<le> length counts then evict ord (prune limits ord now counts) else counts)"

definition Allow ::
  "limits \<Rightarrow> map_order \<Rightarrow> time \<Rightarrow> string \<Rightarrow> string \<Rightarrow> counts \<Rightarrow> bool \<times> counts" where
  "Allow limits ord now key action counts =
     (case limits action of
        None \<Rightarrow> (True, counts)
      | Some limit \<Rightarrow>
          (let bucket = bucket_of limit now key action;
               kept = make_room limits ord now counts;
               counts' = AList.update bucket (count_of kept bucket + 1) kept
           in (count_of counts' bucket \<le> Max limit, counts')))"

section \<open>What the loops do to the counters\<close>

lemma distinct_keys_delete [simp]: "distinct (map fst c) \<Longrightarrow> distinct (map fst (AList.delete b c))"
  by (rule distinct_delete)

lemma prune_loop_eq:
  "prune_loop limits now bs c = filter (\<lambda>(b, n). \<not> (b \<in> set bs \<and> stale limits now b)) c"
proof (induction bs arbitrary: c)
  case Nil
  then show ?case by (induction c) auto
next
  case (Cons b bs)
  show ?case
    by (simp add: Cons.IH AList.delete_eq case_prod_unfold) (auto intro!: filter_cong)
qed

text \<open>Pruning does not depend on the iteration order: it keeps exactly the live buckets.\<close>

lemma prune_eq:
  assumes "map_order ord"
  shows "prune limits ord now c = filter (\<lambda>(b, n). \<not> stale limits now b) c"
proof -
  have "set (ord (map fst c)) = fst ` set c"
    using assms unfolding map_order_def by (metis set_map set_mset_mset)
  then show ?thesis by (force simp: prune_def prune_loop_eq intro!: filter_cong)
qed

lemma evict_loop_sub: "\<exists>P. evict_loop bs c = filter P c"
proof (induction bs arbitrary: c)
  case Nil
  show ?case by (intro exI[of _ "\<lambda>_. True"]) simp
next
  case (Cons b bs)
  obtain P where "evict_loop bs (AList.delete b c) = filter P (AList.delete b c)"
    using Cons.IH by blast
  then have "evict_loop bs (AList.delete b c) = filter (\<lambda>x. P x \<and> b \<noteq> fst x) c"
    by (simp add: AList.delete_eq conj_commute case_prod_unfold)
  moreover have "c = filter (\<lambda>_. True) c" by simp
  ultimately show ?case by (metis evict_loop.simps(2))
qed

lemma length_delete_key:
  "distinct (map fst c) \<Longrightarrow> b \<in> fst ` set c \<Longrightarrow> Suc (length (AList.delete b c)) = length c"
proof (induction c)
  case Nil
  then show ?case by simp
next
  case (Cons x c)
  then show ?case by (cases "b = fst x") auto
qed

lemma evict_loop_length:
  assumes "distinct (map fst c)" "distinct bs" "set bs \<subseteq> fst ` set c"
  shows "length (evict_loop bs c) < maxTrackedBuckets \<or> length (evict_loop bs c) = length c - length bs"
  using assms
proof (induction bs arbitrary: c)
  case Nil
  then show ?case by simp
next
  case (Cons b bs)
  have "set bs \<subseteq> fst ` set (AList.delete b c)"
  proof -
    have "fst ` set (AList.delete b c) = fst ` set c - {b}"
      by (metis delete_keys set_map set_removeAll)
    then show ?thesis using Cons.prems(2,3) by auto
  qed
  moreover have "Suc (length (AList.delete b c)) = length c"
    using Cons.prems by (intro length_delete_key) auto
  ultimately show ?case using Cons.IH[of "AList.delete b c"] Cons.prems by auto
qed

lemma evict_length:
  assumes "map_order ord" "distinct (map fst c)"
  shows "length (evict ord c) < maxTrackedBuckets"
proof -
  have m: "mset (ord (map fst c)) = mset (map fst c)" using assms(1) by (simp add: map_order_def)
  then have "set (ord (map fst c)) = fst ` set c" "length (ord (map fst c)) = length c"
    "distinct (ord (map fst c))"
    using assms(2) by (metis set_map set_mset_mset, metis length_map size_mset,
        metis mset_eq_imp_distinct_iff)
  then show ?thesis
    using evict_loop_length[of c "ord (map fst c)"] assms(2)
    by (auto simp: evict_def maxTrackedBuckets_def)
qed

lemma evict_below: "length c < maxTrackedBuckets \<Longrightarrow> evict ord c = c"
  unfolding evict_def by (cases "ord (map fst c)") auto

section \<open>The invariant of the limiter\<close>

definition limiter_inv :: "counts \<Rightarrow> bool" where
  "limiter_inv c \<longleftrightarrow>
     distinct (map fst c) \<and> length c \<le> maxTrackedBuckets \<and> list_all (\<lambda>(b, n). 1 \<le> n) c"

lemma make_room_sub: "map_order ord \<Longrightarrow> \<exists>P. make_room limits ord now c = filter P c"
proof -
  assume o: "map_order ord"
  obtain P where "evict ord (prune limits ord now c) = filter P (prune limits ord now c)"
    unfolding evict_def using evict_loop_sub by blast
  then have "evict ord (prune limits ord now c) = filter (\<lambda>x. (\<lambda>(b, n). \<not> stale limits now b) x \<and> P x) c"
    by (simp add: prune_eq[OF o])
  moreover have "c = filter (\<lambda>_. True) c" by simp
  ultimately show ?thesis unfolding make_room_def by metis
qed

lemma make_room_length:
  assumes "map_order ord" "distinct (map fst c)"
  shows "length (make_room limits ord now c) < maxTrackedBuckets"
  using evict_length[OF assms(1), of "prune limits ord now c"] assms
  by (auto simp: make_room_def prune_eq distinct_map_filter_key)

lemma length_update_le: "length (AList.update k v c) \<le> Suc (length c)"
  by (induction c) auto

lemma count_of_nonneg: "limiter_inv c \<Longrightarrow> 0 \<le> count_of c b"
  by (force simp: limiter_inv_def count_of_def list_all_iff dest: map_of_SomeD split: option.splits)

lemma list_all_update: "list_all P c \<Longrightarrow> P (k, v) \<Longrightarrow> list_all P (AList.update k v c)"
  by (induction c) auto

lemma limiter_inv_filter: "limiter_inv c \<Longrightarrow> limiter_inv (filter P c)"
  unfolding limiter_inv_def
  by (auto simp: distinct_map_filter_key list_all_iff intro: order.trans[OF length_filter_le])

lemma Allow_inv:
  assumes "limiter_inv c" "map_order ord" "Allow limits ord now key action c = (r, c')"
  shows "limiter_inv c'"
proof (cases "limits action")
  case None
  with assms show ?thesis by (simp add: Allow_def)
next
  case (Some limit)
  define kept where "kept = make_room limits ord now c"
  define b where "b = bucket_of limit now key action"
  have kept: "limiter_inv kept"
    using make_room_sub[OF assms(2)] limiter_inv_filter[OF assms(1)] unfolding kept_def by metis
  have "length kept < maxTrackedBuckets"
    using make_room_length assms(1,2) by (auto simp: kept_def limiter_inv_def)
  then have "length (AList.update b (count_of kept b + 1) kept) \<le> maxTrackedBuckets"
    by (meson Suc_leI le_trans length_update_le)
  moreover have "c' = AList.update b (count_of kept b + 1) kept"
    using assms(3) Some by (simp add: Allow_def Let_def kept_def b_def)
  ultimately show ?thesis
    using kept count_of_nonneg[OF kept, of b]
    by (simp add: limiter_inv_def distinct_update list_all_update)
qed

section \<open>The limit is respected\<close>

text \<open>A sequence of calls, each with its iteration order, its clock reading, key and action.\<close>

type_synonym call = "map_order \<times> time \<times> string \<times> string"

definition call_time :: "call \<Rightarrow> time" where
  "call_time = (\<lambda>(ord, now, key, action). now)"

definition in_bucket :: "limits \<Rightarrow> bucketKey \<Rightarrow> call \<Rightarrow> bool" where
  "in_bucket limits b = (\<lambda>(ord, now, key, action).
     case limits action of None \<Rightarrow> False | Some l \<Rightarrow> bucket_of l now key action = b)"

text \<open>How many of the calls that fall into bucket \<open>b\<close> are allowed.\<close>

fun allowed_calls :: "limits \<Rightarrow> bucketKey \<Rightarrow> counts \<Rightarrow> call list \<Rightarrow> nat" where
  "allowed_calls limits b c [] = 0"
| "allowed_calls limits b c ((ord, now, key, action) # cs) =
     (case Allow limits ord now key action c of (r, c') \<Rightarrow>
        (if r \<and> in_bucket limits b (ord, now, key, action) then 1 else 0) + allowed_calls limits b c' cs)"

text \<open>No call of the sequence has to evict a live bucket: pruning always makes enough room.\<close>

fun no_eviction :: "limits \<Rightarrow> counts \<Rightarrow> call list \<Rightarrow> bool" where
  "no_eviction limits c [] \<longleftrightarrow> True"
| "no_eviction limits c ((ord, now, key, action) # cs) \<longleftrightarrow>
     (length c < maxTrackedBuckets \<or> length (prune limits ord now c) < maxTrackedBuckets)
     \<and> no_eviction limits (snd (Allow limits ord now key action c)) cs"

lemma count_of_update [simp]:
  "count_of (AList.update b v c) b' = (if b = b' then v else count_of c b')"
  by (simp add: count_of_def update_conv')

lemma map_of_filter_key: "Q b \<Longrightarrow> map_of (filter (\<lambda>(k, n). Q k) c) b = map_of c b"
  by (induction c) auto

lemma count_of_prune:
  "map_order ord \<Longrightarrow> \<not> stale limits now b \<Longrightarrow> count_of (prune limits ord now c) b = count_of c b"
  by (simp add: count_of_def prune_eq map_of_filter_key[where Q = "\<lambda>b. \<not> stale limits now b"])

lemma count_of_make_room:
  assumes "map_order ord" "\<not> stale limits now b"
    and "length c < maxTrackedBuckets \<or> length (prune limits ord now c) < maxTrackedBuckets"
  shows "count_of (make_room limits ord now c) b = count_of c b"
  using assms by (auto simp: make_room_def evict_below count_of_prune)

lemma Truncate_bounds: "0 < d \<Longrightarrow> Truncate t d \<le> t \<and> t < Truncate t d + d \<and> d dvd Truncate t d"
  by (auto simp: Truncate_def)

text \<open>A bucket becomes stale only when its window is over, so never while a call falls into it.\<close>

lemma not_stale_while_used:
  assumes "limits (bk_action b) = Some l" "0 < Window l" "Second dvd Window l"
    and "in_bucket limits b (ord, t, key, action)" "now \<le> t"
  shows "\<not> stale limits now b"
proof -
  have act: "action = bk_action b" "bk_windowStart b = Unix (Truncate t (Window l))"
    using assms(1,4) by (auto simp: in_bucket_def bucket_of_def split: option.splits)
  obtain k where k: "Window l = Second * k" using assms(3) by (auto elim: dvdE)
  obtain m where m: "Truncate t (Window l) = Window l * m"
    using Truncate_bounds[OF assms(2), of t] by (auto elim: dvdE)
  have S: "0 < Second" by (simp add: Second_def)
  have "t < Second * (k * m + k)"
    using Truncate_bounds[OF assms(2), of t] m k by (simp add: algebra_simps)
  then have "t div Second < k * m + k"
    unfolding Second_def by (simp add: algebra_simps)
  moreover have "now div Second \<le> t div Second" using assms(5) S by (simp add: zdiv_mono1)
  moreover have "Quo (Window l) Second = k" using assms(2) k S by simp
  moreover have "Unix (Truncate t (Window l)) = k * m - 62135596800"
    using m k S by (simp add: Unix_def mult.assoc)
  ultimately show ?thesis by (simp add: stale_def assms(1) act(2)) (simp add: Unix_def)
qed

lemma allowed_calls_none: "list_all (\<lambda>x. \<not> in_bucket limits b x) cs \<Longrightarrow> allowed_calls limits b c cs = 0"
  by (induction cs arbitrary: c) (auto split: prod.splits)

lemma allowed_calls_bound:
  assumes "limits (bk_action b) = Some l" "0 < Window l" "Second dvd Window l"
    and "list_all (\<lambda>(ord, now, key, action). map_order ord) cs"
    and "sorted (map call_time cs)" and "no_eviction limits c cs"
  shows "allowed_calls limits b c cs \<le> nat (Max l - count_of c b)"
  using assms(4-)
proof (induction cs arbitrary: c)
  case Nil
  then show ?case by simp
next
  case (Cons x cs)
  obtain ord now key action where x: "x = (ord, now, key, action)" by (cases x) auto
  obtain r c' where A: "Allow limits ord now key action c = (r, c')" by fastforce
  have IH: "allowed_calls limits b c' cs \<le> nat (Max l - count_of c' b)"
    using Cons.IH[of c'] Cons.prems A x by simp
  have o: "map_order ord" and room:
    "length c < maxTrackedBuckets \<or> length (prune limits ord now c) < maxTrackedBuckets"
    using Cons.prems x by auto
  have later: "now \<le> call_time y" if "y \<in> set cs" for y
    using Cons.prems(2) that by (auto simp: x call_time_def)
  show ?case
  proof (cases "stale limits now b")
    case True
    have "\<not> in_bucket limits b y" if "y \<in> set (x # cs)" for y
      using not_stale_while_used[where limits = limits and b = b, OF assms(1-3)] later[of y] True that
      by (cases y) (auto simp: x call_time_def)
    then have "allowed_calls limits b c (x # cs) = 0"
      by (intro allowed_calls_none) (auto simp: list_all_iff)
    then show ?thesis by simp
  next
    case False
    note kept = count_of_make_room[OF o False room]
    show ?thesis
    proof (cases "in_bucket limits b x")
      case True
      then have "limits action = Some l" "bucket_of l now key action = b"
        using assms(1) by (auto simp: x in_bucket_def bucket_of_def split: option.splits)
      then have "c' = AList.update b (count_of c b + 1) (make_room limits ord now c)"
        "r \<longleftrightarrow> count_of c b + 1 \<le> Max l"
        using A kept by (auto simp: Allow_def Let_def)
      then show ?thesis using IH A True by (auto simp: x)
    next
      case False
      then have "count_of c' b = count_of c b"
        using A kept by (auto simp: x in_bucket_def Allow_def Let_def split: option.splits)
      then show ?thesis using IH A False by (auto simp: x)
    qed
  qed
qed

end
