(* ===== verification/World.thy ===== *)
theory World
  imports RateLimiter
begin

text \<open>
  The world that a request acts on: the four tables of the database, the counters of the rate
  limiter and the number of effects performed so far. What the program does not determine is in
  the environment \<open>Env\<close>, a parameter of everything that follows: the effect with number
  \<open>i\<close> reads the clock as \<open>now_at i\<close>, draws the identifier \<open>uuid_at i\<close> or the random
  bytes \<open>rand_at i\<close>, iterates over a map in the order \<open>order_at i\<close>, and fails with the
  driver's error \<open>fault_at i\<close> where that is not \<open>None\<close>. Theorems hold for every
  environment unless they say otherwise.

  The rows are the structs of server/internal/adapters/postgres/gen/models.go. A
  \<open>pgtype.Timestamptz\<close> is a \<open>time option\<close>: \<open>None\<close> is \<open>Valid = false\<close>, SQL's NULL.
\<close>

section \<open>Rows, world and environment\<close>

type_synonym timestamptz = "time option"

record gen_Agent =
  ga_ID :: string
  ga_UserID :: string
  ga_Name :: string
  ga_KeyHash :: string
  ga_CreatedAt :: timestamptz
  ga_RevokedAt :: timestamptz
  ga_LastUsedAt :: timestamptz

record gen_Event =
  ge_ID :: string
  ge_UserID :: string
  ge_Name :: string
  ge_Description :: string
  ge_CreatedAt :: timestamptz
  ge_UpdatedAt :: timestamptz

record gen_User =
  gu_ID :: string
  gu_Provider :: string
  gu_Subject :: string
  gu_Email :: string
  gu_CreatedAt :: timestamptz

record gen_UserToken =
  gt_TokenHash :: string
  gt_UserID :: string
  gt_ExpiresAt :: timestamptz
  gt_CreatedAt :: timestamptz

record world =
  users :: "gen_User list"
  user_tokens :: "gen_UserToken list"
  agents :: "gen_Agent list"
  events :: "gen_Event list"
  buckets :: counts
  ticks :: nat

text \<open>
  Two functions of the database are parameters as well: \<open>pg_uuid\<close> reads the text of a UUID
  (\<open>None\<close>: not a UUID, SQLSTATE 22P02) and gives its canonical text, \<open>pg_time\<close> is the
  rounding of a time stored as \<open>timestamptz\<close>, which keeps microseconds.
\<close>

record Env =
  now_at :: "nat \<Rightarrow> time"
  uuid_at :: "nat \<Rightarrow> string"
  rand_at :: "nat \<Rightarrow> err + byte list"
  order_at :: "nat \<Rightarrow> map_order"
  fault_at :: "nat \<Rightarrow> string option"
  pg_uuid :: "string \<Rightarrow> string option"
  pg_time :: "time \<Rightarrow> time"

text \<open>
  The documented behaviour of the parameters that theorems name as a hypothesis: canonical UUID
  texts are their own canonical text, new UUIDs are canonical, \<open>rand.Read\<close> fills the buffer,
  map iteration meets every key once, and rounding a time moves it back by less than a
  microsecond and has no effect the second time; the clock is past the first microsecond of Go's
  zero time.
\<close>

definition env_ok :: "Env \<Rightarrow> bool" where
  "env_ok E \<longleftrightarrow>
     (\<forall>s k. pg_uuid E s = Some k \<longrightarrow> pg_uuid E k = Some k)
   \<and> (\<forall>i. pg_uuid E (uuid_at E i) = Some (uuid_at E i))
   \<and> (\<forall>i bs. rand_at E i = Inr bs \<longrightarrow> length bs = 32)
   \<and> (\<forall>i. map_order (order_at E i))
   \<and> (\<forall>t. pg_time E (pg_time E t) = pg_time E t)
   \<and> (\<forall>t. pg_time E t \<le> t \<and> t < pg_time E t + 1000)
   \<and> (\<forall>i. 1000 \<le> now_at E i)"

text \<open>No statement fails and the random source works.\<close>

definition no_faults :: "Env \<Rightarrow> bool" where
  "no_faults E \<longleftrightarrow> (\<forall>i. fault_at E i = None) \<and> (\<forall>i. \<exists>bs. rand_at E i = Inr bs)"

section \<open>Effects outside the database\<close>

definition with_tick :: "(nat \<Rightarrow> world \<Rightarrow> 'a \<times> world) \<Rightarrow> world \<Rightarrow> 'a \<times> world" where
  "with_tick f w = f (ticks w) (w\<lparr>ticks := Suc (ticks w)\<rparr>)"

text \<open>\<open>time.Now().UTC()\<close>, \<open>uuid.NewString()\<close> and \<open>rand.Read\<close> into 32 bytes.\<close>

definition time_Now :: "Env \<Rightarrow> (world, time) prog" where
  "time_Now E = atomic (with_tick (\<lambda>i w. (now_at E i, w)))"

definition uuid_NewString :: "Env \<Rightarrow> (world, string) prog" where
  "uuid_NewString E = atomic (with_tick (\<lambda>i w. (uuid_at E i, w)))"

definition rand_Read :: "Env \<Rightarrow> (world, err + byte list) prog" where
  "rand_Read E = atomic (with_tick (\<lambda>i w. (rand_at E i, w)))"

text \<open>One call of the limiter, atomic under its mutex. The memory limiter never returns an error.\<close>

definition RateLimiter_Allow :: "Env \<Rightarrow> limits \<Rightarrow> string \<Rightarrow> string \<Rightarrow> (world, err + bool) prog" where
  "RateLimiter_Allow E limits key action =
     atomic (with_tick (\<lambda>i w.
       (case Allow limits (order_at E i) (now_at E i) key action (buckets w) of
          (r, c) \<Rightarrow> (Inr r, w\<lparr>buckets := c\<rparr>))))"

section \<open>Statements\<close>

text \<open>A statement fails with the driver's error and no effect, or does what its SQL says.\<close>

definition sql :: "Env \<Rightarrow> (world \<Rightarrow> (err + 'a) \<times> world) \<Rightarrow> world \<Rightarrow> (err + 'a) \<times> world" where
  "sql E f = with_tick (\<lambda>i w. (case fault_at E i of Some msg \<Rightarrow> (Inl (Plain msg), w) | None \<Rightarrow> f w))"

definition select :: "(world \<Rightarrow> err + 'a) \<Rightarrow> world \<Rightarrow> (err + 'a) \<times> world" where
  "select f w = (f w, w)"

lemma with_tick_select [run_simps]:
  "run (time_Now E) w = (now_at E (ticks w), w\<lparr>ticks := Suc (ticks w)\<rparr>)"
  "run (uuid_NewString E) w = (uuid_at E (ticks w), w\<lparr>ticks := Suc (ticks w)\<rparr>)"
  "run (rand_Read E) w = (rand_at E (ticks w), w\<lparr>ticks := Suc (ticks w)\<rparr>)"
  by (simp_all add: time_Now_def uuid_NewString_def rand_Read_def with_tick_def)

end
