(* ===== verification/Ports.thy ===== *)
theory Ports
  imports Domain
begin

text \<open>
  The interfaces of the package \<open>port\<close> (server/internal/core/port): a Go interface is a record
  of programs over the world. The use cases are defined on these records, as the Go services hold
  values of the interface types; the adapters provide them. The contract of an interface is a
  locale: what a client may rely on, stated on an abstract view of the world.
\<close>

section \<open>The interfaces\<close>

record 'w port_UserRepository =
  ur_UpsertByIdentity :: "string \<Rightarrow> string \<Rightarrow> string \<Rightarrow> ('w, err + User) prog"
  ur_Get :: "string \<Rightarrow> ('w, err + User) prog"

record 'w port_UserTokenRepository =
  tr_Create :: "UserToken \<Rightarrow> ('w, err + unit) prog"
  tr_GetByHash :: "string \<Rightarrow> ('w, err + UserToken) prog"
  tr_DeleteByHash :: "string \<Rightarrow> ('w, err + unit) prog"
  tr_DeleteExpired :: "('w, err + unit) prog"

record 'w port_AgentRepository =
  ar_CreateIfUnderLimit :: "Agent \<Rightarrow> int \<Rightarrow> ('w, err + bool) prog"
  ar_Get :: "string \<Rightarrow> ('w, err + Agent) prog"
  ar_GetByKeyHash :: "string \<Rightarrow> ('w, err + Agent) prog"
  ar_ListByUser :: "string \<Rightarrow> ('w, err + Agent list) prog"
  ar_Revoke :: "string \<Rightarrow> time \<Rightarrow> ('w, err + unit) prog"
  ar_TouchLastUsed :: "string \<Rightarrow> time \<Rightarrow> ('w, err + unit) prog"

record 'w port_EventRepository =
  er_Save :: "Event \<Rightarrow> ('w, err + Event) prog"
  er_Get :: "string \<Rightarrow> ('w, err + Event) prog"
  er_List :: "('w, err + Event list) prog"
  er_Update :: "Event \<Rightarrow> ('w, err + Event) prog"
  er_Delete :: "string \<Rightarrow> ('w, err + unit) prog"

type_synonym 'w port_RateLimiter = "string \<Rightarrow> string \<Rightarrow> ('w, err + bool) prog"

type_synonym 'w port_IdentityVerifier = "string \<Rightarrow> string \<Rightarrow> ('w, err + Identity) prog"

section \<open>Contracts\<close>

text \<open>
  An event repository, seen through \<open>lookup\<close>: the event that a text of an identifier denotes.
  Two texts can denote the same identifier (\<open>same\<close>), and what is read back of a saved event is
  \<open>store\<close> of it; \<open>up\<close> says that no statement fails for a reason of its own. Every operation keeps the invariant; one that fails changes no event; reading
  changes none; saving adds one event under a new identifier; updating replaces name, description
  and time of one event; deleting removes one.
\<close>

locale event_repository =
  fixes repo :: "'w port_EventRepository"
    and lookup :: "'w \<Rightarrow> string \<Rightarrow> Event option"
    and same :: "string \<Rightarrow> string \<Rightarrow> bool"
    and store :: "Event \<Rightarrow> Event"
    and inv :: "'w \<Rightarrow> bool"
    and up :: bool
  assumes lookup_same: "inv w \<Longrightarrow> same i j \<Longrightarrow> lookup w i = lookup w j"
    and lookup_id: "inv w \<Longrightarrow> lookup w i = Some e \<Longrightarrow> same i (Event_ID e)"
    and get_event: "inv w \<Longrightarrow> run (er_Get repo i) w = (r, w') \<Longrightarrow>
      inv w' \<and> lookup w' = lookup w
      \<and> (case r of Inr e \<Rightarrow> lookup w i = Some e
           | Inl x \<Rightarrow> (errors_Is x ErrEventNotFound \<longrightarrow> lookup w i = None)
               \<and> (up \<longrightarrow> errors_Is x ErrEventNotFound))"
    and save_event: "inv w \<Longrightarrow> run (er_Save repo e) w = (r, w') \<Longrightarrow>
      inv w' \<and> (case r of Inl x \<Rightarrow> lookup w' = lookup w
           | Inr e' \<Rightarrow> e' = e \<and> lookup w (Event_ID e) = None
               \<and> lookup w' = (\<lambda>j. if same j (Event_ID e) then Some (store e) else lookup w j))"
    and update_event: "inv w \<Longrightarrow> lookup w (Event_ID e) = Some old \<Longrightarrow>
      run (er_Update repo e) w = (r, w') \<Longrightarrow>
      inv w' \<and> (case r of Inl x \<Rightarrow> lookup w' = lookup w
           | Inr e' \<Rightarrow> e' = e
               \<and> lookup w' = (\<lambda>j. if same j (Event_ID e)
                    then Some (store (old\<lparr>Event_Name := Event_Name e,
                       Event_Description := Event_Description e, Event_UpdatedAt := Event_UpdatedAt e\<rparr>))
                    else lookup w j))"
    and delete_event: "inv w \<Longrightarrow> run (er_Delete repo i) w = (rd, w') \<Longrightarrow>
      inv w' \<and> (case rd of Inl x \<Rightarrow> lookup w' = lookup w \<and> (up \<longrightarrow> lookup w i = None)
           | Inr u \<Rightarrow> lookup w i \<noteq> None
               \<and> lookup w' = (\<lambda>j. if same j i then None else lookup w j))"

text \<open>
  A rate limiter as its clients see it: it answers or fails, and changes nothing that the client
  looks at (\<open>view\<close>).
\<close>

locale rate_limiter =
  fixes limiter :: "'w port_RateLimiter"
    and view :: "'w \<Rightarrow> 'v"
    and inv :: "'w \<Rightarrow> bool"
  assumes allow_frame: "inv w \<Longrightarrow> run (limiter key action) w = (r, w') \<Longrightarrow> inv w' \<and> view w' = view w"

text \<open>
  The repositories of users, user tokens and agents. Besides its own view each contract names what
  the repository leaves alone (\<open>rest\<close>); \<open>up\<close> says that no statement fails for a reason of
  its own, which makes the answers of the reads complete.
\<close>

locale user_repository =
  fixes users_repo :: "'w port_UserRepository"
    and ulook :: "'w \<Rightarrow> string \<Rightarrow> User option"
    and same :: "string \<Rightarrow> string \<Rightarrow> bool"
    and urest :: "'w \<Rightarrow> 'r"
    and inv :: "'w \<Rightarrow> bool"
    and up :: bool
  assumes u_same: "inv w \<Longrightarrow> same i j \<Longrightarrow> ulook w i = ulook w j"
    and u_id: "inv w \<Longrightarrow> ulook w i = Some u \<Longrightarrow> same i (User_ID u)"
    and get_user: "inv w \<Longrightarrow> run (ur_Get users_repo i) w = (r, w') \<Longrightarrow>
      inv w' \<and> ulook w' = ulook w \<and> urest w' = urest w
      \<and> (case r of Inr u \<Rightarrow> ulook w i = Some u
           | Inl x \<Rightarrow> (errors_Is x ErrUserNotFound \<longrightarrow> ulook w i = None)
               \<and> (up \<longrightarrow> errors_Is x ErrUserNotFound))"
    and upsert_user: "inv w \<Longrightarrow> run (ur_UpsertByIdentity users_repo p s m) w = (r, w') \<Longrightarrow>
      inv w' \<and> urest w' = urest w
      \<and> (case r of Inl x \<Rightarrow> ulook w' = ulook w
           | Inr u \<Rightarrow> User_Provider u = p \<and> User_Subject u = s \<and> User_Email u = m
               \<and> same (User_ID u) (User_ID u)
               \<and> ulook w' = (\<lambda>j. if same j (User_ID u) then Some u else ulook w j)
               \<and> (\<forall>i v. ulook w i = Some v \<longrightarrow>
                    (User_Provider v = p \<and> User_Subject v = s \<longleftrightarrow> same i (User_ID u))
                    \<and> (same i (User_ID u) \<longrightarrow> u = v\<lparr>User_Email := m\<rparr>)))"

text \<open>\<open>clock\<close> counts the effects; looking a token up is one of them.\<close>

locale token_repository =
  fixes tokens_repo :: "'w port_UserTokenRepository"
    and tlook :: "'w \<Rightarrow> string \<Rightarrow> UserToken option"
    and tstore :: "UserToken \<Rightarrow> UserToken"
    and clock :: "'w \<Rightarrow> nat"
    and trest :: "'w \<Rightarrow> 'r"
    and inv :: "'w \<Rightarrow> bool"
    and up :: bool
  assumes get_token: "inv w \<Longrightarrow> run (tr_GetByHash tokens_repo h) w = (r, w') \<Longrightarrow>
      inv w' \<and> tlook w' = tlook w \<and> trest w' = trest w \<and> clock w' = Suc (clock w)
      \<and> (case r of Inr t \<Rightarrow> tlook w h = Some t
           | Inl x \<Rightarrow> (errors_Is x ErrUserTokenNotFound \<longrightarrow> tlook w h = None)
               \<and> (up \<longrightarrow> errors_Is x ErrUserTokenNotFound))"
    and create_token: "inv w \<Longrightarrow> run (tr_Create tokens_repo t) w = (rc, w') \<Longrightarrow>
      inv w' \<and> trest w' = trest w
      \<and> (case rc of Inl x \<Rightarrow> tlook w' = tlook w
           | Inr _ \<Rightarrow> tlook w (UserToken_TokenHash t) = None
               \<and> tlook w' = (tlook w)(UserToken_TokenHash t \<mapsto> tstore t))"
    and delete_token: "inv w \<Longrightarrow> run (tr_DeleteByHash tokens_repo h) w = (rc, w') \<Longrightarrow>
      inv w' \<and> trest w' = trest w
      \<and> (case rc of Inl x \<Rightarrow> tlook w' = tlook w \<and> \<not> up | Inr _ \<Rightarrow> tlook w' = (tlook w)(h := None))"

locale agent_repository =
  fixes agents_repo :: "'w port_AgentRepository"
    and alook :: "'w \<Rightarrow> string \<Rightarrow> Agent option"
    and klook :: "'w \<Rightarrow> string \<Rightarrow> Agent option"
    and same :: "string \<Rightarrow> string \<Rightarrow> bool"
    and astore :: "Agent \<Rightarrow> Agent"
    and stamp :: "time \<Rightarrow> time"
    and arest :: "'w \<Rightarrow> 'r"
    and inv :: "'w \<Rightarrow> bool"
    and up :: bool
  assumes a_same: "inv w \<Longrightarrow> same i j \<Longrightarrow> alook w i = alook w j"
    and a_id: "inv w \<Longrightarrow> alook w i = Some a \<Longrightarrow> same i (Agent_ID a)"
    and key_iff: "inv w \<Longrightarrow> klook w h = Some a \<longleftrightarrow> alook w (Agent_ID a) = Some a \<and> Agent_KeyHash a = h"
    and get_agent: "inv w \<Longrightarrow> run (ar_Get agents_repo i) w = (r, w') \<Longrightarrow>
      inv w' \<and> alook w' = alook w \<and> arest w' = arest w
      \<and> (case r of Inr a \<Rightarrow> alook w i = Some a
           | Inl x \<Rightarrow> (errors_Is x ErrAgentNotFound \<longrightarrow> alook w i = None)
               \<and> (up \<longrightarrow> errors_Is x ErrAgentNotFound))"
    and get_by_key: "inv w \<Longrightarrow> run (ar_GetByKeyHash agents_repo h) w = (r, w') \<Longrightarrow>
      inv w' \<and> alook w' = alook w \<and> arest w' = arest w
      \<and> (case r of Inr a \<Rightarrow> klook w h = Some a
           | Inl x \<Rightarrow> (errors_Is x ErrAgentNotFound \<longrightarrow> klook w h = None)
               \<and> (up \<longrightarrow> errors_Is x ErrAgentNotFound))"
    and list_agents: "inv w \<Longrightarrow> run (ar_ListByUser agents_repo u) w = (rl, w') \<Longrightarrow>
      inv w' \<and> alook w' = alook w \<and> arest w' = arest w
      \<and> (case rl of Inr found \<Rightarrow> distinct (map Agent_ID found)
               \<and> sorted (map Agent_CreatedAt found)
               \<and> set found = {a. alook w (Agent_ID a) = Some a \<and> same u (Agent_UserID a)}
           | Inl x \<Rightarrow> True)"
    and create_agent: "inv w \<Longrightarrow> \<not> Revoked a \<Longrightarrow> run (ar_CreateIfUnderLimit agents_repo a n) w = (rb, w') \<Longrightarrow>
      inv w' \<and> arest w' = arest w
      \<and> (case rb of Inl x \<Rightarrow> alook w' = alook w
           | Inr created \<Rightarrow>
               if created
               then alook w (Agent_ID a) = None \<and> klook w (Agent_KeyHash a) = None
                 \<and> same (Agent_ID a) (Agent_ID a) \<and> Agent_KeyHash (astore a) = Agent_KeyHash a
                 \<and> same (Agent_ID a) (Agent_ID (astore a))
                 \<and> alook w' = (\<lambda>j. if same j (Agent_ID a) then Some (astore a) else alook w j)
               else alook w' = alook w)"
    and revoke_agent: "inv w \<Longrightarrow> alook w i = Some a \<Longrightarrow> \<not> Revoked a \<Longrightarrow> 1000 \<le> t \<Longrightarrow>
      run (ar_Revoke agents_repo i t) w = (ru, w') \<Longrightarrow>
      inv w' \<and> arest w' = arest w \<and> \<not> IsZero (stamp t)
      \<and> (case ru of Inl x \<Rightarrow> alook w' = alook w
           | Inr _ \<Rightarrow> alook w' = (\<lambda>j. if same j i then Some (a\<lparr>Agent_RevokedAt := stamp t\<rparr>) else alook w j))"
    and touch_agent: "inv w \<Longrightarrow> alook w i = Some a \<Longrightarrow> run (ar_TouchLastUsed agents_repo i t) w = (ru, w') \<Longrightarrow>
      inv w' \<and> arest w' = arest w
      \<and> (case ru of Inl x \<Rightarrow> alook w' = alook w
           | Inr _ \<Rightarrow> alook w' = (\<lambda>j. if same j i then Some (a\<lparr>Agent_LastUsedAt := stamp t\<rparr>) else alook w j))"

text \<open>A verifier of identity tokens answers or fails, and leaves the world's view alone.\<close>

locale identity_verifier =
  fixes verifier :: "'w port_IdentityVerifier"
    and view :: "'w \<Rightarrow> 'v"
    and inv :: "'w \<Rightarrow> bool"
  assumes verify_frame: "inv w \<Longrightarrow> run (verifier p t) w = (r, w') \<Longrightarrow> inv w' \<and> view w' = view w"

end
