(* ===== verification/Sha256.thy ===== *)
theory Sha256
  imports GoStrings
begin

text \<open>
  \<open>crypto/sha256.Sum256\<close> of the Go standard library, as FIPS 180-4 defines it, on bytes and
  32-bit words. The server stores only the hexadecimal SHA-256 of a credential. The function is
  executable: \<open>Sum256_abc\<close> evaluates the standard's first test vector in the kernel.
\<close>

unbundle bit_operations_syntax

type_synonym u32 = "32 word"

definition K256 :: "u32 list" where
  "K256 =
    [1116352408, 1899447441, 3049323471, 3921009573, 961987163, 1508970993, 2453635748, 2870763221,
     3624381080, 310598401, 607225278, 1426881987, 1925078388, 2162078206, 2614888103, 3248222580,
     3835390401, 4022224774, 264347078, 604807628, 770255983, 1249150122, 1555081692, 1996064986,
     2554220882, 2821834349, 2952996808, 3210313671, 3336571891, 3584528711, 113926993, 338241895,
     666307205, 773529912, 1294757372, 1396182291, 1695183700, 1986661051, 2177026350, 2456956037,
     2730485921, 2820302411, 3259730800, 3345764771, 3516065817, 3600352804, 4094571909, 275423344,
     430227734, 506948616, 659060556, 883997877, 958139571, 1322822218, 1537002063, 1747873779,
     1955562222, 2024104815, 2227730452, 2361852424, 2428436474, 2756734187, 3204031479, 3329325298]"

definition H256 :: "u32 list" where
  "H256 = [1779033703, 3144134277, 1013904242, 2773480762, 1359893119, 2600822924, 528734635, 1541459225]"

definition rotr :: "nat \<Rightarrow> u32 \<Rightarrow> u32" where
  "rotr n x = drop_bit n x OR push_bit (32 - n) x"

definition sigma0 :: "u32 \<Rightarrow> u32" where
  "sigma0 x = rotr 7 x XOR rotr 18 x XOR drop_bit 3 x"

definition sigma1 :: "u32 \<Rightarrow> u32" where
  "sigma1 x = rotr 17 x XOR rotr 19 x XOR drop_bit 10 x"

definition Sigma0 :: "u32 \<Rightarrow> u32" where
  "Sigma0 x = rotr 2 x XOR rotr 13 x XOR rotr 22 x"

definition Sigma1 :: "u32 \<Rightarrow> u32" where
  "Sigma1 x = rotr 6 x XOR rotr 11 x XOR rotr 25 x"

definition Ch :: "u32 \<Rightarrow> u32 \<Rightarrow> u32 \<Rightarrow> u32" where
  "Ch x y z = (x AND y) XOR (NOT x AND z)"

definition Maj :: "u32 \<Rightarrow> u32 \<Rightarrow> u32 \<Rightarrow> u32" where
  "Maj x y z = (x AND y) XOR (x AND z) XOR (y AND z)"

text \<open>The message schedule, newest word first.\<close>

fun schedule :: "nat \<Rightarrow> u32 list \<Rightarrow> u32 list" where
  "schedule 0 ws = ws"
| "schedule (Suc n) ws =
     schedule n ((sigma1 (ws ! 1) + ws ! 6 + sigma0 (ws ! 14) + ws ! 15) # ws)"

fun round :: "u32 list \<Rightarrow> u32 \<times> u32 \<Rightarrow> u32 list" where
  "round [a, b, c, d, e, f, g, h] (k, w) =
     (let t1 = h + Sigma1 e + Ch e f g + k + w;
          t2 = Sigma0 a + Maj a b c
      in [t1 + t2, a, b, c, d + t1, e, f, g])"
| "round hs _ = hs"

definition compress :: "u32 list \<Rightarrow> u32 list \<Rightarrow> u32 list" where
  "compress hs blk =
     map2 (+) hs (foldl round hs (zip K256 (rev (schedule 48 (rev blk)))))"

fun words_of :: "byte list \<Rightarrow> u32 list" where
  "words_of (a # b # c # d # bs) =
     (push_bit 24 (ucast a) OR push_bit 16 (ucast b) OR push_bit 8 (ucast c) OR ucast d) # words_of bs"
| "words_of _ = []"

definition bytes_of_u32 :: "u32 \<Rightarrow> byte list" where
  "bytes_of_u32 w = [ucast (drop_bit 24 w), ucast (drop_bit 16 w), ucast (drop_bit 8 w), ucast w]"

text \<open>Padding: a 1 bit, zeros up to 8 bytes short of a block, and the length in bits.\<close>

definition pad :: "byte list \<Rightarrow> byte list" where
  "pad m =
     m @ [0x80] @ replicate ((119 - length m mod 64) mod 64) 0
       @ map (\<lambda>i. ucast (drop_bit i (of_nat (8 * length m) :: 64 word))) [56, 48, 40, 32, 24, 16, 8, 0]"

function blocks :: "u32 list \<Rightarrow> u32 list list" where
  "blocks ws = (if length ws < 16 then [] else take 16 ws # blocks (drop 16 ws))"
  by pat_completeness auto
termination
  by (relation "measure length") auto

declare blocks.simps [simp del]

definition Sum256 :: "byte list \<Rightarrow> byte list" where
  "Sum256 m = concat (map bytes_of_u32 (foldl compress H256 (blocks (words_of (pad m)))))"

lemma length_round [simp]: "length (round hs kw) = length hs"
  by (cases "(hs, kw)" rule: round.cases) (auto simp: Let_def)

lemma length_foldl_round [simp]: "length (foldl round hs kws) = length hs"
  by (induction kws arbitrary: hs) auto

lemma length_compress [simp]: "length (compress hs blk) = length hs"
  by (simp add: compress_def)

lemma length_foldl_compress [simp]: "length (foldl compress hs bs) = length hs"
  by (induction bs arbitrary: hs) auto

lemma length_Sum256: "length (Sum256 m) = 32"
  by (simp add: Sum256_def length_concat o_def bytes_of_u32_def sum_list_triv H256_def)

text \<open>A message is padded to whole blocks of 64 bytes.\<close>

lemma pad_fill: "r < 64 \<Longrightarrow> r + 1 + (119 - r) mod 64 + 8 \<in> {64, 128 :: nat}"
proof (cases "r < 56")
  case True
  then have "119 - r = (55 - r) + 64" by simp
  then have "(119 - r) mod 64 = (55 - r) mod 64" by (metis mod_add_self2)
  with True show ?thesis by simp
qed simp

lemma length_pad: "64 dvd length (pad m)"
proof -
  define r where "r = length m mod 64"
  have "r + 1 + (119 - r) mod 64 + 8 \<in> {64, 128}" by (rule pad_fill) (simp add: r_def)
  then have d: "64 dvd r + 1 + (119 - r) mod 64 + 8" by auto
  have "length m = length m div 64 * 64 + r" by (simp add: r_def)
  then have "length (pad m) = length m div 64 * 64 + (r + 1 + (119 - r) mod 64 + 8)"
    by (simp add: pad_def r_def[symmetric])
  then show ?thesis using d by simp
qed

section \<open>The first test vector of the standard\<close>

text \<open>The one block of the message \<open>abc\<close>, evaluated in the kernel in pieces of sixteen rounds.\<close>

definition abc_block :: "u32 list" where
  "abc_block = [0x61626380, 0, 0, 0, 0, 0, 0, 0, 0, 0, 0, 0, 0, 0, 0, 0x18]"

lemma abc_blocks: "blocks (words_of (pad (bytes_of ''abc''))) = [abc_block]"
  by code_simp

lemma schedule_numeral: "schedule (numeral n) ws =
     schedule (pred_numeral n) ((sigma1 (ws ! 1) + ws ! 6 + sigma0 (ws ! 14) + ws ! 15) # ws)"
  by (simp add: numeral_eq_Suc)

definition abc_w0 :: "u32 list" where
  "abc_w0 =
    [0x61626380, 0x00000000, 0x00000000, 0x00000000, 0x00000000, 0x00000000, 0x00000000, 0x00000000,
     0x00000000, 0x00000000, 0x00000000, 0x00000000, 0x00000000, 0x00000000, 0x00000000, 0x00000018]"

definition abc_w1 :: "u32 list" where
  "abc_w1 =
    [0x61626380, 0x000f0000, 0x7da86405, 0x600003c6, 0x3e9d7b78, 0x0183fc00, 0x12dcbfdb, 0xe2e2c38e,
     0xc8215c1a, 0xb73679a2, 0xe5bc3909, 0x32663c5b, 0x9d209d67, 0xec8726cb, 0x702138a4, 0xd3b7973b]"

definition abc_w2 :: "u32 list" where
  "abc_w2 =
    [0x93f5997f, 0x3b68ba73, 0xaff4ffc1, 0xf10a5c62, 0x0a8b3996, 0x72af830a, 0x9409e33e, 0x24641522,
     0x9f47bf94, 0xf0a64f5a, 0x3e246a79, 0x27333ba3, 0x0c4763f2, 0x840abf27, 0x7a290d5d, 0x065c43da]"

definition abc_w3 :: "u32 list" where
  "abc_w3 =
    [0xfb3e89cb, 0xcc7617db, 0xb9e66c34, 0xa9993667, 0x84badedd, 0xc21462bc, 0x1487472c, 0xb20f7a99,
     0xef57b9cd, 0xebe6b238, 0x9fe3095e, 0x78bc8d4b, 0xa43fcf15, 0x668b2ff8, 0xeeaba2cc, 0x12b1edeb]"

lemma abc_schedule: "rev (schedule 48 (rev abc_block)) = abc_w0 @ abc_w1 @ abc_w2 @ abc_w3"
  by (simp add: schedule_numeral sigma0_def sigma1_def rotr_def abc_block_def
        abc_w0_def abc_w1_def abc_w2_def abc_w3_def)

lemma abc_rounds0: "foldl round H256
    (zip (take 16 K256) abc_w0) =
    [0xb0fa238e, 0xc0645fde, 0xd932eb16, 0x87912990, 0x07590dcd, 0x0b92f20c, 0x745a48de, 0x1e578218]"
  by code_simp

lemma abc_rounds1: "foldl round [0xb0fa238e, 0xc0645fde, 0xd932eb16, 0x87912990, 0x07590dcd, 0x0b92f20c, 0x745a48de, 0x1e578218]
    (zip (take 16 (drop 16 K256)) abc_w1) =
    [0x73b33bf5, 0xea992a22, 0xa0060b30, 0x363482c9, 0xba591112, 0x0109ab3a, 0xade79437, 0x6112a3b7]"
  by code_simp

lemma abc_rounds2: "foldl round [0x73b33bf5, 0xea992a22, 0xa0060b30, 0x363482c9, 0xba591112, 0x0109ab3a, 0xade79437, 0x6112a3b7]
    (zip (take 16 (drop 32 K256)) abc_w2) =
    [0x4172328d, 0xa14c14b0, 0x72ab4b91, 0x26628815, 0xfecf0bc6, 0xd57b94a9, 0xb7755da1, 0xa80f11f0]"
  by code_simp

lemma abc_rounds3: "foldl round [0x4172328d, 0xa14c14b0, 0x72ab4b91, 0x26628815, 0xfecf0bc6, 0xd57b94a9, 0xb7755da1, 0xa80f11f0]
    (zip (take 16 (drop 48 K256)) abc_w3) =
    [0x506e3058, 0xd39a2165, 0x04d24d6c, 0xb85e2ce9, 0x5ef50f24, 0xfb121210, 0x948d25b6, 0x961f4894]"
  by code_simp

lemma compress_abc: "compress H256 abc_block =
    [0xba7816bf, 0x8f01cfea, 0x414140de, 0x5dae2223, 0xb00361a3, 0x96177a9c, 0xb410ff61, 0xf20015ad]"
proof -
  have "zip K256 (abc_w0 @ abc_w1 @ abc_w2 @ abc_w3) =
      zip (take 16 K256) abc_w0 @ zip (take 16 (drop 16 K256)) abc_w1
      @ zip (take 16 (drop 32 K256)) abc_w2 @ zip (take 16 (drop 48 K256)) abc_w3"
    by (simp add: K256_def abc_w0_def abc_w1_def abc_w2_def abc_w3_def)
  then show ?thesis
    by (simp add: compress_def abc_schedule abc_rounds0 abc_rounds1 abc_rounds2 abc_rounds3)
       (simp add: H256_def)
qed

lemma Sum256_abc:
  "EncodeToString (Sum256 (bytes_of ''abc'')) =
     ''ba7816bf8f01cfea414140de5dae2223b00361a396177a9cb410ff61f20015ad''"
  by (simp add: Sum256_def abc_blocks compress_abc bytes_of_u32_def EncodeToString_def hex_digits_def)

end
