(* ===== verification/AuthService.thy ===== *)
theory AuthService
  imports World Ports Sha256
begin

text \<open>
  The use cases of authentication (server/internal/core/usecase/auth.go): signing in with an
  identity token, authenticating user tokens and agent keys, and managing agents. The service is a
  record of the interfaces it calls. Logging is left out: it has no effect on results or state.
\<close>

section \<open>Configuration, inputs and results\<close>

definition ActionAuthExchange :: string where "ActionAuthExchange = ''auth.exchange''"
definition tokenPrefixUser :: string where "tokenPrefixUser = ''aeu_''"
definition tokenPrefixAgent :: string where "tokenPrefixAgent = ''aea_''"
definition agentTouchInterval :: duration where "agentTouchInterval = Minute"

record AuthConfig =
  UserTokenTTL :: duration
  MaxAgentsPerUser :: int

record ExchangeInput =
  xi_Provider :: string
  xi_IDToken :: string
  xi_ClientIP :: string

record ExchangeResult =
  xr_User :: User
  xr_Token :: string
  xr_ExpiresAt :: time

record AgentWithKey =
  ak_Agent :: Agent
  ak_Key :: string

record AgentCredentials =
  ac_Agent :: Agent
  ac_User :: User

record AuthService =
  as_verifier :: "world port_IdentityVerifier"
  as_users :: "world port_UserRepository"
  as_tokens :: "world port_UserTokenRepository"
  as_agents :: "world port_AgentRepository"
  as_limiter :: "world port_RateLimiter"
  as_config :: AuthConfig

definition NewAuthService ::
  "world port_IdentityVerifier \<Rightarrow> world port_UserRepository \<Rightarrow> world port_UserTokenRepository
     \<Rightarrow> world port_AgentRepository \<Rightarrow> world port_RateLimiter \<Rightarrow> AuthConfig \<Rightarrow> AuthService" where
  "NewAuthService verifier users_repo tokens agents_repo limiter config =
     \<lparr>as_verifier = verifier, as_users = users_repo, as_tokens = tokens, as_agents = agents_repo,
      as_limiter = limiter, as_config = config\<rparr>"

section \<open>Tokens\<close>

definition HashToken :: "string \<Rightarrow> string" where
  "HashToken raw = EncodeToString (Sum256 (bytes_of raw))"

definition newToken :: "Env \<Rightarrow> string \<Rightarrow> (world, err + string \<times> string) prog" where
  "newToken E pre =
     pbind (rand_Read E) (\<lambda>r.
     Done (case r of
             Inl e \<Rightarrow> Inl e
           | Inr b \<Rightarrow> let raw = pre @ RawURLEncode b in Inr (raw, HashToken raw)))"

definition newID :: "Env \<Rightarrow> (world, string) prog" where
  "newID E = uuid_NewString E"

section \<open>Signing in\<close>

definition Exchange :: "Env \<Rightarrow> AuthService \<Rightarrow> ExchangeInput \<Rightarrow> (world, err + ExchangeResult) prog" where
  "Exchange E s inp =
     (if \<not> ValidProvider (xi_Provider inp) then Done (Inl (Invalid ''unknown identity provider''))
      else
     pbind (as_limiter s (''ip:'' @ xi_ClientIP inp) ActionAuthExchange) (\<lambda>r. case r of
        Inl e \<Rightarrow> Done (Inl (Wrap e ''could not check rate limit''))
      | Inr allowed \<Rightarrow>
     if \<not> allowed then Done (Inl (TooMany ''too many sign-in attempts, try again later''))
     else
     pbind (as_verifier s (xi_Provider inp) (xi_IDToken inp)) (\<lambda>r. case r of
        Inl e \<Rightarrow>
          if errors_Is e ErrProviderUnavailable
          then Done (Inl (Invalid ''identity provider is not configured''))
          else Done (Inl (Unauthorized ''invalid or expired identity token''))
      | Inr identity \<Rightarrow>
     pbind (ur_UpsertByIdentity (as_users s) (Identity_Provider identity)
              (Identity_Subject identity) (Identity_Email identity)) (\<lambda>r. case r of
        Inl e \<Rightarrow> Done (Inl (Wrap e ''could not sign in''))
      | Inr user \<Rightarrow>
     pbind (newToken E tokenPrefixUser) (\<lambda>r. case r of
        Inl e \<Rightarrow> Done (Inl (Wrap e ''could not sign in''))
      | Inr (rawToken, hash) \<Rightarrow>
     pbind (time_Now E) (\<lambda>now.
     let expiresAt = Add now (UserTokenTTL (as_config s)) in
     pbind (tr_Create (as_tokens s)
              \<lparr>UserToken_TokenHash = hash, UserToken_UserID = User_ID user,
               UserToken_ExpiresAt = expiresAt, UserToken_CreatedAt = now\<rparr>) (\<lambda>r. case r of
        Inl e \<Rightarrow> Done (Inl (Wrap e ''could not sign in''))
      | Inr _ \<Rightarrow>
     Done (Inr \<lparr>xr_User = user, xr_Token = rawToken, xr_ExpiresAt = expiresAt\<rparr>))))))))"

section \<open>User tokens\<close>

definition AuthenticateUser :: "Env \<Rightarrow> AuthService \<Rightarrow> string \<Rightarrow> (world, err + User) prog" where
  "AuthenticateUser E s rawToken =
     pbind (tr_GetByHash (as_tokens s) (HashToken rawToken)) (\<lambda>r. case r of
        Inl e \<Rightarrow>
          if errors_Is e ErrUserTokenNotFound
          then Done (Inl (Unauthorized ''invalid or expired user token''))
          else Done (Inl (Wrap e ''could not authenticate''))
      | Inr token \<Rightarrow>
     pbind (time_Now E) (\<lambda>now.
     if Expired token now then Done (Inl (Unauthorized ''invalid or expired user token''))
     else
     pbind (ur_Get (as_users s) (UserToken_UserID token)) (\<lambda>r. case r of
        Inl e \<Rightarrow>
          if errors_Is e ErrUserNotFound
          then Done (Inl (Unauthorized ''invalid or expired user token''))
          else Done (Inl (Wrap e ''could not authenticate''))
      | Inr user \<Rightarrow> Done (Inr user))))"

definition RevokeUserToken :: "AuthService \<Rightarrow> string \<Rightarrow> (world, err + unit) prog" where
  "RevokeUserToken s tokenHash =
     pbind (tr_DeleteByHash (as_tokens s) tokenHash) (\<lambda>r. case r of
        Inl e \<Rightarrow> Done (Inl (Wrap e ''could not log out''))
      | Inr _ \<Rightarrow> Done (Inr ()))"

section \<open>Agents\<close>

definition AuthenticateAgent ::
  "Env \<Rightarrow> AuthService \<Rightarrow> string \<Rightarrow> (world, err + AgentCredentials) prog" where
  "AuthenticateAgent E s rawKey =
     pbind (ar_GetByKeyHash (as_agents s) (HashToken rawKey)) (\<lambda>r. case r of
        Inl e \<Rightarrow>
          if errors_Is e ErrAgentNotFound then Done (Inl (Unauthorized ''invalid agent key''))
          else Done (Inl (Wrap e ''could not authenticate''))
      | Inr agent \<Rightarrow>
     if Revoked agent then Done (Inl (Unauthorized ''agent key has been revoked''))
     else
     pbind (ur_Get (as_users s) (Agent_UserID agent)) (\<lambda>r. case r of
        Inl e \<Rightarrow>
          if errors_Is e ErrUserNotFound then Done (Inl (Unauthorized ''invalid agent key''))
          else Done (Inl (Wrap e ''could not authenticate''))
      | Inr user \<Rightarrow>
     pbind (time_Now E) (\<lambda>now.
     pbind (if IsZero (Agent_LastUsedAt agent)
               \<or> agentTouchInterval \<le> Sub now (Agent_LastUsedAt agent)
            then ar_TouchLastUsed (as_agents s) (Agent_ID agent) now
            else Done (Inr ())) (\<lambda>_.
     Done (Inr \<lparr>ac_Agent = agent, ac_User = user\<rparr>)))))"

definition CreateAgent ::
  "Env \<Rightarrow> AuthService \<Rightarrow> string \<Rightarrow> string \<Rightarrow> (world, err + AgentWithKey) prog" where
  "CreateAgent E s userID name =
     pbind (newID E) (\<lambda>i.
     pbind (time_Now E) (\<lambda>now.
     let agent = \<lparr>Agent_ID = i, Agent_UserID = userID, Agent_Name = name, Agent_KeyHash = '''',
                  Agent_CreatedAt = now, Agent_RevokedAt = zero_time, Agent_LastUsedAt = zero_time\<rparr> in
     case Agent_Validate agent of
        Some e \<Rightarrow> Done (Inl (Invalid (err_text e)))
      | None \<Rightarrow>
     pbind (newToken E tokenPrefixAgent) (\<lambda>r. case r of
        Inl e \<Rightarrow> Done (Inl (Wrap e ''could not create agent''))
      | Inr (rawKey, hash) \<Rightarrow>
     let agent = agent\<lparr>Agent_KeyHash := hash\<rparr> in
     pbind (ar_CreateIfUnderLimit (as_agents s) agent (MaxAgentsPerUser (as_config s))) (\<lambda>r. case r of
        Inl e \<Rightarrow> Done (Inl (Wrap e ''could not create agent''))
      | Inr created \<Rightarrow>
     if \<not> created then Done (Inl (Forbidden ''agent limit reached, revoke an agent first''))
     else Done (Inr \<lparr>ak_Agent = agent, ak_Key = rawKey\<rparr>)))))"

definition ListAgents :: "AuthService \<Rightarrow> string \<Rightarrow> (world, err + Agent list) prog" where
  "ListAgents s userID =
     pbind (ar_ListByUser (as_agents s) userID) (\<lambda>r. case r of
        Inl e \<Rightarrow> Done (Inl (Wrap e ''could not list agents''))
      | Inr found \<Rightarrow> Done (Inr found))"

definition RevokeAgent :: "Env \<Rightarrow> AuthService \<Rightarrow> string \<Rightarrow> string \<Rightarrow> (world, err + unit) prog" where
  "RevokeAgent E s userID agentID =
     pbind (ar_Get (as_agents s) agentID) (\<lambda>r. case r of
        Inl e \<Rightarrow>
          if errors_Is e ErrAgentNotFound then Done (Inl (NotFound ''agent not found''))
          else Done (Inl (Wrap e ''could not revoke agent''))
      | Inr agent \<Rightarrow>
     if Agent_UserID agent \<noteq> userID then Done (Inl (Forbidden ''agent does not belong to you''))
     else if Revoked agent then Done (Inr ())
     else
     pbind (time_Now E) (\<lambda>now.
     pbind (ar_Revoke (as_agents s) agentID now) (\<lambda>r. case r of
        Inl e \<Rightarrow> Done (Inl (Wrap e ''could not revoke agent''))
      | Inr _ \<Rightarrow> Done (Inr ()))))"

end
