(* ===== verification/EventService.thy ===== *)
theory EventService
  imports AuthService
begin

text \<open>
  The use cases of events (server/internal/core/usecase/event.go): creating, reading, listing,
  updating and deleting events on behalf of an actor. The locale \<open>event_service\<close> holds what
  follows from the contracts of the repository and of the limiter alone.
\<close>

section \<open>Definitions\<close>

definition ActionCreateEvent :: string where "ActionCreateEvent = ''event.create''"

record Actor =
  Actor_UserID :: string
  Actor_AgentID :: string

record CreateEventInput =
  ci_Name :: string
  ci_Description :: string

record UpdateEventInput =
  ui_Name :: string
  ui_Description :: string

record EventService =
  es_repo :: "world port_EventRepository"
  es_limiter :: "world port_RateLimiter"

definition NewEventService :: "world port_EventRepository \<Rightarrow> world port_RateLimiter \<Rightarrow> EventService" where
  "NewEventService repo limiter = \<lparr>es_repo = repo, es_limiter = limiter\<rparr>"

definition EventService_Create ::
  "Env \<Rightarrow> EventService \<Rightarrow> Actor \<Rightarrow> CreateEventInput \<Rightarrow> (world, err + Event) prog" where
  "EventService_Create E s actor inp =
     (if Actor_UserID actor = '''' then Done (Inl (Invalid ''user is required''))
      else
     pbind (es_limiter s (''user:'' @ Actor_UserID actor) ActionCreateEvent) (\<lambda>r. case r of
        Inl e \<Rightarrow> Done (Inl (Wrap e ''could not check rate limit''))
      | Inr allowed \<Rightarrow>
     if \<not> allowed then Done (Inl (TooMany ''event creation limit reached, try again later''))
     else
     pbind (time_Now E) (\<lambda>now.
     pbind (newID E) (\<lambda>i.
     let event = \<lparr>Event_ID = i, Event_UserID = Actor_UserID actor, Event_Name = ci_Name inp,
                  Event_Description = ci_Description inp, Event_CreatedAt = now,
                  Event_UpdatedAt = now\<rparr> in
     case Event_Validate event of
        Some e \<Rightarrow> Done (Inl (Invalid (err_text e)))
      | None \<Rightarrow>
     pbind (er_Save (es_repo s) event) (\<lambda>r. case r of
        Inl e \<Rightarrow> Done (Inl (Wrap e ''could not create event''))
      | Inr saved \<Rightarrow> Done (Inr saved))))))"

definition EventService_Get :: "EventService \<Rightarrow> string \<Rightarrow> (world, err + Event) prog" where
  "EventService_Get s i =
     pbind (er_Get (es_repo s) i) (\<lambda>r. case r of
        Inl e \<Rightarrow>
          if errors_Is e ErrEventNotFound then Done (Inl (NotFound ''event not found''))
          else Done (Inl (Wrap e ''could not fetch event''))
      | Inr event \<Rightarrow> Done (Inr event))"

definition EventService_List :: "EventService \<Rightarrow> (world, err + Event list) prog" where
  "EventService_List s =
     pbind (er_List (es_repo s)) (\<lambda>r. case r of
        Inl e \<Rightarrow> Done (Inl (Wrap e ''could not list events''))
      | Inr found \<Rightarrow> Done (Inr found))"

definition EventService_Update ::
  "Env \<Rightarrow> EventService \<Rightarrow> Actor \<Rightarrow> string \<Rightarrow> UpdateEventInput \<Rightarrow> (world, err + Event) prog" where
  "EventService_Update E s actor i inp =
     pbind (er_Get (es_repo s) i) (\<lambda>r. case r of
        Inl e \<Rightarrow>
          if errors_Is e ErrEventNotFound then Done (Inl (NotFound ''event not found''))
          else Done (Inl (Wrap e ''could not update event''))
      | Inr event \<Rightarrow>
     if Event_UserID event \<noteq> Actor_UserID actor
     then Done (Inl (Forbidden ''event does not belong to you''))
     else
     pbind (time_Now E) (\<lambda>now.
     let event = event\<lparr>Event_Name := ui_Name inp, Event_Description := ui_Description inp,
                       Event_UpdatedAt := now\<rparr> in
     case Event_Validate event of
        Some e \<Rightarrow> Done (Inl (Invalid (err_text e)))
      | None \<Rightarrow>
     pbind (er_Update (es_repo s) event) (\<lambda>r. case r of
        Inl e \<Rightarrow> Done (Inl (Wrap e ''could not update event''))
      | Inr updated \<Rightarrow> Done (Inr updated))))"

definition EventService_Delete ::
  "EventService \<Rightarrow> Actor \<Rightarrow> string \<Rightarrow> (world, err + unit) prog" where
  "EventService_Delete s actor i =
     pbind (er_Get (es_repo s) i) (\<lambda>r. case r of
        Inl e \<Rightarrow>
          if errors_Is e ErrEventNotFound then Done (Inl (NotFound ''event not found''))
          else Done (Inl (Wrap e ''could not delete event''))
      | Inr event \<Rightarrow>
     if Event_UserID event \<noteq> Actor_UserID actor
     then Done (Inl (Forbidden ''event does not belong to you''))
     else
     pbind (er_Delete (es_repo s) i) (\<lambda>r. case r of
        Inl e \<Rightarrow> Done (Inl (Wrap e ''could not delete event''))
      | Inr _ \<Rightarrow> Done (Inr ())))"

section \<open>What follows from the contracts\<close>

locale event_service =
  event_repository repo lookup same store inv up + rate_limiter limiter lookup inv
  for repo :: "world port_EventRepository" and lookup :: "world \<Rightarrow> string \<Rightarrow> Event option"
    and same store and inv :: "world \<Rightarrow> bool" and up and limiter :: "world port_RateLimiter" +
  assumes tick_inv: "inv w \<Longrightarrow> inv (w\<lparr>ticks := n\<rparr>)"
    and tick_lookup: "lookup (w\<lparr>ticks := n\<rparr>) = lookup w"
begin

text \<open>The service over this repository and limiter.\<close>

abbreviation svc :: EventService where
  "svc \<equiv> \<lparr>es_repo = repo, es_limiter = limiter\<rparr>"

text \<open>
  The result of an update, on every branch: only the owner gets past the check; a blank name is
  refused; a successful update changes the one event, keeps its identifier, owner and creation
  time, and any failure leaves all events as they were.
\<close>

lemma update_outcome:
  assumes "inv w" and "run (EventService_Update E svc actor i inp) w = (r, w')"
  shows "inv w' \<and>
    (case r of
       Inr e \<Rightarrow> (\<exists>old now. lookup w i = Some old \<and> Event_UserID old = Actor_UserID actor
         \<and> TrimSpace (ui_Name inp) \<noteq> ''''
         \<and> e = old\<lparr>Event_Name := ui_Name inp, Event_Description := ui_Description inp, Event_UpdatedAt := now\<rparr>
         \<and> lookup w' = (\<lambda>j. if same j (Event_ID old) then Some (store e) else lookup w j))
     | Inl x \<Rightarrow> lookup w' = lookup w
         \<and> (KindOf x = KindForbidden \<longrightarrow> (\<exists>old. lookup w i = Some old \<and> Event_UserID old \<noteq> Actor_UserID actor))
         \<and> (KindOf x = KindNotFound \<longrightarrow> lookup w i = None))"
proof -
  obtain g w1 where g: "run (er_Get repo i) w = (g, w1)" by fastforce
  note G = get_event[OF assms(1) g]
  show ?thesis
  proof (cases g)
    case (Inl x)
    then show ?thesis using assms(2) g G
      by (auto simp: EventService_Update_def run_simps split: if_splits)
  next
    case (Inr old)
    show ?thesis
    proof (cases "Event_UserID old \<noteq> Actor_UserID actor \<or> TrimSpace (ui_Name inp) = ''''")
      case True
      then show ?thesis using assms(2) g G Inr
        by (auto simp: EventService_Update_def run_simps Event_Validate_def tick_inv tick_lookup
             split: if_splits)
    next
      case False
      define w2 where "w2 = w1\<lparr>ticks := Suc (ticks w1)\<rparr>"
      define e where "e = old\<lparr>Event_Name := ui_Name inp, Event_Description := ui_Description inp,
        Event_UpdatedAt := now_at E (ticks w1)\<rparr>"
      have w2: "inv w2" "lookup w2 = lookup w"
        using G by (auto simp: w2_def tick_inv tick_lookup)
      have old: "lookup w i = Some old" using G Inr by simp
      then have "lookup w2 (Event_ID e) = Some old"
        using lookup_same[OF assms(1) lookup_id[OF assms(1) old]] w2(2) by (simp add: e_def)
      moreover obtain u w3 where u: "run (er_Update repo e) w2 = (u, w3)" by fastforce
      ultimately have U: "inv w3 \<and> (case u of Inl x \<Rightarrow> lookup w3 = lookup w2
           | Inr e' \<Rightarrow> e' = e \<and> lookup w3 = (\<lambda>j. if same j (Event_ID e)
               then Some (store (old\<lparr>Event_Name := Event_Name e,
                 Event_Description := Event_Description e, Event_UpdatedAt := Event_UpdatedAt e\<rparr>))
               else lookup w2 j))"
        using update_event[OF w2(1)] by blast
      have "Event_Validate e = None" using False by (simp add: Event_Validate_def e_def)
      then have "(r, w') = (case u of Inl x \<Rightarrow> Inl (Wrap x ''could not update event'') | Inr v \<Rightarrow> Inr v, w3)"
        using assms(2) g Inr False u
        by (cases u) (auto simp: EventService_Update_def run_simps w2_def e_def)
      then show ?thesis using U w2 old False
        by (auto simp: e_def split: sum.splits)
    qed
  qed
qed

lemma delete_outcome:
  assumes "inv w" and "run (EventService_Delete svc actor i) w = (r, w')"
  shows "inv w' \<and>
    (case r of
       Inr _ \<Rightarrow> (\<exists>old. lookup w i = Some old \<and> Event_UserID old = Actor_UserID actor)
         \<and> lookup w' = (\<lambda>j. if same j i then None else lookup w j)
     | Inl x \<Rightarrow> lookup w' = lookup w
         \<and> (KindOf x = KindForbidden \<longrightarrow> (\<exists>old. lookup w i = Some old \<and> Event_UserID old \<noteq> Actor_UserID actor))
         \<and> (KindOf x = KindNotFound \<longrightarrow> lookup w i = None))"
proof -
  obtain g w1 where g: "run (er_Get repo i) w = (g, w1)" by fastforce
  note G = get_event[OF assms(1) g]
  obtain d w2 where d: "run (er_Delete repo i) w1 = (d, w2)" by fastforce
  from G have "inv w1" by simp
  note D = delete_event[OF this d]
  show ?thesis using assms(2) g d G D
    by (cases g; cases d) (auto simp: EventService_Delete_def run_simps fun_eq_iff split: if_splits)
qed

text \<open>When no statement fails, the owner of an event can remove it.\<close>

lemma delete_succeeds:
  assumes "inv w" "up" "lookup w i = Some e" "Event_UserID e = Actor_UserID actor"
    and "run (EventService_Delete svc actor i) w = (r, w')"
  shows "r = Inr () \<and> inv w' \<and> lookup w' = (\<lambda>j. if same j i then None else lookup w j)"
proof -
  obtain g w1 where g: "run (er_Get repo i) w = (g, w1)" by fastforce
  note G = get_event[OF assms(1) g]
  obtain d w2 where d: "run (er_Delete repo i) w1 = (d, w2)" by fastforce
  from G have "inv w1" by simp
  note D = delete_event[OF this d]
  have "g = Inr e" using G assms(2,3) by (cases g) auto
  moreover from this obtain u where "d = Inr u" using G D assms(2,3) by (cases d) auto
  ultimately show ?thesis using assms(4,5) g d G D by (auto simp: EventService_Delete_def run_simps)
qed

text \<open>
  The result of a creation, given what the limiter answered: who gets past which guard, and the kind
  of the error of every other branch.
\<close>

lemma create_outcome:
  assumes "inv w" and "run (EventService_Create E svc actor inp) w = (r, w')"
    and l: "run (limiter (''user:'' @ Actor_UserID actor) ActionCreateEvent) w = (l, w1)"
  shows "inv w' \<and>
    (case r of
       Inr e \<Rightarrow> l = Inr True \<and> Event_UserID e = Actor_UserID actor \<and> Actor_UserID actor \<noteq> ''''
         \<and> Event_Name e = ci_Name inp \<and> TrimSpace (ci_Name inp) \<noteq> ''''
         \<and> Event_Description e = ci_Description inp \<and> Event_CreatedAt e = Event_UpdatedAt e
         \<and> lookup w (Event_ID e) = None
         \<and> lookup w' = (\<lambda>j. if same j (Event_ID e) then Some (store e) else lookup w j)
     | Inl x \<Rightarrow> lookup w' = lookup w
         \<and> KindOf x =
             (if Actor_UserID actor = '''' then KindInvalid
              else if isl l then KindInternal
              else if l = Inr False then KindTooMany
              else if TrimSpace (ci_Name inp) = '''' then KindInvalid
              else KindInternal))"
proof -
  note L = allow_frame[OF assms(1) l]
  define w2 where "w2 = w1\<lparr>ticks := Suc (Suc (ticks w1))\<rparr>"
  define e where "e = \<lparr>Event_ID = uuid_at E (Suc (ticks w1)), Event_UserID = Actor_UserID actor,
    Event_Name = ci_Name inp, Event_Description = ci_Description inp,
    Event_CreatedAt = now_at E (ticks w1), Event_UpdatedAt = now_at E (ticks w1)\<rparr>"
  have w2: "inv w2" "lookup w2 = lookup w" using L by (auto simp: w2_def tick_inv tick_lookup)
  obtain v w3 where v: "run (er_Save repo e) w2 = (v, w3)" by fastforce
  note S = save_event[OF w2(1) v]
  consider "Actor_UserID actor = ''''" | x where "Actor_UserID actor \<noteq> ''''" "l = Inl x"
    | "Actor_UserID actor \<noteq> ''''" "l = Inr False"
    | "Actor_UserID actor \<noteq> ''''" "l = Inr True" "TrimSpace (ci_Name inp) = ''''"
    | "Actor_UserID actor \<noteq> ''''" "l = Inr True" "TrimSpace (ci_Name inp) \<noteq> ''''"
    by (cases l) auto
  then show ?thesis
  proof cases
    case 5
    then have "(r, w') = (case v of Inl x \<Rightarrow> Inl (Wrap x ''could not create event'') | Inr s \<Rightarrow> Inr s, w3)"
      using assms(2) l v
      by (cases v) (auto simp: EventService_Create_def run_simps newID_def w2_def e_def Event_Validate_def)
    then show ?thesis using S w2 5 by (auto simp: e_def split: sum.splits)
  qed (use assms L in \<open>auto simp: EventService_Create_def run_simps newID_def Event_Validate_def
        tick_inv tick_lookup split: if_splits\<close>)
qed

end

end
