(* ===== verification/Http.thy ===== *)
theory Http
  imports ClientIP JsonText EventService "HOL-Library.List_Lexorder" "HOL-Library.Char_ord"
begin

text \<open>
  Requests, responses and their JSON (server/internal/transport/http/handler/response.go, the
  packages \<open>dto\<close> and \<open>authctx\<close>, and the validation errors of handler/event.go). The body of a
  response is the value handed to \<open>json.Marshal\<close>, and \<open>written\<close> is the text sent. A request keeps
  the text of its body. The libraries go-playground/validator and google/uuid are parameters of the
  model.
\<close>

section \<open>Requests and responses\<close>

record AgentIdentity =
  ai_Agent :: Agent
  ai_User :: User

record UserIdentity =
  ui_User :: User
  ui_TokenHash :: string

text \<open>The two values of the context are the fields \<open>rq_agent\<close> and \<open>rq_user\<close>.\<close>

record request =
  rq_headers :: header
  rq_remoteAddr :: string
  rq_body :: string
  rq_params :: "(string \<times> string) list"
  rq_agent :: "AgentIdentity option"
  rq_user :: "UserIdentity option"

text \<open>The body of a response: a JSON value of the code, or a text of its own that chi answers with.\<close>

datatype body = JSON json | Text string

record response =
  rs_status :: nat
  rs_body :: "body option"

definition WithAgent :: "AgentIdentity \<Rightarrow> request \<Rightarrow> request" where
  "WithAgent identity rq = rq\<lparr>rq_agent := Some identity\<rparr>"

definition AgentFrom :: "request \<Rightarrow> AgentIdentity option" where
  "AgentFrom rq = rq_agent rq"

definition WithUser :: "UserIdentity \<Rightarrow> request \<Rightarrow> request" where
  "WithUser identity rq = rq\<lparr>rq_user := Some identity\<rparr>"

definition UserFrom :: "request \<Rightarrow> UserIdentity option" where
  "UserFrom rq = rq_user rq"

definition URLParam :: "request \<Rightarrow> string \<Rightarrow> string" where
  "URLParam rq name = (case map_of (rq_params rq) name of None \<Rightarrow> '''' | Some v \<Rightarrow> v)"

text \<open>
  A field the validator is asked about (its Go name, its rules as pairs of tag and parameter, its
  value), and what it answers: nothing, failed fields, or another error.
\<close>

record field_rules =
  fr_Field :: string
  fr_rules :: "(string \<times> string) list"
  fr_value :: string

record FieldError =
  fe_Field :: string
  fe_Tag :: string
  fe_Param :: string

datatype validation = ValidationErrors "FieldError list" | InvalidValidation err

text \<open>
  The libraries: \<open>validate\<close> is \<open>validate.Struct\<close> and \<open>uuid_Parse\<close> says whether \<open>uuid.Parse\<close> accepts a text.
\<close>

record http_lib =
  validate :: "field_rules list \<Rightarrow> validation option"
  uuid_Parse :: "string \<Rightarrow> bool"

section \<open>Marshalling\<close>

text \<open>The decimal digits of a number, padded with zeros to the given width.\<close>

fun digits :: "nat \<Rightarrow> int \<Rightarrow> string" where
  "digits 0 n = ''''"
| "digits (Suc k) n = digits k (n div 10) @ [char_of (48 + n mod 10)]"

text \<open>
  The civil date of a number of days since 1 January of year 1: days are counted from 1 March of
  year 0, in eras of 400 years.
\<close>

definition civil :: "int \<Rightarrow> int \<times> int \<times> int" where
  "civil days =
     (let z = days + 306; era = z div 146097; doe = z mod 146097;
          yoe = (doe - doe div 1460 + doe div 36524 - doe div 146096) div 365;
          doy = doe - (365 * yoe + yoe div 4 - yoe div 100);
          mp = (5 * doy + 2) div 153;
          day = doy - (153 * mp + 2) div 5 + 1;
          month = (if mp < 10 then mp + 3 else mp - 9);
          year = yoe + era * 400 + (if month \<le> 2 then 1 else 0)
      in (year, month, day))"

text \<open>\<open>Time.MarshalJSON\<close>: RFC 3339 with the nanoseconds that are not zero; years of four digits only.\<close>

definition nanos_text :: "int \<Rightarrow> string" where
  "nanos_text n = (if n = 0 then '''' else CHR ''.'' # rev (dropWhile (\<lambda>c. c = CHR ''0'') (rev (digits 9 n))))"

definition Time_MarshalJSON :: "time \<Rightarrow> err + json" where
  "Time_MarshalJSON t =
     (let secs = t div Second; ns = t mod Second; sod = secs mod 86400 in
      case civil (secs div 86400) of (year, month, day) \<Rightarrow>
        if year < 0 \<or> 9999 < year then Inl (Plain ''Time.MarshalJSON: year outside of range [0,9999]'')
        else Inr (JString (digits 4 year @ ''-'' @ digits 2 month @ ''-'' @ digits 2 day
               @ ''T'' @ digits 2 (sod div 3600) @ '':'' @ digits 2 (sod div 60 mod 60) @ '':''
               @ digits 2 (sod mod 60) @ nanos_text ns @ ''Z'')))"

text \<open>A struct is an object of its fields in order; the first field that cannot be marshalled is the error.\<close>

fun marshal_fields :: "(string \<times> (err + json)) list \<Rightarrow> err + (string \<times> json) list" where
  "marshal_fields [] = Inr []"
| "marshal_fields ((k, Inl e) # fs) = Inl e"
| "marshal_fields ((k, Inr v) # fs) = (case marshal_fields fs of Inl e \<Rightarrow> Inl e | Inr kvs \<Rightarrow> Inr ((k, v) # kvs))"

definition marshal_struct :: "(string \<times> (err + json)) list \<Rightarrow> err + json" where
  "marshal_struct fs = (case marshal_fields fs of Inl e \<Rightarrow> Inl e | Inr kvs \<Rightarrow> Inr (JObject kvs))"

fun marshal_list :: "(err + json) list \<Rightarrow> err + json list" where
  "marshal_list [] = Inr []"
| "marshal_list (Inl e # vs) = Inl e"
| "marshal_list (Inr v # vs) = (case marshal_list vs of Inl e \<Rightarrow> Inl e | Inr ws \<Rightarrow> Inr (v # ws))"

definition marshal_array :: "(err + json) list \<Rightarrow> err + json" where
  "marshal_array vs = (case marshal_list vs of Inl e \<Rightarrow> Inl e | Inr ws \<Rightarrow> Inr (JArray ws))"

section \<open>Data transfer objects\<close>

record CreateAgentRequest =
  car_Name :: string

record AgentResponse =
  arp_ID :: string
  arp_Name :: string
  arp_CreatedAt :: time
  arp_RevokedAt :: "time option"
  arp_LastUsedAt :: "time option"

record CreateAgentResponse =
  carp_Agent :: AgentResponse
  carp_Key :: string

record UserResponse =
  urp_ID :: string
  urp_Provider :: string
  urp_Email :: string
  urp_CreatedAt :: time

record WhoamiResponse =
  wrp_Agent :: AgentResponse
  wrp_User :: UserResponse

record ExchangeRequest =
  erq_Provider :: string
  erq_IDToken :: string

record ExchangeResponse =
  erp_Token :: string
  erp_ExpiresAt :: time
  erp_User :: UserResponse

record CreateEventRequest =
  cer_Name :: string
  cer_Description :: string

record UpdateEventRequest =
  uer_Name :: string
  uer_Description :: string

record EventResponse =
  evp_ID :: string
  evp_UserID :: string
  evp_Name :: string
  evp_Description :: string
  evp_CreatedAt :: time
  evp_UpdatedAt :: time

definition timePtr :: "time \<Rightarrow> time option" where
  "timePtr t = (if IsZero t then None else Some t)"

definition NewAgentResponse :: "Agent \<Rightarrow> AgentResponse" where
  "NewAgentResponse a =
     \<lparr>arp_ID = Agent_ID a, arp_Name = Agent_Name a, arp_CreatedAt = Agent_CreatedAt a,
      arp_RevokedAt = timePtr (Agent_RevokedAt a), arp_LastUsedAt = timePtr (Agent_LastUsedAt a)\<rparr>"

fun NewAgentResponses :: "Agent list \<Rightarrow> AgentResponse list" where
  "NewAgentResponses [] = []"
| "NewAgentResponses (a # as) = NewAgentResponse a # NewAgentResponses as"

definition NewUserResponse :: "User \<Rightarrow> UserResponse" where
  "NewUserResponse u =
     \<lparr>urp_ID = User_ID u, urp_Provider = User_Provider u, urp_Email = User_Email u,
      urp_CreatedAt = User_CreatedAt u\<rparr>"

definition NewEventResponse :: "Event \<Rightarrow> EventResponse" where
  "NewEventResponse e =
     \<lparr>evp_ID = Event_ID e, evp_UserID = Event_UserID e, evp_Name = Event_Name e,
      evp_Description = Event_Description e, evp_CreatedAt = Event_CreatedAt e,
      evp_UpdatedAt = Event_UpdatedAt e\<rparr>"

fun NewEventResponses :: "Event list \<Rightarrow> EventResponse list" where
  "NewEventResponses [] = []"
| "NewEventResponses (e # es) = NewEventResponse e # NewEventResponses es"

definition ExchangeRequest_ToInput :: "ExchangeRequest \<Rightarrow> string \<Rightarrow> ExchangeInput" where
  "ExchangeRequest_ToInput r client =
     \<lparr>xi_Provider = TrimSpace (erq_Provider r), xi_IDToken = TrimSpace (erq_IDToken r), xi_ClientIP = client\<rparr>"

definition CreateEventRequest_ToInput :: "CreateEventRequest \<Rightarrow> CreateEventInput" where
  "CreateEventRequest_ToInput r =
     \<lparr>ci_Name = TrimSpace (cer_Name r), ci_Description = TrimSpace (cer_Description r)\<rparr>"

definition UpdateEventRequest_ToInput :: "UpdateEventRequest \<Rightarrow> UpdateEventInput" where
  "UpdateEventRequest_ToInput r =
     \<lparr>ui_Name = TrimSpace (uer_Name r), ui_Description = TrimSpace (uer_Description r)\<rparr>"

section \<open>The JSON of the data transfer objects\<close>

definition omit_empty :: "string \<Rightarrow> time option \<Rightarrow> (string \<times> (err + json)) list" where
  "omit_empty k t = (case t of None \<Rightarrow> [] | Some u \<Rightarrow> [(k, Time_MarshalJSON u)])"

definition json_string :: "string \<Rightarrow> err + json" where
  "json_string s = Inr (JString s)"

definition marshal_AgentResponse :: "AgentResponse \<Rightarrow> err + json" where
  "marshal_AgentResponse a =
     marshal_struct ([(''id'', json_string (arp_ID a)), (''name'', json_string (arp_Name a)),
       (''created_at'', Time_MarshalJSON (arp_CreatedAt a))]
       @ omit_empty ''revoked_at'' (arp_RevokedAt a) @ omit_empty ''last_used_at'' (arp_LastUsedAt a))"

definition marshal_UserResponse :: "UserResponse \<Rightarrow> err + json" where
  "marshal_UserResponse u =
     marshal_struct [(''id'', json_string (urp_ID u)), (''provider'', json_string (urp_Provider u)),
       (''email'', json_string (urp_Email u)), (''created_at'', Time_MarshalJSON (urp_CreatedAt u))]"

definition marshal_CreateAgentResponse :: "CreateAgentResponse \<Rightarrow> err + json" where
  "marshal_CreateAgentResponse r =
     marshal_struct [(''agent'', marshal_AgentResponse (carp_Agent r)), (''key'', json_string (carp_Key r))]"

definition marshal_WhoamiResponse :: "WhoamiResponse \<Rightarrow> err + json" where
  "marshal_WhoamiResponse r =
     marshal_struct [(''agent'', marshal_AgentResponse (wrp_Agent r)), (''user'', marshal_UserResponse (wrp_User r))]"

definition marshal_ExchangeResponse :: "ExchangeResponse \<Rightarrow> err + json" where
  "marshal_ExchangeResponse r =
     marshal_struct [(''token'', json_string (erp_Token r)), (''expires_at'', Time_MarshalJSON (erp_ExpiresAt r)),
       (''user'', marshal_UserResponse (erp_User r))]"

definition marshal_EventResponse :: "EventResponse \<Rightarrow> err + json" where
  "marshal_EventResponse e =
     marshal_struct [(''id'', json_string (evp_ID e)), (''user_id'', json_string (evp_UserID e)),
       (''name'', json_string (evp_Name e)), (''description'', json_string (evp_Description e)),
       (''created_at'', Time_MarshalJSON (evp_CreatedAt e)), (''updated_at'', Time_MarshalJSON (evp_UpdatedAt e))]"

text \<open>Filling the request structs: the store of one named field.\<close>

definition store_with :: "('a \<Rightarrow> string) \<Rightarrow> (string \<Rightarrow> 'a \<Rightarrow> 'a) \<Rightarrow> json \<Rightarrow> 'a \<Rightarrow> err + 'a" where
  "store_with get put v r = (case decode_string (get r) v of Inl e \<Rightarrow> Inl e | Inr s \<Rightarrow> Inr (put s r))"

definition set_CreateAgentRequest :: "string \<Rightarrow> json \<Rightarrow> CreateAgentRequest \<Rightarrow> err + CreateAgentRequest" where
  "set_CreateAgentRequest n v r = store_with car_Name (\<lambda>s. car_Name_update (\<lambda>_. s)) v r"

definition decode_CreateAgentRequest :: "json \<Rightarrow> err + CreateAgentRequest" where
  "decode_CreateAgentRequest j = decode_struct False [''name''] set_CreateAgentRequest j \<lparr>car_Name = ''''\<rparr>"

definition set_ExchangeRequest :: "string \<Rightarrow> json \<Rightarrow> ExchangeRequest \<Rightarrow> err + ExchangeRequest" where
  "set_ExchangeRequest n v r =
     (if n = ''provider'' then store_with erq_Provider (\<lambda>s. erq_Provider_update (\<lambda>_. s)) v r
      else store_with erq_IDToken (\<lambda>s. erq_IDToken_update (\<lambda>_. s)) v r)"

definition decode_ExchangeRequest :: "json \<Rightarrow> err + ExchangeRequest" where
  "decode_ExchangeRequest j =
     decode_struct False [''provider'', ''id_token''] set_ExchangeRequest j \<lparr>erq_Provider = '''', erq_IDToken = ''''\<rparr>"

definition set_CreateEventRequest :: "string \<Rightarrow> json \<Rightarrow> CreateEventRequest \<Rightarrow> err + CreateEventRequest" where
  "set_CreateEventRequest n v r =
     (if n = ''name'' then store_with cer_Name (\<lambda>s. cer_Name_update (\<lambda>_. s)) v r
      else store_with cer_Description (\<lambda>s. cer_Description_update (\<lambda>_. s)) v r)"

definition decode_CreateEventRequest :: "json \<Rightarrow> err + CreateEventRequest" where
  "decode_CreateEventRequest j =
     decode_struct False [''name'', ''description''] set_CreateEventRequest j \<lparr>cer_Name = '''', cer_Description = ''''\<rparr>"

definition set_UpdateEventRequest :: "string \<Rightarrow> json \<Rightarrow> UpdateEventRequest \<Rightarrow> err + UpdateEventRequest" where
  "set_UpdateEventRequest n v r =
     (if n = ''name'' then store_with uer_Name (\<lambda>s. uer_Name_update (\<lambda>_. s)) v r
      else store_with uer_Description (\<lambda>s. uer_Description_update (\<lambda>_. s)) v r)"

definition decode_UpdateEventRequest :: "json \<Rightarrow> err + UpdateEventRequest" where
  "decode_UpdateEventRequest j =
     decode_struct False [''name'', ''description''] set_UpdateEventRequest j \<lparr>uer_Name = '''', uer_Description = ''''\<rparr>"

text \<open>The \<open>validate\<close> tags of the request structs.\<close>

definition rules_CreateAgentRequest :: "CreateAgentRequest \<Rightarrow> field_rules list" where
  "rules_CreateAgentRequest r =
     [\<lparr>fr_Field = ''Name'', fr_rules = [(''required'', ''''), (''max'', ''128'')], fr_value = car_Name r\<rparr>]"

definition rules_ExchangeRequest :: "ExchangeRequest \<Rightarrow> field_rules list" where
  "rules_ExchangeRequest r =
     [\<lparr>fr_Field = ''Provider'', fr_rules = [(''required'', ''''), (''oneof'', ''google apple microsoft'')],
       fr_value = erq_Provider r\<rparr>,
      \<lparr>fr_Field = ''IDToken'', fr_rules = [(''required'', '''')], fr_value = erq_IDToken r\<rparr>]"

definition rules_CreateEventRequest :: "CreateEventRequest \<Rightarrow> field_rules list" where
  "rules_CreateEventRequest r =
     [\<lparr>fr_Field = ''Name'', fr_rules = [(''required'', ''''), (''max'', ''128'')], fr_value = cer_Name r\<rparr>,
      \<lparr>fr_Field = ''Description'', fr_rules = [(''max'', ''1024'')], fr_value = cer_Description r\<rparr>]"

definition rules_UpdateEventRequest :: "UpdateEventRequest \<Rightarrow> field_rules list" where
  "rules_UpdateEventRequest r =
     [\<lparr>fr_Field = ''Name'', fr_rules = [(''required'', ''''), (''max'', ''128'')], fr_value = uer_Name r\<rparr>,
      \<lparr>fr_Field = ''Description'', fr_rules = [(''max'', ''1024'')], fr_value = uer_Description r\<rparr>]"

section \<open>Writing responses\<close>

definition WriteJSON :: "nat \<Rightarrow> err + json \<Rightarrow> response" where
  "WriteJSON status payload =
     (case payload of
        Inl e \<Rightarrow> \<lparr>rs_status = 500, rs_body = Some (JSON (JObject [(''error'',
                   JObject [(''code'', JString ''internal''), (''message'', JString ''could not encode response'')])]))\<rparr>
      | Inr body \<Rightarrow> \<lparr>rs_status = status, rs_body = Some (JSON body)\<rparr>)"

fun StatusCode_of :: "kind \<Rightarrow> nat" where
  "StatusCode_of KindNotFound = 404"
| "StatusCode_of KindInvalid = 400"
| "StatusCode_of KindUnauthorized = 401"
| "StatusCode_of KindForbidden = 403"
| "StatusCode_of KindTooMany = 429"
| "StatusCode_of KindInternal = 500"

definition StatusCode :: "err \<Rightarrow> nat" where
  "StatusCode e = StatusCode_of (KindOf e)"

text \<open>\<open>http.StatusText\<close> of the statuses that \<open>StatusCode\<close> gives.\<close>

definition StatusText :: "nat \<Rightarrow> string" where
  "StatusText status =
     (case map_of [(400, ''Bad Request''), (401, ''Unauthorized''), (403, ''Forbidden''), (404, ''Not Found''),
        (429, ''Too Many Requests''), (500, ''Internal Server Error'')] status of None \<Rightarrow> '''' | Some t \<Rightarrow> t)"

record ErrorBody =
  eb_Code :: string
  eb_Message :: string
  eb_Details :: "(string \<times> string) list"

text \<open>A map is marshalled with its keys in order; an empty one is omitted.\<close>

definition marshal_ErrorResponse :: "ErrorBody \<Rightarrow> err + json" where
  "marshal_ErrorResponse b =
     Inr (JObject [(''error'', JObject ([(''code'', JString (eb_Code b)), (''message'', JString (eb_Message b))]
       @ (if eb_Details b = [] then []
          else [(''details'', JObject (map (\<lambda>(k, v). (k, JString v)) (sort_key fst (eb_Details b))))])))])"

definition WriteError :: "err \<Rightarrow> response" where
  "WriteError e =
     (let status = StatusCode e;
          message = (if 500 \<le> status then StatusText status else MessageOf e)
      in WriteJSON status (marshal_ErrorResponse
           \<lparr>eb_Code = kind_string (KindOf e), eb_Message = message, eb_Details = DetailsOf e\<rparr>))"

text \<open>The bytes of the body that reach the client.\<close>

definition written :: "response \<Rightarrow> string" where
  "written rs = (case rs_body rs of None \<Rightarrow> [] | Some (JSON j) \<Rightarrow> json_text j | Some (Text t) \<Rightarrow> t)"

definition NoContent :: response where
  "NoContent = \<lparr>rs_status = 204, rs_body = None\<rparr>"

section \<open>Reading requests\<close>

definition maxBodySize :: nat where "maxBodySize = 2 ^ 20"

text \<open>
  \<open>DecodeJSON\<close>: the first JSON value within the first \<open>maxBodySize\<close> bytes fills the struct, or
  the answer is an error response.
\<close>

definition DecodeJSON :: "request \<Rightarrow> (json \<Rightarrow> err + 'a) \<Rightarrow> response + 'a" where
  "DecodeJSON rq decode =
     (case first_value maxBodySize (rq_body rq) of
        None \<Rightarrow> Inl (WriteError (Invalid ''request body must be valid JSON''))
      | Some j \<Rightarrow> (case decode j of
                     Inl e \<Rightarrow> Inl (WriteError (Invalid ''request body must be valid JSON''))
                   | Inr dst \<Rightarrow> Inr dst))"

definition messageFor :: "FieldError \<Rightarrow> string" where
  "messageFor field =
     (if fe_Tag field = ''required'' then ''is required''
      else if fe_Tag field = ''max'' then ''must be at most '' @ fe_Param field @ '' characters''
      else if fe_Tag field = ''min'' then ''must be at least '' @ fe_Param field @ '' characters''
      else if fe_Tag field = ''oneof'' then ''must be one of '' @ fe_Param field
      else ''is invalid ('' @ fe_Tag field @ '')'')"

fun jsonName :: "string \<Rightarrow> string" where
  "jsonName [] = []"
| "jsonName (c # cs) = lower_char c # cs"

definition validationError :: "validation \<Rightarrow> err" where
  "validationError v =
     (case v of
        InvalidValidation e \<Rightarrow> Invalid (err_text e)
      | ValidationErrors invalid \<Rightarrow>
          WithDetails (Invalid ''request validation failed'')
            (foldl (\<lambda>details field. AList.update (jsonName (fe_Field field)) (messageFor field) details) [] invalid))"

definition bearerToken :: "request \<Rightarrow> string option" where
  "bearerToken rq =
     (let header = TrimSpace (Header_Get (rq_headers rq) ''Authorization'') in
      if header = '''' then None
      else case CutPrefix ''Bearer '' header of
             None \<Rightarrow> None
           | Some raw \<Rightarrow> let raw = TrimSpace raw in if raw = '''' then None else Some raw)"

definition eventURLID :: "http_lib \<Rightarrow> request \<Rightarrow> err + string" where
  "eventURLID L rq =
     (let i = URLParam rq ''id'' in
      if \<not> uuid_Parse L i then Inl (NotFound ''event not found'') else Inr i)"

end
