(* ===== verification/Server.thy ===== *)
theory Server
  imports Http
begin

text \<open>
  The handlers, the middleware and the router (server/internal/transport/http/handler, middleware
  and controller). A handler turns a request into a program that returns the response. The lines
  of the log and the middleware RequestLogger are in theory Logging; the middlewares RequestID,
  Recoverer and Timeout of chi are left out: they do not change the response of a handler that returns
  in time.
\<close>

type_synonym http_handler = "request \<Rightarrow> (world, response) prog"

text \<open>What \<open>WriteError\<close> and an early return, or the rest of a handler, make of a Go result.\<close>

definition reply :: "err + 'a \<Rightarrow> ('a \<Rightarrow> response) \<Rightarrow> (world, response) prog" where
  "reply r ok = Done (case r of Inl e \<Rightarrow> WriteError e | Inr a \<Rightarrow> ok a)"

definition unauthenticated :: response where
  "unauthenticated = WriteError (Unauthorized ''authentication required'')"

section \<open>Events\<close>

definition EventHandler_create :: "http_lib \<Rightarrow> Env \<Rightarrow> EventService \<Rightarrow> http_handler" where
  "EventHandler_create L E svc rq =
     (case DecodeJSON rq decode_CreateEventRequest of
        Inl rs \<Rightarrow> Done rs
      | Inr req \<Rightarrow>
     case validate L (rules_CreateEventRequest req) of
        Some v \<Rightarrow> Done (WriteError (validationError v))
      | None \<Rightarrow>
     case AgentFrom rq of
        None \<Rightarrow> Done unauthenticated
      | Some actor \<Rightarrow>
     pbind (EventService_Create E svc
              \<lparr>Actor_UserID = User_ID (ai_User actor), Actor_AgentID = Agent_ID (ai_Agent actor)\<rparr>
              (CreateEventRequest_ToInput req))
       (\<lambda>r. reply r (\<lambda>event. WriteJSON 201 (marshal_EventResponse (NewEventResponse event)))))"

definition EventHandler_get :: "http_lib \<Rightarrow> EventService \<Rightarrow> http_handler" where
  "EventHandler_get L svc rq =
     (case eventURLID L rq of
        Inl e \<Rightarrow> Done (WriteError e)
      | Inr i \<Rightarrow>
     pbind (EventService_Get svc i)
       (\<lambda>r. reply r (\<lambda>event. WriteJSON 200 (marshal_EventResponse (NewEventResponse event)))))"

definition EventHandler_list :: "EventService \<Rightarrow> http_handler" where
  "EventHandler_list svc rq =
     pbind (EventService_List svc)
       (\<lambda>r. reply r (\<lambda>es. WriteJSON 200 (marshal_array (map marshal_EventResponse (NewEventResponses es)))))"

definition EventHandler_update :: "http_lib \<Rightarrow> Env \<Rightarrow> EventService \<Rightarrow> http_handler" where
  "EventHandler_update L E svc rq =
     (case DecodeJSON rq decode_UpdateEventRequest of
        Inl rs \<Rightarrow> Done rs
      | Inr req \<Rightarrow>
     case validate L (rules_UpdateEventRequest req) of
        Some v \<Rightarrow> Done (WriteError (validationError v))
      | None \<Rightarrow>
     case AgentFrom rq of
        None \<Rightarrow> Done unauthenticated
      | Some actor \<Rightarrow>
     case eventURLID L rq of
        Inl e \<Rightarrow> Done (WriteError e)
      | Inr i \<Rightarrow>
     pbind (EventService_Update E svc
              \<lparr>Actor_UserID = User_ID (ai_User actor), Actor_AgentID = Agent_ID (ai_Agent actor)\<rparr> i
              (UpdateEventRequest_ToInput req))
       (\<lambda>r. reply r (\<lambda>event. WriteJSON 200 (marshal_EventResponse (NewEventResponse event)))))"

definition EventHandler_delete :: "http_lib \<Rightarrow> EventService \<Rightarrow> http_handler" where
  "EventHandler_delete L svc rq =
     (case AgentFrom rq of
        None \<Rightarrow> Done unauthenticated
      | Some actor \<Rightarrow>
     case eventURLID L rq of
        Inl e \<Rightarrow> Done (WriteError e)
      | Inr i \<Rightarrow>
     pbind (EventService_Delete svc
              \<lparr>Actor_UserID = User_ID (ai_User actor), Actor_AgentID = Agent_ID (ai_Agent actor)\<rparr> i)
       (\<lambda>r. reply r (\<lambda>_. NoContent)))"

section \<open>Agents\<close>

definition AgentHandler_create :: "http_lib \<Rightarrow> Env \<Rightarrow> AuthService \<Rightarrow> http_handler" where
  "AgentHandler_create L E svc rq =
     (case UserFrom rq of
        None \<Rightarrow> Done unauthenticated
      | Some identity \<Rightarrow>
     case DecodeJSON rq decode_CreateAgentRequest of
        Inl rs \<Rightarrow> Done rs
      | Inr req \<Rightarrow>
     case validate L (rules_CreateAgentRequest req) of
        Some v \<Rightarrow> Done (WriteError (validationError v))
      | None \<Rightarrow>
     pbind (CreateAgent E svc (User_ID (ui_User identity)) (car_Name req))
       (\<lambda>r. reply r (\<lambda>result. WriteJSON 201 (marshal_CreateAgentResponse
          \<lparr>carp_Agent = NewAgentResponse (ak_Agent result), carp_Key = ak_Key result\<rparr>))))"

definition AgentHandler_list :: "AuthService \<Rightarrow> http_handler" where
  "AgentHandler_list svc rq =
     (case UserFrom rq of
        None \<Rightarrow> Done unauthenticated
      | Some identity \<Rightarrow>
     pbind (ListAgents svc (User_ID (ui_User identity)))
       (\<lambda>r. reply r (\<lambda>found. WriteJSON 200 (marshal_array (map marshal_AgentResponse (NewAgentResponses found))))))"

definition AgentHandler_revoke :: "http_lib \<Rightarrow> Env \<Rightarrow> AuthService \<Rightarrow> http_handler" where
  "AgentHandler_revoke L E svc rq =
     (case UserFrom rq of
        None \<Rightarrow> Done unauthenticated
      | Some identity \<Rightarrow>
     let i = URLParam rq ''id'' in
     if \<not> uuid_Parse L i then Done (WriteError (NotFound ''agent not found''))
     else
     pbind (RevokeAgent E svc (User_ID (ui_User identity)) i) (\<lambda>r. reply r (\<lambda>_. NoContent)))"

section \<open>Sessions\<close>

definition AuthHandler_Exchange :: "http_lib \<Rightarrow> Env \<Rightarrow> AuthService \<Rightarrow> IPNet list \<Rightarrow> http_handler" where
  "AuthHandler_Exchange L E svc trusted rq =
     (case DecodeJSON rq decode_ExchangeRequest of
        Inl rs \<Rightarrow> Done rs
      | Inr req \<Rightarrow>
     case validate L (rules_ExchangeRequest req) of
        Some v \<Rightarrow> Done (WriteError (validationError v))
      | None \<Rightarrow>
     pbind (Exchange E svc
              (ExchangeRequest_ToInput req (clientIP (rq_remoteAddr rq) (rq_headers rq) trusted)))
       (\<lambda>r. reply r (\<lambda>result. WriteJSON 200 (marshal_ExchangeResponse
          \<lparr>erp_Token = xr_Token result, erp_ExpiresAt = xr_ExpiresAt result,
           erp_User = NewUserResponse (xr_User result)\<rparr>))))"

definition AuthHandler_Logout :: "AuthService \<Rightarrow> http_handler" where
  "AuthHandler_Logout svc rq =
     (case UserFrom rq of
        None \<Rightarrow> Done unauthenticated
      | Some identity \<Rightarrow> pbind (RevokeUserToken svc (ui_TokenHash identity)) (\<lambda>r. reply r (\<lambda>_. NoContent)))"

definition AuthHandler_Whoami :: http_handler where
  "AuthHandler_Whoami rq =
     (case AgentFrom rq of
        None \<Rightarrow> Done unauthenticated
      | Some identity \<Rightarrow> Done (WriteJSON 200 (marshal_WhoamiResponse
          \<lparr>wrp_Agent = NewAgentResponse (ai_Agent identity), wrp_User = NewUserResponse (ai_User identity)\<rparr>)))"

section \<open>Middleware\<close>

definition RequireAgent :: "Env \<Rightarrow> AuthService \<Rightarrow> http_handler \<Rightarrow> http_handler" where
  "RequireAgent E svc next_handler rq =
     (case bearerToken rq of
        None \<Rightarrow> Done (WriteError (Unauthorized ''missing agent key, use Authorization: Bearer <agent key>''))
      | Some raw \<Rightarrow>
     pbind (AuthenticateAgent E svc raw) (\<lambda>r. case r of
        Inl e \<Rightarrow> Done (WriteError e)
      | Inr creds \<Rightarrow> next_handler (WithAgent \<lparr>ai_Agent = ac_Agent creds, ai_User = ac_User creds\<rparr> rq)))"

definition RequireUser :: "Env \<Rightarrow> AuthService \<Rightarrow> http_handler \<Rightarrow> http_handler" where
  "RequireUser E svc next_handler rq =
     (case bearerToken rq of
        None \<Rightarrow> Done (WriteError (Unauthorized ''missing user token, use Authorization: Bearer <user token>''))
      | Some raw \<Rightarrow>
     pbind (AuthenticateUser E svc raw) (\<lambda>r. case r of
        Inl e \<Rightarrow> Done (WriteError e)
      | Inr user \<Rightarrow> next_handler (WithUser \<lparr>ui_User = user, ui_TokenHash = HashToken raw\<rparr> rq)))"

section \<open>The router\<close>

text \<open>
  A route is a method, a pattern and its handler. \<open>Route\<close> mounts routes under a prefix and
  \<open>Group_With\<close> puts a middleware before each.
\<close>

record route =
  rt_method :: string
  rt_pattern :: string
  rt_handler :: http_handler

definition on :: "string \<Rightarrow> string \<Rightarrow> http_handler \<Rightarrow> route" where
  "on m p h = \<lparr>rt_method = m, rt_pattern = p, rt_handler = h\<rparr>"

definition Route :: "string \<Rightarrow> route list \<Rightarrow> route list" where
  "Route pre = map (rt_pattern_update (\<lambda>p. pre @ p))"

definition Group_With :: "(http_handler \<Rightarrow> http_handler) \<Rightarrow> route list \<Rightarrow> route list" where
  "Group_With mw = map (rt_handler_update mw)"

record server =
  sv_lib :: http_lib
  sv_env :: Env
  sv_auth :: AuthService
  sv_events :: EventService
  sv_trusted :: "IPNet list"

definition EventHandler_Register :: "server \<Rightarrow> route list" where
  "EventHandler_Register s =
     [on ''POST'' ''/'' (EventHandler_create (sv_lib s) (sv_env s) (sv_events s)),
      on ''GET'' ''/'' (EventHandler_list (sv_events s)),
      on ''GET'' ''/{id}'' (EventHandler_get (sv_lib s) (sv_events s)),
      on ''PUT'' ''/{id}'' (EventHandler_update (sv_lib s) (sv_env s) (sv_events s)),
      on ''DELETE'' ''/{id}'' (EventHandler_delete (sv_lib s) (sv_events s))]"

definition AgentHandler_Register :: "server \<Rightarrow> route list" where
  "AgentHandler_Register s =
     [on ''POST'' ''/'' (AgentHandler_create (sv_lib s) (sv_env s) (sv_auth s)),
      on ''GET'' ''/'' (AgentHandler_list (sv_auth s)),
      on ''DELETE'' ''/{id}'' (AgentHandler_revoke (sv_lib s) (sv_env s) (sv_auth s))]"

definition healthz :: http_handler where
  "healthz rq = Done (WriteJSON 200 (Inr (JObject [(''status'', JString ''ok'')])))"

definition open_routes :: "server \<Rightarrow> route list" where
  "open_routes s =
     on ''GET'' ''/healthz'' healthz
     # Route ''/api/v1'' [on ''POST'' ''/auth/exchange''
          (AuthHandler_Exchange (sv_lib s) (sv_env s) (sv_auth s) (sv_trusted s))]"

definition user_routes :: "server \<Rightarrow> route list" where
  "user_routes s =
     Route ''/api/v1'' (Group_With (RequireUser (sv_env s) (sv_auth s))
       (on ''DELETE'' ''/auth/session'' (AuthHandler_Logout (sv_auth s))
        # Route ''/agents'' (AgentHandler_Register s)))"

definition agent_routes :: "server \<Rightarrow> route list" where
  "agent_routes s =
     Route ''/api/v1'' (Group_With (RequireAgent (sv_env s) (sv_auth s))
       (on ''GET'' ''/auth/whoami'' AuthHandler_Whoami
        # Route ''/events'' (EventHandler_Register s)))"

definition NewRouter :: "server \<Rightarrow> route list" where
  "NewRouter s = open_routes s @ user_routes s @ agent_routes s"

text \<open>
  Serving a request: chi, which the server only calls, is a parameter. For the table of routes and the
  method and path of a request it gives the answer that is its own (404 or 405, for a request without
  a route), the router such a request gets to, and, if there is one, the number of the route and the
  URL parameters. The routers of agents and of events are mounted inside the groups, so their own
  answers, too, come after the middleware of the group. The context of a new request carries no identity.
\<close>

datatype mounted = Nowhere | InAgents | InEvents

type_synonym chi_match =
  "(string \<times> string) list \<Rightarrow> string \<Rightarrow> string \<Rightarrow> response \<times> mounted \<times> (nat \<times> (string \<times> string) list) option"

record http_request =
  hr_method :: string
  hr_path :: string
  hr_headers :: header
  hr_remoteAddr :: string
  hr_body :: string

definition request_of :: "http_request \<Rightarrow> (string \<times> string) list \<Rightarrow> request" where
  "request_of hr params =
     \<lparr>rq_headers = hr_headers hr, rq_remoteAddr = hr_remoteAddr hr, rq_body = hr_body hr,
      rq_params = params, rq_agent = None, rq_user = None\<rparr>"

definition chi_says :: "chi_match \<Rightarrow> server \<Rightarrow> http_request
    \<Rightarrow> response \<times> mounted \<times> (nat \<times> (string \<times> string) list) option" where
  "chi_says chi s hr = chi (map (\<lambda>r. (rt_method r, rt_pattern r)) (NewRouter s)) (hr_method hr) (hr_path hr)"

definition own_answer :: "chi_match \<Rightarrow> server \<Rightarrow> http_request \<Rightarrow> response" where
  "own_answer chi s hr = fst (chi_says chi s hr)"

definition routed :: "chi_match \<Rightarrow> server \<Rightarrow> http_request \<Rightarrow> (route \<times> (string \<times> string) list) option" where
  "routed chi s hr =
     (case snd (snd (chi_says chi s hr)) of
        None \<Rightarrow> None
      | Some (n, params) \<Rightarrow> if n < length (NewRouter s) then Some (NewRouter s ! n, params) else None)"

definition mount_middleware :: "server \<Rightarrow> mounted \<Rightarrow> http_handler \<Rightarrow> http_handler" where
  "mount_middleware s m =
     (case m of
        Nowhere \<Rightarrow> (\<lambda>h. h)
      | InAgents \<Rightarrow> RequireUser (sv_env s) (sv_auth s)
      | InEvents \<Rightarrow> RequireAgent (sv_env s) (sv_auth s))"

definition unrouted :: "chi_match \<Rightarrow> server \<Rightarrow> http_request \<Rightarrow> (world, response) prog" where
  "unrouted chi s hr =
     mount_middleware s (fst (snd (chi_says chi s hr))) (\<lambda>_. Done (own_answer chi s hr)) (request_of hr [])"

definition ServeHTTP :: "chi_match \<Rightarrow> server \<Rightarrow> http_request \<Rightarrow> (world, response) prog" where
  "ServeHTTP chi s hr =
     (case routed chi s hr of
        None \<Rightarrow> unrouted chi s hr
      | Some (r, params) \<Rightarrow> rt_handler r (request_of hr params))"

end
