(* ===== verification/Concurrency.thy ===== *)
theory Concurrency
  imports Prelude
begin

text \<open>
  Requests run concurrently. A configuration is the list of the programs under way and the world
  they share. In one step a new request from the set \<open>P\<close> arrives, or one of the programs performs
  its next atomic action; which, is not determined, so every interleaving is a sequence of steps.
\<close>

inductive pool_step ::
  "('w, 'a) prog set \<Rightarrow> ('w, 'a) prog list \<times> 'w \<Rightarrow> ('w, 'a) prog list \<times> 'w \<Rightarrow> bool" for P where
  arrive: "p \<in> P \<Longrightarrow> pool_step P (ps, w) (ps @ [p], w)"
| act: "i < length ps \<Longrightarrow> ps ! i = Atomic g \<Longrightarrow> g w = (p, w') \<Longrightarrow> pool_step P (ps, w) (ps[i := p], w')"

inductive reaches ::
  "('w, 'a) prog set \<Rightarrow> ('w, 'a) prog list \<times> 'w \<Rightarrow> ('w, 'a) prog list \<times> 'w \<Rightarrow> bool" for P where
  here: "reaches P c c"
| later: "reaches P c d \<Longrightarrow> pool_step P d e \<Longrightarrow> reaches P c e"

inductive_cases pool_stepE: "pool_step P (ps, w) c"

lemma reaches_trans: "reaches P d e \<Longrightarrow> reaches P c d \<Longrightarrow> reaches P c e"
  by (induction rule: reaches.induct) (auto intro: reaches.intros)

text \<open>
  What every action of every program respects, every interleaving respects: programs under way stay
  well-behaved, and the worlds before and after are related by the preorder.
\<close>

lemma pool_step_ok:
  assumes "pool_step P c d" "\<And>p. p \<in> P \<Longrightarrow> prog_ok R Q p" "reflp R" "list_all (prog_ok R Q) (fst c)"
  shows "list_all (prog_ok R Q) (fst d) \<and> R (snd c) (snd d)"
  using assms(1,4)
proof (cases rule: pool_step.cases)
  case (arrive p ps w)
  then show ?thesis using assms(2-4) by (auto dest: reflpD)
next
  case (act i ps g w p w')
  then have "prog_ok R Q (Atomic g)" using assms(4) by (auto simp: list_all_length)
  then have "prog_ok R Q p" "R w w'" using act by (auto simp: prog_ok_Atomic dest: spec[of _ w])
  then show ?thesis using act assms(4)
    by (auto simp: list_all_iff dest: set_update_subset_insert[THEN subsetD])
qed

lemma reaches_ok:
  assumes "reaches P c d" "\<And>p. p \<in> P \<Longrightarrow> prog_ok R Q p" "reflp R" "transp R" "list_all (prog_ok R Q) (fst c)"
  shows "list_all (prog_ok R Q) (fst d) \<and> R (snd c) (snd d)"
  using assms(1,5)
proof (induction rule: reaches.induct)
  case (here c)
  then show ?case using assms(3) by (auto dest: reflpD)
next
  case (later c d e)
  then show ?case using pool_step_ok[OF later(2) assms(2,3)] assms(4) by (auto dest: transpD)
qed

text \<open>The results of the programs that have finished satisfy \<open>Q\<close>.\<close>

lemma reaches_results:
  assumes "reaches P ([], w) (ps, w')" "\<And>p. p \<in> P \<Longrightarrow> prog_ok R Q p" "reflp R" "transp R"
  shows "R w w' \<and> (\<forall>a. Done a \<in> set ps \<longrightarrow> Q a)"
  using reaches_ok[OF assms] by (auto simp: list_all_iff)

text \<open>A program run alone is one of the interleavings.\<close>

lemma reaches_run:
  assumes "i < length ps"
  shows "reaches P (ps, w) (ps[i := Done (fst (run (ps ! i) w))], snd (run (ps ! i) w))"
proof -
  have "reaches P (ps[i := p], w) (ps[i := Done (fst (run p w))], snd (run p w))" for p w
  proof (induction p arbitrary: w rule: prog_induct)
    case (Done a)
    then show ?case by (simp add: reaches.here)
  next
    case (Atomic g)
    have "pool_step P (ps[i := Atomic g], w) (ps[i := fst (g w)], snd (g w))"
      using pool_step.act[of i "ps[i := Atomic g]" g w "fst (g w)" "snd (g w)" P] assms by simp
    then have "reaches P (ps[i := Atomic g], w) (ps[i := fst (g w)], snd (g w))"
      by (blast intro: reaches.intros)
    then show ?case using reaches_trans[OF Atomic.IH[of w "snd (g w)"]]
      by (simp add: run_Atomic case_prod_unfold)
  qed
  from this[of "ps ! i" w] show ?thesis by simp
qed

section \<open>Programs that end\<close>

text \<open>
  \<open>at_most p n\<close>: whatever happens between its actions, the program performs at most \<open>n\<close> actions.
\<close>

primrec at_most :: "('w, 'a) prog \<Rightarrow> nat \<Rightarrow> bool" where
  "at_most (Done a) = (\<lambda>n. True)"
| "at_most (Atomic g) = (\<lambda>n. 0 < n \<and> (\<forall>w. (\<lambda>(rest, w'). rest (n - 1)) (map_prod at_most id (g w))))"

named_theorems at_most_intros \<open>introduction rules for the number of actions\<close>

lemma at_most_Atomic: "at_most (Atomic g) n \<longleftrightarrow> 0 < n \<and> (\<forall>w. at_most (fst (g w)) (n - 1))"
  by (simp add: case_prod_unfold)

declare at_most.simps(2) [simp del]

lemma at_most_mono: "at_most p n \<Longrightarrow> n \<le> m \<Longrightarrow> at_most p m"
proof (induction p arbitrary: n m rule: prog_induct)
  case (Atomic g)
  then show ?case by (auto simp: at_most_Atomic intro: diff_le_mono)
qed simp

lemma at_most_Done [at_most_intros]: "at_most (Done a) n"
  by simp

lemma at_most_pbind: "at_most p n \<Longrightarrow> (\<And>a. at_most (f a) m) \<Longrightarrow> at_most (pbind p f) (n + m)"
proof (induction p arbitrary: n rule: prog_induct)
  case (Done a)
  then show ?case using at_most_mono[of "f a" m "n + m"] by simp
next
  case (Atomic g)
  have "at_most (pbind (fst (g w)) f) (n - 1 + m)" for w
    using Atomic.IH[of w "n - 1"] Atomic.prems by (simp add: at_most_Atomic)
  then show ?case using Atomic.prems by (auto simp: at_most_Atomic)
qed

lemma at_most_atomic [at_most_intros]: "at_most (atomic f) (Suc n)"
  by (simp add: atomic_def at_most_Atomic)

lemma at_most_first [at_most_intros]: "(\<And>a. at_most (f a) n) \<Longrightarrow> at_most (pbind (atomic g) f) (Suc n)"
  using at_most_pbind[of "atomic g" 1 f n] at_most_atomic[of g 0] by simp

lemma pbind_assoc: "pbind (pbind p f) g = pbind p (\<lambda>a. pbind (f a) g)"
proof (induction p rule: prog_induct)
  case (Atomic h)
  have "map_prod (\<lambda>p. pbind p g) id (map_prod (\<lambda>p. pbind p f) id (h w))
      = map_prod (\<lambda>p. pbind p (\<lambda>a. pbind (f a) g)) id (h w)" for w
    using Atomic by (cases "h w") (simp add: prod_eq_iff, metis fst_conv)
  then show ?case by simp
qed simp

lemma at_most_assoc [at_most_intros]: "at_most (pbind p (\<lambda>a. pbind (f a) g)) n \<Longrightarrow> at_most (pbind (pbind p f) g) n"
  by (simp add: pbind_assoc)

lemma at_most_pure [at_most_intros]: "at_most (f a) n \<Longrightarrow> at_most (pbind (Done a) f) n"
  by simp

lemma at_most_sum [at_most_intros]:
  "(\<And>e. at_most (p e) n) \<Longrightarrow> (\<And>a. at_most (q a) n) \<Longrightarrow> at_most (case x of Inl e \<Rightarrow> p e | Inr a \<Rightarrow> q a) n"
  "(\<And>e. at_most (pbind (p e) f) n) \<Longrightarrow> (\<And>a. at_most (pbind (q a) f) n) \<Longrightarrow>
     at_most (pbind (case x of Inl e \<Rightarrow> p e | Inr a \<Rightarrow> q a) f) n"
  by (cases x; simp)+

lemma at_most_option [at_most_intros]:
  "at_most p n \<Longrightarrow> (\<And>a. at_most (q a) n) \<Longrightarrow> at_most (case x of None \<Rightarrow> p | Some a \<Rightarrow> q a) n"
  "at_most (pbind p f) n \<Longrightarrow> (\<And>a. at_most (pbind (q a) f) n) \<Longrightarrow>
     at_most (pbind (case x of None \<Rightarrow> p | Some a \<Rightarrow> q a) f) n"
  by (cases x; simp)+

lemma at_most_prod [at_most_intros]:
  "(\<And>a b. at_most (p a b) n) \<Longrightarrow> at_most (case x of (a, b) \<Rightarrow> p a b) n"
  "(\<And>a b. at_most (pbind (p a b) f) n) \<Longrightarrow> at_most (pbind (case x of (a, b) \<Rightarrow> p a b) f) n"
  by (cases x; simp)+

lemma at_most_if [at_most_intros]:
  "at_most p n \<Longrightarrow> at_most q n \<Longrightarrow> at_most (if b then p else q) n"
  "at_most (pbind p f) n \<Longrightarrow> at_most (pbind q f) n \<Longrightarrow> at_most (pbind (if b then p else q) f) n"
  by simp_all

lemma at_most_let [at_most_intros]: "at_most (f x) n \<Longrightarrow> at_most (let y = x in f y) n"
  by simp

text \<open>
  If no more requests arrive, the actions of a pool of programs that end are as many as their bounds
  allow, and a pool is at rest only when every program has returned.
\<close>

lemma pool_ends:
  assumes "list_all2 at_most ps ns" "(pool_step {} ^^ k) (ps, w) c"
  shows "k \<le> sum_list ns"
  using assms
proof (induction k arbitrary: ps ns w)
  case (Suc k)
  obtain d where d: "pool_step {} (ps, w) d" "(pool_step {} ^^ k) d c"
    using relpowp_Suc_D2[OF Suc.prems(2)] by blast
  then obtain i g p w' where i: "i < length ps" "ps ! i = Atomic g" "g w = (p, w')" "d = (ps[i := p], w')"
    by (auto elim: pool_stepE)
  have l: "i < length ns" "at_most (Atomic g) (ns ! i)"
    using Suc.prems(1) i by (auto dest: list_all2_nthD list_all2_lengthD)
  then have n: "0 < ns ! i" "at_most p (ns ! i - 1)" using i(3) by (auto simp: at_most_Atomic dest: spec[of _ w])
  then have "list_all2 at_most (ps[i := p]) (ns[i := ns ! i - 1])"
    using Suc.prems(1) by (intro list_all2_update_cong) simp_all
  then have "k \<le> sum_list (ns[i := ns ! i - 1])" using Suc.IH d(2) i(4) by blast
  moreover have "ns ! i \<le> sum_list ns" using l(1) by (intro member_le_sum_list) simp_all
  ultimately show ?case using n(1) l(1) by (simp add: sum_list_update)
qed simp

lemma pool_rests: "(\<nexists>c. pool_step {} (ps, w) c) \<longleftrightarrow> (\<forall>p \<in> set ps. \<exists>a. p = Done a)"
proof
  assume rest: "\<nexists>c. pool_step {} (ps, w) c"
  show "\<forall>p \<in> set ps. \<exists>a. p = Done a"
  proof
    fix p assume "p \<in> set ps"
    then obtain i where i: "i < length ps" "ps ! i = p" by (auto simp: in_set_conv_nth)
    show "\<exists>a. p = Done a"
    proof (cases p)
      case (Atomic g)
      then have "pool_step {} (ps, w) (ps[i := fst (g w)], snd (g w))"
        using i by (intro pool_step.act[of i ps g]) auto
      then show ?thesis using rest by blast
    qed simp
  qed
next
  assume "\<forall>p \<in> set ps. \<exists>a. p = Done a"
  then show "\<nexists>c. pool_step {} (ps, w) c" by (metis nth_mem pool_stepE prog.distinct(1) empty_iff)
qed

text \<open>What arrives ends within a bound, so does what is under way.\<close>

lemma pool_step_at_most:
  assumes "pool_step P c d" "\<And>p. p \<in> P \<Longrightarrow> at_most p n" "list_all (\<lambda>p. at_most p n) (fst c)"
  shows "list_all (\<lambda>p. at_most p n) (fst d)"
  using assms
proof (cases rule: pool_step.cases)
  case (act i ps g w p w')
  then have "at_most (Atomic g) n" using assms(3) by (auto simp: list_all_length)
  then have "at_most p (n - 1)" using act by (auto simp: at_most_Atomic dest: spec[of _ w])
  then have "at_most p n" by (rule at_most_mono) simp
  then show ?thesis using act assms(3) by (auto simp: list_all_iff dest: set_update_subset_insert[THEN subsetD])
qed auto

lemma reaches_at_most:
  assumes "reaches P c d" "\<And>p. p \<in> P \<Longrightarrow> at_most p n" "list_all (\<lambda>p. at_most p n) (fst c)"
  shows "list_all (\<lambda>p. at_most p n) (fst d)"
  using assms(1,3) by (induction rule: reaches.induct) (auto dest: pool_step_at_most[OF _ assms(2)])

lemma pool_terminates:
  assumes "reaches P ([], w) (ps, w1)" "\<And>p. p \<in> P \<Longrightarrow> at_most p n" "(pool_step {} ^^ k) (ps, w1) c"
  shows "k \<le> n * length ps"
proof -
  have "list_all (\<lambda>p. at_most p n) ps" using reaches_at_most[OF assms(1,2)] by simp
  then have "list_all2 at_most ps (replicate (length ps) n)" by (simp add: list_all2_conv_all_nth list_all_length)
  then show ?thesis using pool_ends[OF _ assms(3)] by (fastforce simp: sum_list_replicate mult.commute)
qed

end
