(* ===== verification/UseCases.thy ===== *)
theory UseCases
  imports EventService Concurrency
begin

text \<open>
  Whatever relation between worlds the methods of the interfaces respect, action by action, the use
  cases respect: the locale \<open>respected\<close> is used once for the invariant and the evolution of the
  database and once for the limit of agents.
\<close>

lemma prog_ok_trivial: "prog_ok (\<lambda>_ _. True) (\<lambda>_. True) p"
  by (induction p rule: prog_induct) (auto simp: prog_ok_Atomic)

text \<open>A law with a hypothesis \<open>H\<close> on the parameters, as a law without one.\<close>

lemma prog_ok_when:
  assumes "H \<Longrightarrow> prog_ok R Q p"
  shows "prog_ok (\<lambda>w w'. H \<longrightarrow> R w w') (\<lambda>a. H \<longrightarrow> Q a) p"
proof (cases H)
  case True
  then show ?thesis using assms by simp
next
  case False
  then show ?thesis using prog_ok_trivial by simp
qed

lemma prog_ok_weaken:
  assumes "prog_ok R Q p" "\<And>w w'. R w w' \<Longrightarrow> R' w w'" "\<And>a. Q a \<Longrightarrow> Q' a"
  shows "prog_ok R' Q' p"
  using assms(1) by (induction p rule: prog_induct) (auto simp: prog_ok_Atomic assms(2,3))

text \<open>
  \<open>respected_access\<close> is for the use cases that create or revoke no agent, \<open>respected_auth\<close> for all of
  authentication, \<open>respected_use\<close> for the first and the events, \<open>respected\<close> for everything.
\<close>

locale respected_access =
  fixes R :: "world \<Rightarrow> world \<Rightarrow> bool" and E :: Env and asvc :: AuthService and good :: "time \<Rightarrow> bool"
  assumes r_now: "prog_ok R good (time_Now E)"
    and r_uuid: "prog_ok R (\<lambda>_. True) (uuid_NewString E)"
    and r_rand: "prog_ok R (\<lambda>_. True) (rand_Read E)"
    and r_auth_limiter: "prog_ok R (\<lambda>_. True) (as_limiter asvc key action)"
    and r_verifier: "prog_ok R (\<lambda>_. True) (as_verifier asvc provider idToken)"
    and r_upsert: "prog_ok R (\<lambda>_. True) (ur_UpsertByIdentity (as_users asvc) p s m)"
    and r_get_user: "prog_ok R (\<lambda>_. True) (ur_Get (as_users asvc) i)"
    and r_create_token: "prog_ok R (\<lambda>_. True) (tr_Create (as_tokens asvc) t)"
    and r_get_token: "prog_ok R (\<lambda>_. True) (tr_GetByHash (as_tokens asvc) h)"
    and r_delete_token: "prog_ok R (\<lambda>_. True) (tr_DeleteByHash (as_tokens asvc) h)"
    and r_get_agent: "prog_ok R (\<lambda>_. True) (ar_Get (as_agents asvc) i)"
    and r_get_by_key: "prog_ok R (\<lambda>_. True) (ar_GetByKeyHash (as_agents asvc) h)"
    and r_list_agents: "prog_ok R (\<lambda>_. True) (ar_ListByUser (as_agents asvc) i)"
    and r_touch_agent: "prog_ok R (\<lambda>_. True) (ar_TouchLastUsed (as_agents asvc) i at)"
begin

lemmas auth_laws = r_uuid r_rand r_auth_limiter r_verifier r_upsert r_get_user r_create_token
  r_get_token r_delete_token r_get_agent r_get_by_key r_list_agents r_touch_agent

lemma token_ok: "prog_ok R (\<lambda>_. True) (newToken E pre)"
  unfolding newToken_def by (rule prog_ok_pbind[OF r_rand]) (rule prog_ok_Done, simp)

lemma id_ok: "prog_ok R (\<lambda>_. True) (newID E)"
  unfolding newID_def by (rule r_uuid)

lemmas auth_binds = auth_laws[THEN prog_ok_pbind] token_ok[THEN prog_ok_pbind] id_ok[THEN prog_ok_pbind]
  r_now[THEN prog_ok_pbind]

lemma Exchange_ok: "prog_ok R (\<lambda>_. True) (Exchange E asvc inp)"
  unfolding Exchange_def by (intro ok_intros auth_binds TrueI)

lemma AuthenticateUser_ok: "prog_ok R (\<lambda>_. True) (AuthenticateUser E asvc raw)"
  unfolding AuthenticateUser_def by (intro ok_intros auth_binds TrueI)

lemma RevokeUserToken_ok: "prog_ok R (\<lambda>_. True) (RevokeUserToken asvc h)"
  unfolding RevokeUserToken_def by (intro ok_intros auth_binds TrueI)

lemma AuthenticateAgent_ok: "prog_ok R (\<lambda>_. True) (AuthenticateAgent E asvc raw)"
proof -
  have touch: "prog_ok R (\<lambda>_. True) (if b then ar_TouchLastUsed (as_agents asvc) i at else Done (Inr ()))" for b i at
    by (simp add: r_touch_agent)
  show ?thesis
    unfolding AuthenticateAgent_def by (intro ok_intros auth_binds touch[THEN prog_ok_pbind] TrueI)
qed

lemma ListAgents_ok: "prog_ok R (\<lambda>_. True) (ListAgents asvc userID)"
  unfolding ListAgents_def by (intro ok_intros auth_binds TrueI)

lemmas access_ok = Exchange_ok AuthenticateUser_ok RevokeUserToken_ok AuthenticateAgent_ok ListAgents_ok

end

locale respected_auth = respected_access R E asvc good
  for R :: "world \<Rightarrow> world \<Rightarrow> bool" and E :: Env and asvc :: AuthService and good :: "time \<Rightarrow> bool" +
  assumes r_create_agent: "\<not> Revoked a \<Longrightarrow>
      prog_ok R (\<lambda>_. True) (ar_CreateIfUnderLimit (as_agents asvc) a (MaxAgentsPerUser (as_config asvc)))"
    and r_revoke_agent: "good at \<Longrightarrow> prog_ok R (\<lambda>_. True) (ar_Revoke (as_agents asvc) i at)"
begin

lemma CreateAgent_ok: "prog_ok R (\<lambda>_. True) (CreateAgent E asvc userID name)"
  unfolding CreateAgent_def
  by (intro ok_intros auth_binds r_create_agent[THEN prog_ok_pbind] TrueI) (simp add: Revoked_def IsZero_def)

lemma RevokeAgent_ok: "prog_ok R (\<lambda>_. True) (RevokeAgent E asvc userID i)"
  unfolding RevokeAgent_def by (intro ok_intros auth_binds r_revoke_agent[THEN prog_ok_pbind] TrueI)

lemmas manage_ok = CreateAgent_ok RevokeAgent_ok

end

locale respected_use = respected_access R E asvc good
  for R :: "world \<Rightarrow> world \<Rightarrow> bool" and E :: Env and asvc :: AuthService and good :: "time \<Rightarrow> bool" +
  fixes esvc :: EventService
  assumes r_event_limiter: "prog_ok R (\<lambda>_. True) (es_limiter esvc key action)"
    and r_save: "prog_ok R (\<lambda>_. True) (er_Save (es_repo esvc) e)"
    and r_get_event: "prog_ok R (\<lambda>_. True) (er_Get (es_repo esvc) i)"
    and r_list_events: "prog_ok R (\<lambda>_. True) (er_List (es_repo esvc))"
    and r_update: "prog_ok R (\<lambda>_. True) (er_Update (es_repo esvc) e)"
    and r_delete: "prog_ok R (\<lambda>_. True) (er_Delete (es_repo esvc) i)"
begin

lemmas event_laws = r_event_limiter r_save r_get_event r_list_events r_update r_delete

lemmas event_binds = event_laws[THEN prog_ok_pbind] id_ok[THEN prog_ok_pbind] r_now[THEN prog_ok_pbind]

lemma Create_ok: "prog_ok R (\<lambda>_. True) (EventService_Create E esvc actor ci)"
  unfolding EventService_Create_def by (intro ok_intros event_binds TrueI)

lemma Get_ok: "prog_ok R (\<lambda>_. True) (EventService_Get esvc i)"
  unfolding EventService_Get_def by (intro ok_intros event_binds TrueI)

lemma List_ok: "prog_ok R (\<lambda>_. True) (EventService_List esvc)"
  unfolding EventService_List_def by (intro ok_intros event_binds TrueI)

lemma Update_ok: "prog_ok R (\<lambda>_. True) (EventService_Update E esvc actor i ui)"
  unfolding EventService_Update_def by (intro ok_intros event_binds TrueI)

lemma Delete_ok: "prog_ok R (\<lambda>_. True) (EventService_Delete esvc actor i)"
  unfolding EventService_Delete_def by (intro ok_intros event_binds TrueI)

lemmas events_ok = Create_ok Get_ok List_ok Update_ok Delete_ok

end

locale respected = respected_auth R E asvc good + respected_use R E asvc good esvc
  for R :: "world \<Rightarrow> world \<Rightarrow> bool" and E :: Env and asvc :: AuthService and good :: "time \<Rightarrow> bool"
    and esvc :: EventService

end
