(* ===== verification/Responses.thy ===== *)
theory Responses
  imports Server UseCases
begin

text \<open>
  What every response of the server satisfies, whatever the services behind the handlers do, and
  that the handlers respect every law the use cases respect (an extension of the locale
  \<open>respected\<close>).
\<close>

section \<open>Laws of the handlers\<close>

lemma ok_reply [ok_intros]: "prog_ok R (\<lambda>_. True) (reply r ok)"
  by (simp add: reply_def)

context respected_access
begin

lemmas access_rules = access_ok[THEN prog_ok_pbind]

lemma AgentHandler_list_ok: "prog_ok R (\<lambda>_. True) (AgentHandler_list asvc rq)"
  unfolding AgentHandler_list_def by (intro ok_intros access_rules TrueI)

lemma AuthHandlers_ok:
  "prog_ok R (\<lambda>_. True) (AuthHandler_Exchange L E asvc trusted rq)" "prog_ok R (\<lambda>_. True) (AuthHandler_Logout asvc rq)"
  "prog_ok R (\<lambda>_. True) (AuthHandler_Whoami rq)" "prog_ok R (\<lambda>_. True) (healthz rq)"
  unfolding AuthHandler_Exchange_def AuthHandler_Logout_def AuthHandler_Whoami_def healthz_def
  by (intro ok_intros access_rules TrueI)+

lemma Middleware_ok:
  assumes "\<And>rq. prog_ok R (\<lambda>_. True) (h rq)"
  shows "prog_ok R (\<lambda>_. True) (RequireAgent E asvc h rq)" "prog_ok R (\<lambda>_. True) (RequireUser E asvc h rq)"
  unfolding RequireAgent_def RequireUser_def by (intro ok_intros access_rules assms TrueI)+

end

context respected_auth
begin

lemmas manage_rules = manage_ok[THEN prog_ok_pbind]

lemma AgentHandlers_ok:
  "prog_ok R (\<lambda>_. True) (AgentHandler_create L E asvc rq)" "prog_ok R (\<lambda>_. True) (AgentHandler_list asvc rq)"
  "prog_ok R (\<lambda>_. True) (AgentHandler_revoke L E asvc rq)"
  unfolding AgentHandler_create_def AgentHandler_revoke_def
  by (intro ok_intros manage_rules AgentHandler_list_ok TrueI)+

end

context respected_use
begin

lemmas event_rules = events_ok[THEN prog_ok_pbind]

lemma EventHandlers_ok:
  "prog_ok R (\<lambda>_. True) (EventHandler_create L E esvc rq)" "prog_ok R (\<lambda>_. True) (EventHandler_get L esvc rq)"
  "prog_ok R (\<lambda>_. True) (EventHandler_list esvc rq)" "prog_ok R (\<lambda>_. True) (EventHandler_update L E esvc rq)"
  "prog_ok R (\<lambda>_. True) (EventHandler_delete L esvc rq)"
  unfolding EventHandler_create_def EventHandler_get_def EventHandler_list_def EventHandler_update_def
    EventHandler_delete_def
  by (intro ok_intros event_rules TrueI)+

end

section \<open>The routes of the table\<close>

lemma routes_cases:
  assumes "r \<in> set (NewRouter s)"
  obtains (healthz) "rt_handler r = healthz"
  | (exchange) "rt_handler r = AuthHandler_Exchange (sv_lib s) (sv_env s) (sv_auth s) (sv_trusted s)"
  | (user) h where "rt_handler r = RequireUser (sv_env s) (sv_auth s) h" "r \<in> set (user_routes s)"
      "h \<in> {AuthHandler_Logout (sv_auth s), AgentHandler_create (sv_lib s) (sv_env s) (sv_auth s),
            AgentHandler_list (sv_auth s), AgentHandler_revoke (sv_lib s) (sv_env s) (sv_auth s)}"
  | (agent) h where "rt_handler r = RequireAgent (sv_env s) (sv_auth s) h" "r \<in> set (agent_routes s)"
      "h \<in> {AuthHandler_Whoami, EventHandler_create (sv_lib s) (sv_env s) (sv_events s),
            EventHandler_list (sv_events s), EventHandler_get (sv_lib s) (sv_events s),
            EventHandler_update (sv_lib s) (sv_env s) (sv_events s), EventHandler_delete (sv_lib s) (sv_events s)}"
proof -
  from assms consider "r \<in> set (open_routes s)" | "r \<in> set (user_routes s)" | "r \<in> set (agent_routes s)"
    by (auto simp: NewRouter_def)
  then show ?thesis
  proof cases
    case 1
    then show ?thesis using that(1,2) by (auto simp: open_routes_def Route_def on_def)
  next
    case 2
    then show ?thesis using that(3)
      by (auto simp: user_routes_def Route_def Group_With_def AgentHandler_Register_def on_def)
  next
    case 3
    then show ?thesis using that(4)
      by (auto simp: agent_routes_def Route_def Group_With_def EventHandler_Register_def on_def)
  qed
qed

lemma serve_cases:
  obtains (chi) m where "routed chi s hr = None"
      "ServeHTTP chi s hr = mount_middleware s m (\<lambda>_. Done (own_answer chi s hr)) (request_of hr [])"
  | (route) r params where "r \<in> set (NewRouter s)" "ServeHTTP chi s hr = rt_handler r (request_of hr params)"
proof (cases "routed chi s hr")
  case None
  then show ?thesis by (intro chi) (simp_all add: ServeHTTP_def unrouted_def)
next
  case (Some p)
  then show ?thesis
    by (intro route[of "fst p" "snd p"]) (auto simp: ServeHTTP_def routed_def case_prod_unfold split: option.splits if_splits)
qed

text \<open>What serving a request comes to; behind a middleware may also be an answer of chi's own.\<close>

lemma serve_shape:
  obtains (plain) rs where "ServeHTTP chi s hr = Done rs"
  | (exchange) ps where "ServeHTTP chi s hr =
      AuthHandler_Exchange (sv_lib s) (sv_env s) (sv_auth s) (sv_trusted s) (request_of hr ps)"
  | (user) h ps where "ServeHTTP chi s hr = RequireUser (sv_env s) (sv_auth s) h (request_of hr ps)"
      "h \<in> {\<lambda>_. Done (own_answer chi s hr), AuthHandler_Logout (sv_auth s),
        AgentHandler_create (sv_lib s) (sv_env s) (sv_auth s), AgentHandler_list (sv_auth s),
        AgentHandler_revoke (sv_lib s) (sv_env s) (sv_auth s)}"
  | (agent) h ps where "ServeHTTP chi s hr = RequireAgent (sv_env s) (sv_auth s) h (request_of hr ps)"
      "h \<in> {\<lambda>_. Done (own_answer chi s hr), AuthHandler_Whoami,
        EventHandler_create (sv_lib s) (sv_env s) (sv_events s), EventHandler_list (sv_events s),
        EventHandler_get (sv_lib s) (sv_events s), EventHandler_update (sv_lib s) (sv_env s) (sv_events s),
        EventHandler_delete (sv_lib s) (sv_events s)}"
proof (cases rule: serve_cases[of chi s hr])
  case (chi m)
  then show ?thesis using plain user agent by (cases m) (auto simp: mount_middleware_def)
next
  case (route r params)
  from route(1) show ?thesis
  proof (cases rule: routes_cases)
    case healthz
    then show ?thesis using plain route(2) by (simp add: healthz_def)
  next
    case exchange': exchange
    then show ?thesis using exchange route(2) by simp
  next
    case (user h)
    then show ?thesis using that(3)[of h params] route(2) by auto
  next
    case (agent h)
    then show ?thesis using that(4)[of h params] route(2) by auto
  qed
qed

lemma serve_ok:
  assumes "\<And>r rq. r \<in> set (NewRouter s) \<Longrightarrow> prog_ok R Q (rt_handler r rq)"
    and "\<And>m rq. routed chi s hr = None \<Longrightarrow> prog_ok R Q (mount_middleware s m (\<lambda>_. Done (own_answer chi s hr)) rq)"
  shows "prog_ok R Q (ServeHTTP chi s hr)"
  by (cases rule: serve_cases[of chi s hr]) (simp_all add: assms)

section \<open>What errors show\<close>

text \<open>Errors that carry no details beside an internal kind: the only ones the server builds.\<close>

definition clean :: "err \<Rightarrow> bool" where
  "clean e \<longleftrightarrow> (KindOf e = KindInternal \<longrightarrow> DetailsOf e = [])"

definition tidy :: "err + 'a \<Rightarrow> bool" where
  "tidy r \<longleftrightarrow> (case r of Inl e \<Rightarrow> clean e | Inr a \<Rightarrow> True)"

definition internal_error :: response where
  "internal_error = \<lparr>rs_status = 500, rs_body = Some (JSON (JObject [(''error'',
     JObject [(''code'', JString ''internal''), (''message'', JString ''Internal Server Error'')])]))\<rparr>"

definition encoding_error :: response where
  "encoding_error = \<lparr>rs_status = 500, rs_body = Some (JSON (JObject [(''error'',
     JObject [(''code'', JString ''internal''), (''message'', JString ''could not encode response'')])]))\<rparr>"

definition decent :: "response \<Rightarrow> bool" where
  "decent rs \<longleftrightarrow> rs_status rs \<in> {200, 201, 204, 400, 401, 403, 404, 429, 500}
     \<and> (rs_status rs = 500 \<longrightarrow> rs = internal_error \<or> rs = encoding_error)
     \<and> (rs_status rs = 204 \<longrightarrow> rs_body rs = None)
     \<and> (case rs_body rs of None \<Rightarrow> True | Some (JSON j) \<Rightarrow> shallow 4 j | Some (Text t) \<Rightarrow> False)"

text \<open>What can be marshalled has no numbers and is nested at most so deep.\<close>

definition sendable :: "nat \<Rightarrow> err + json \<Rightarrow> bool" where
  "sendable d r \<longleftrightarrow> (case r of Inl e \<Rightarrow> True | Inr j \<Rightarrow> shallow d j)"

lemma sendable_string [simp]: "sendable d (json_string s)" "sendable d (Inr (JString s))"
  by (simp_all add: sendable_def json_string_def)

lemma sendable_time [simp]: "sendable d (Time_MarshalJSON t)"
  by (simp add: sendable_def Time_MarshalJSON_def Let_def split: prod.split)

lemma sendable_mono: "sendable d r \<Longrightarrow> d \<le> e \<Longrightarrow> sendable e r"
  by (auto simp: sendable_def split: sum.splits intro: shallow_mono)

lemma sendable_struct:
  "list_all (\<lambda>(k, r). sendable d r) fs \<Longrightarrow> sendable (Suc d) (marshal_struct fs)"
proof -
  assume "list_all (\<lambda>(k, r). sendable d r) fs"
  then have "marshal_fields fs = Inr kvs \<Longrightarrow> list_all (\<lambda>(k, v). shallow d v) kvs" for kvs
    by (induction fs arbitrary: kvs rule: marshal_fields.induct) (auto simp: sendable_def split: sum.splits)
  then show ?thesis by (auto simp: marshal_struct_def sendable_def split: sum.split)
qed

lemma sendable_array: "list_all (sendable d) rs \<Longrightarrow> sendable (Suc d) (marshal_array rs)"
proof -
  assume "list_all (sendable d) rs"
  then have "marshal_list rs = Inr vs \<Longrightarrow> list_all (shallow d) vs" for vs
    by (induction rs arbitrary: vs rule: marshal_list.induct) (auto simp: sendable_def split: sum.splits)
  then show ?thesis by (auto simp: marshal_array_def sendable_def split: sum.split)
qed

lemma sendable_fields [simp]: "list_all (\<lambda>(k, r). sendable d r) (omit_empty k t)"
  by (simp add: omit_empty_def split: option.split)

lemma sendable_objects:
  "sendable 1 (marshal_AgentResponse a)" "sendable 1 (marshal_UserResponse u)" "sendable 1 (marshal_EventResponse e)"
  unfolding marshal_AgentResponse_def marshal_UserResponse_def marshal_EventResponse_def One_nat_def
  by (rule sendable_struct; simp)+

lemmas sendable_object = sendable_objects[THEN sendable_mono]

lemma sendable_responses [simp]:
  "sendable 4 (marshal_AgentResponse a)" "sendable 4 (marshal_UserResponse u)" "sendable 4 (marshal_EventResponse e)"
  "sendable 4 (marshal_CreateAgentResponse c)" "sendable 4 (marshal_WhoamiResponse i)"
  "sendable 4 (marshal_ExchangeResponse x)"
  "sendable 4 (marshal_array (map marshal_AgentResponse as))" "sendable 4 (marshal_array (map marshal_EventResponse es))"
proof -
  have [simp]: "sendable 3 (marshal_AgentResponse a)" "sendable 3 (marshal_UserResponse u)" "sendable 3 (marshal_EventResponse e)"
    for a u e by (simp_all add: sendable_object)
  have s: "list_all (\<lambda>(k, r). sendable 3 r) fs \<Longrightarrow> sendable 4 (marshal_struct fs)" for fs
    using sendable_struct[of 3 fs] by (simp add: eval_nat_numeral)
  have r: "list_all (sendable 3) rs \<Longrightarrow> sendable 4 (marshal_array rs)" for rs
    using sendable_array[of 3 rs] by (simp add: eval_nat_numeral)
  show "sendable 4 (marshal_AgentResponse a)" "sendable 4 (marshal_UserResponse u)" "sendable 4 (marshal_EventResponse e)"
    by (simp_all add: sendable_object)
  show "sendable 4 (marshal_CreateAgentResponse c)" "sendable 4 (marshal_WhoamiResponse i)" "sendable 4 (marshal_ExchangeResponse x)"
    unfolding marshal_CreateAgentResponse_def marshal_WhoamiResponse_def marshal_ExchangeResponse_def
    by (rule s; simp)+
  show "sendable 4 (marshal_array (map marshal_AgentResponse as))" "sendable 4 (marshal_array (map marshal_EventResponse es))"
    by (rule r; simp add: list_all_iff)+
qed

lemma clean_simps [simp]:
  "clean (Wrap e m)" "clean (NotFound m)" "clean (Invalid m)" "clean (Unauthorized m)" "clean (Forbidden m)"
  "clean (TooMany m)" "clean (WithDetails (Invalid m) ds)" "clean (validationError v)"
  by (simp_all add: clean_def validationError_def split: validation.splits)

lemma tidy_simps [simp]: "tidy (Inr a)" "tidy (Inl e) \<longleftrightarrow> clean e"
  by (simp_all add: tidy_def)

lemma WriteError_eq:
  "WriteError e = (if KindOf e = KindInternal
     then WriteJSON 500 (marshal_ErrorResponse
       \<lparr>eb_Code = ''internal'', eb_Message = ''Internal Server Error'', eb_Details = DetailsOf e\<rparr>)
     else WriteJSON (StatusCode_of (KindOf e)) (marshal_ErrorResponse
       \<lparr>eb_Code = kind_string (KindOf e), eb_Message = MessageOf e, eb_Details = DetailsOf e\<rparr>))"
  by (cases "KindOf e") (simp_all add: WriteError_def StatusCode_def StatusText_def Let_def)

lemma decent_WriteError [simp]: "clean e \<Longrightarrow> decent (WriteError e)"
  by (cases "KindOf e")
    (simp_all add: WriteError_eq clean_def decent_def WriteJSON_def marshal_ErrorResponse_def internal_error_def
      list_all_iff case_prod_unfold)

lemma decent_WriteJSON [simp]: "s \<in> {200, 201} \<Longrightarrow> sendable 4 payload \<Longrightarrow> decent (WriteJSON s payload)"
  by (auto simp: decent_def WriteJSON_def encoding_error_def sendable_def split: sum.splits)

lemma sendable_health [simp]: "sendable 4 (Inr (JObject [(''status'', JString ''ok'')]))"
  by (simp add: sendable_def)

lemma decent_others [simp]:
  "decent unauthenticated" "decent NoContent"
  by (simp_all add: unauthenticated_def) (simp_all add: decent_def NoContent_def)

lemma decent_DecodeJSON: "DecodeJSON rq decode = Inl rs \<Longrightarrow> decent rs"
  by (auto simp: DecodeJSON_def split: option.splits sum.splits)

abbreviation (input) anyw :: "world \<Rightarrow> world \<Rightarrow> bool" where "anyw \<equiv> \<lambda>_ _. True"

lemma ok_reply_decent: "tidy r \<Longrightarrow> (\<And>a. decent (ok a)) \<Longrightarrow> prog_ok anyw decent (reply r ok)"
  by (cases r) (simp_all add: reply_def)

lemmas any_bind = prog_ok_pbind[OF prog_ok_trivial]

lemma tidy_auth:
  "prog_ok anyw tidy (Exchange E s inp)" "prog_ok anyw tidy (AuthenticateUser E s raw)"
  "prog_ok anyw tidy (RevokeUserToken s h)" "prog_ok anyw tidy (AuthenticateAgent E s raw)"
  "prog_ok anyw tidy (CreateAgent E s u n)" "prog_ok anyw tidy (ListAgents s u)"
  "prog_ok anyw tidy (RevokeAgent E s u i)"
  unfolding Exchange_def AuthenticateUser_def RevokeUserToken_def AuthenticateAgent_def CreateAgent_def
    ListAgents_def RevokeAgent_def
  by (intro ok_intros any_bind; simp)+

lemma tidy_events:
  "prog_ok anyw tidy (EventService_Create E v a ci)" "prog_ok anyw tidy (EventService_Get v i)"
  "prog_ok anyw tidy (EventService_List v)" "prog_ok anyw tidy (EventService_Update E v a i ui)"
  "prog_ok anyw tidy (EventService_Delete v a i)"
  unfolding EventService_Create_def EventService_Get_def EventService_List_def EventService_Update_def
    EventService_Delete_def
  by (intro ok_intros any_bind; simp)+

lemmas decent_binds = tidy_auth[THEN prog_ok_pbind] tidy_events[THEN prog_ok_pbind]

lemma decent_handlers:
  "prog_ok anyw decent (EventHandler_create L E v rq)" "prog_ok anyw decent (EventHandler_get L v rq)"
  "prog_ok anyw decent (EventHandler_list v rq)" "prog_ok anyw decent (EventHandler_update L E v rq)"
  "prog_ok anyw decent (EventHandler_delete L v rq)"
  "prog_ok anyw decent (AgentHandler_create L E s rq)" "prog_ok anyw decent (AgentHandler_list s rq)"
  "prog_ok anyw decent (AgentHandler_revoke L E s rq)"
  "prog_ok anyw decent (AuthHandler_Exchange L E s trusted rq)" "prog_ok anyw decent (AuthHandler_Logout s rq)"
  "prog_ok anyw decent (AuthHandler_Whoami rq)" "prog_ok anyw decent (healthz rq)"
  unfolding EventHandler_create_def EventHandler_get_def EventHandler_list_def EventHandler_update_def
    EventHandler_delete_def AgentHandler_create_def AgentHandler_list_def AgentHandler_revoke_def
    AuthHandler_Exchange_def AuthHandler_Logout_def AuthHandler_Whoami_def healthz_def
  by (intro ok_intros decent_binds ok_reply_decent;
      auto simp: eventURLID_def Let_def dest: decent_DecodeJSON split: if_splits)+

lemma decent_middleware:
  assumes "\<And>rs. decent rs \<Longrightarrow> Q rs" "\<And>rq. prog_ok anyw Q (h rq)"
  shows "prog_ok anyw Q (RequireAgent E s h rq)" "prog_ok anyw Q (RequireUser E s h rq)"
  unfolding RequireAgent_def RequireUser_def
  by (intro ok_intros decent_binds assms; simp add: assms(1))+

text \<open>A response is one of the handlers or, when chi finds no route for the request, chi's own.\<close>

definition served :: "chi_match \<Rightarrow> server \<Rightarrow> response \<Rightarrow> bool" where
  "served chi s rs \<longleftrightarrow> decent rs \<or> (\<exists>hr. routed chi s hr = None \<and> rs = own_answer chi s hr)"

lemma decent_serve: "prog_ok anyw (served chi s) (ServeHTTP chi s hr)"
proof (rule serve_ok)
  fix r rq assume "r \<in> set (NewRouter s)"
  then have "prog_ok anyw decent (rt_handler r rq)"
    by (cases rule: routes_cases) (auto simp: decent_handlers intro!: decent_middleware)
  then show "prog_ok anyw (served chi s) (rt_handler r rq)" by (rule prog_ok_mono) (simp add: served_def)
next
  fix m rq assume "routed chi s hr = None"
  then have "served chi s (own_answer chi s hr)" by (auto simp: served_def)
  then show "prog_ok anyw (served chi s) (mount_middleware s m (\<lambda>_. Done (own_answer chi s hr)) rq)"
    by (cases m) (auto simp: mount_middleware_def simp: served_def intro!: decent_middleware)
qed

section \<open>Laws of everything that serves\<close>

context respected
begin

lemma server_ok:
  assumes "sv_env s = E" "sv_auth s = asvc" "sv_events s = esvc"
  shows "prog_ok R (\<lambda>_. True) (ServeHTTP chi s hr)"
proof (rule serve_ok)
  fix r rq assume "r \<in> set (NewRouter s)"
  then show "prog_ok R (\<lambda>_. True) (rt_handler r rq)"
    by (cases rule: routes_cases[of r s, unfolded assms])
      (auto simp: EventHandlers_ok AgentHandlers_ok AuthHandlers_ok intro!: Middleware_ok)
next
  fix m rq show "prog_ok R (\<lambda>_. True) (mount_middleware s m (\<lambda>_. Done (own_answer chi s hr)) rq)"
    by (cases m) (auto simp: mount_middleware_def assms intro!: Middleware_ok)
qed

end

end
