(* ===== verification/Database.thy ===== *)
theory Database
  imports World
begin

text \<open>
  The SQL statements of server/internal/adapters/postgres/gen (one definition per method of
  \<open>Queries\<close>, prefixed \<open>q_\<close>), on the tables that the migrations declare. A statement reads
  and writes the rows that its text selects; an INSERT or UPDATE is refused with the SQLSTATE of
  the constraint it violates: 22P02 (text that is not a UUID), 22021 (a NUL byte in a TEXT column),
  23502 (NOT NULL), 23503 (FOREIGN KEY) and 23505 (PRIMARY KEY or UNIQUE). A refused statement changes
  no row. The columns of hashes hold hexadecimal digits, so only the other TEXT columns are checked.
\<close>

section \<open>Columns and constraints\<close>

definition bad_uuid :: err where
  "bad_uuid = PgError ''22P02'' ''invalid input syntax for type uuid''"
definition not_null :: err where
  "not_null = PgError ''23502'' ''null value violates not-null constraint''"
definition no_parent :: err where
  "no_parent = PgError ''23503'' ''insert or update violates foreign key constraint''"
definition duplicate :: err where
  "duplicate = PgError ''23505'' ''duplicate key value violates unique constraint''"

definition bad_text :: err where
  "bad_text = PgError ''22021'' ''invalid byte sequence for encoding UTF8''"

definition text_ok :: "string \<Rightarrow> bool" where
  "text_ok s \<longleftrightarrow> CHR 0x00 \<notin> set s"

definition stored :: "Env \<Rightarrow> timestamptz \<Rightarrow> timestamptz" where
  "stored E t = map_option (pg_time E) t"

definition created_key :: "timestamptz \<Rightarrow> int" where
  "created_key t = (case t of None \<Rightarrow> 0 | Some x \<Rightarrow> x)"

definition user_exists :: "world \<Rightarrow> string \<Rightarrow> bool" where
  "user_exists w k \<longleftrightarrow> list_ex (\<lambda>r. gu_ID r = k) (users w)"

section \<open>Users\<close>

definition q_GetUserByID :: "Env \<Rightarrow> string \<Rightarrow> world \<Rightarrow> (err + gen_User) \<times> world" where
  "q_GetUserByID E i = sql E (select (\<lambda>w.
     case pg_uuid E i of
       None \<Rightarrow> Inl bad_uuid
     | Some k \<Rightarrow> (case find (\<lambda>r. gu_ID r = k) (users w) of
                    None \<Rightarrow> Inl (Sentinel ErrNoRows) | Some r \<Rightarrow> Inr r)))"

text \<open>
  INSERT with ON CONFLICT (provider, subject) DO UPDATE SET email: the row of the same provider
  and subject keeps its id and creation time and gets the new email; without one a row is
  inserted.
\<close>

definition same_identity :: "string \<Rightarrow> string \<Rightarrow> gen_User \<Rightarrow> bool" where
  "same_identity provider subject r \<longleftrightarrow> gu_Provider r = provider \<and> gu_Subject r = subject"

definition q_UpsertUserIdentity ::
  "Env \<Rightarrow> gen_User \<Rightarrow> world \<Rightarrow> (err + gen_User) \<times> world" where
  "q_UpsertUserIdentity E arg = sql E (\<lambda>w.
     case pg_uuid E (gu_ID arg) of
       None \<Rightarrow> (Inl bad_uuid, w)
     | Some k \<Rightarrow>
       if \<not> (text_ok (gu_Provider arg) \<and> text_ok (gu_Subject arg) \<and> text_ok (gu_Email arg)) then (Inl bad_text, w)
       else if gu_CreatedAt arg = None then (Inl not_null, w)
       else (case find (same_identity (gu_Provider arg) (gu_Subject arg)) (users w) of
               Some r \<Rightarrow>
                 (Inr (r\<lparr>gu_Email := gu_Email arg\<rparr>),
                  w\<lparr>users := map (\<lambda>u. if same_identity (gu_Provider arg) (gu_Subject arg) u
                                        then u\<lparr>gu_Email := gu_Email arg\<rparr> else u) (users w)\<rparr>)
             | None \<Rightarrow>
                 if user_exists w k then (Inl duplicate, w)
                 else (let r = arg\<lparr>gu_ID := k, gu_CreatedAt := stored E (gu_CreatedAt arg)\<rparr>
                       in (Inr r, w\<lparr>users := users w @ [r]\<rparr>))))"

section \<open>User tokens\<close>

definition q_InsertUserToken ::
  "Env \<Rightarrow> gen_UserToken \<Rightarrow> world \<Rightarrow> (err + unit) \<times> world" where
  "q_InsertUserToken E arg = sql E (\<lambda>w.
     case pg_uuid E (gt_UserID arg) of
       None \<Rightarrow> (Inl bad_uuid, w)
     | Some u \<Rightarrow>
       if gt_ExpiresAt arg = None \<or> gt_CreatedAt arg = None then (Inl not_null, w)
       else if list_ex (\<lambda>r. gt_TokenHash r = gt_TokenHash arg) (user_tokens w) then (Inl duplicate, w)
       else if \<not> user_exists w u then (Inl no_parent, w)
       else (Inr (), w\<lparr>user_tokens := user_tokens w @
               [arg\<lparr>gt_UserID := u, gt_ExpiresAt := stored E (gt_ExpiresAt arg),
                     gt_CreatedAt := stored E (gt_CreatedAt arg)\<rparr>]\<rparr>))"

definition q_GetUserTokenByHash ::
  "Env \<Rightarrow> string \<Rightarrow> world \<Rightarrow> (err + gen_UserToken) \<times> world" where
  "q_GetUserTokenByHash E h = sql E (select (\<lambda>w.
     case find (\<lambda>r. gt_TokenHash r = h) (user_tokens w) of
       None \<Rightarrow> Inl (Sentinel ErrNoRows) | Some r \<Rightarrow> Inr r))"

definition q_DeleteUserTokenByHash :: "Env \<Rightarrow> string \<Rightarrow> world \<Rightarrow> (err + unit) \<times> world" where
  "q_DeleteUserTokenByHash E h = sql E (\<lambda>w.
     (Inr (), w\<lparr>user_tokens := filter (\<lambda>r. gt_TokenHash r \<noteq> h) (user_tokens w)\<rparr>))"

text \<open>A comparison with NULL is not true, so it selects no row.\<close>

fun ts_less :: "timestamptz \<Rightarrow> timestamptz \<Rightarrow> bool" where
  "ts_less (Some a) (Some b) \<longleftrightarrow> a < b"
| "ts_less _ _ \<longleftrightarrow> False"

definition q_DeleteExpiredUserTokens ::
  "Env \<Rightarrow> timestamptz \<Rightarrow> world \<Rightarrow> (err + unit) \<times> world" where
  "q_DeleteExpiredUserTokens E t = sql E (\<lambda>w.
     (Inr (), w\<lparr>user_tokens := filter (\<lambda>r. \<not> ts_less (gt_ExpiresAt r) (stored E t)) (user_tokens w)\<rparr>))"

section \<open>Agents\<close>

definition q_LockUserForUpdate :: "Env \<Rightarrow> string \<Rightarrow> world \<Rightarrow> (err + string) \<times> world" where
  "q_LockUserForUpdate E i = sql E (select (\<lambda>w.
     case pg_uuid E i of
       None \<Rightarrow> Inl bad_uuid
     | Some k \<Rightarrow> if user_exists w k then Inr k else Inl (Sentinel ErrNoRows)))"

definition active_of :: "string \<Rightarrow> gen_Agent \<Rightarrow> bool" where
  "active_of u r \<longleftrightarrow> ga_UserID r = u \<and> ga_RevokedAt r = None"

definition q_CountActiveAgentsByUser :: "Env \<Rightarrow> string \<Rightarrow> world \<Rightarrow> (err + int) \<times> world" where
  "q_CountActiveAgentsByUser E i = sql E (select (\<lambda>w.
     case pg_uuid E i of
       None \<Rightarrow> Inl bad_uuid
     | Some u \<Rightarrow> Inr (int (length (filter (active_of u) (agents w))))))"

definition q_InsertAgent :: "Env \<Rightarrow> gen_Agent \<Rightarrow> world \<Rightarrow> (err + unit) \<times> world" where
  "q_InsertAgent E arg = sql E (\<lambda>w.
     case (pg_uuid E (ga_ID arg), pg_uuid E (ga_UserID arg)) of
       (Some k, Some u) \<Rightarrow>
         if \<not> text_ok (ga_Name arg) then (Inl bad_text, w)
         else if ga_CreatedAt arg = None then (Inl not_null, w)
         else if list_ex (\<lambda>r. ga_ID r = k \<or> ga_KeyHash r = ga_KeyHash arg) (agents w)
           then (Inl duplicate, w)
         else if \<not> user_exists w u then (Inl no_parent, w)
         else (Inr (), w\<lparr>agents := agents w @
                 [arg\<lparr>ga_ID := k, ga_UserID := u, ga_CreatedAt := stored E (ga_CreatedAt arg),
                       ga_RevokedAt := stored E (ga_RevokedAt arg),
                       ga_LastUsedAt := stored E (ga_LastUsedAt arg)\<rparr>]\<rparr>)
     | _ \<Rightarrow> (Inl bad_uuid, w))"

definition q_GetAgentByID :: "Env \<Rightarrow> string \<Rightarrow> world \<Rightarrow> (err + gen_Agent) \<times> world" where
  "q_GetAgentByID E i = sql E (select (\<lambda>w.
     case pg_uuid E i of
       None \<Rightarrow> Inl bad_uuid
     | Some k \<Rightarrow> (case find (\<lambda>r. ga_ID r = k) (agents w) of
                    None \<Rightarrow> Inl (Sentinel ErrNoRows) | Some r \<Rightarrow> Inr r)))"

definition q_GetAgentByKeyHash :: "Env \<Rightarrow> string \<Rightarrow> world \<Rightarrow> (err + gen_Agent) \<times> world" where
  "q_GetAgentByKeyHash E h = sql E (select (\<lambda>w.
     case find (\<lambda>r. ga_KeyHash r = h) (agents w) of
       None \<Rightarrow> Inl (Sentinel ErrNoRows) | Some r \<Rightarrow> Inr r))"

definition q_ListAgentsByUser :: "Env \<Rightarrow> string \<Rightarrow> world \<Rightarrow> (err + gen_Agent list) \<times> world" where
  "q_ListAgentsByUser E i = sql E (select (\<lambda>w.
     case pg_uuid E i of
       None \<Rightarrow> Inl bad_uuid
     | Some u \<Rightarrow> Inr (sort_key (\<lambda>r. created_key (ga_CreatedAt r))
                         (filter (\<lambda>r. ga_UserID r = u) (agents w)))))"

text \<open>UPDATE ... WHERE id = $1 AND revoked_at IS NULL; the result is the number of rows.\<close>

definition to_revoke :: "string \<Rightarrow> gen_Agent \<Rightarrow> bool" where
  "to_revoke k r \<longleftrightarrow> ga_ID r = k \<and> ga_RevokedAt r = None"

definition q_RevokeAgent :: "Env \<Rightarrow> string \<Rightarrow> timestamptz \<Rightarrow> world \<Rightarrow> (err + nat) \<times> world" where
  "q_RevokeAgent E i t = sql E (\<lambda>w.
     case pg_uuid E i of
       None \<Rightarrow> (Inl bad_uuid, w)
     | Some k \<Rightarrow>
         (Inr (length (filter (to_revoke k) (agents w))),
          w\<lparr>agents := map (\<lambda>r. if to_revoke k r then r\<lparr>ga_RevokedAt := stored E t\<rparr> else r) (agents w)\<rparr>))"

definition q_TouchAgentLastUsed :: "Env \<Rightarrow> string \<Rightarrow> timestamptz \<Rightarrow> world \<Rightarrow> (err + unit) \<times> world" where
  "q_TouchAgentLastUsed E i t = sql E (\<lambda>w.
     case pg_uuid E i of
       None \<Rightarrow> (Inl bad_uuid, w)
     | Some k \<Rightarrow>
         (Inr (), w\<lparr>agents := map (\<lambda>r. if ga_ID r = k then r\<lparr>ga_LastUsedAt := stored E t\<rparr> else r) (agents w)\<rparr>))"

section \<open>Events\<close>

definition q_InsertEvent :: "Env \<Rightarrow> gen_Event \<Rightarrow> world \<Rightarrow> (err + unit) \<times> world" where
  "q_InsertEvent E arg = sql E (\<lambda>w.
     case (pg_uuid E (ge_ID arg), pg_uuid E (ge_UserID arg)) of
       (Some k, Some u) \<Rightarrow>
         if \<not> (text_ok (ge_Name arg) \<and> text_ok (ge_Description arg)) then (Inl bad_text, w)
         else if ge_CreatedAt arg = None \<or> ge_UpdatedAt arg = None then (Inl not_null, w)
         else if list_ex (\<lambda>r. ge_ID r = k) (events w) then (Inl duplicate, w)
         else if \<not> user_exists w u then (Inl no_parent, w)
         else (Inr (), w\<lparr>events := events w @
                 [arg\<lparr>ge_ID := k, ge_UserID := u, ge_CreatedAt := stored E (ge_CreatedAt arg),
                       ge_UpdatedAt := stored E (ge_UpdatedAt arg)\<rparr>]\<rparr>)
     | _ \<Rightarrow> (Inl bad_uuid, w))"

definition q_GetEventByID :: "Env \<Rightarrow> string \<Rightarrow> world \<Rightarrow> (err + gen_Event) \<times> world" where
  "q_GetEventByID E i = sql E (select (\<lambda>w.
     case pg_uuid E i of
       None \<Rightarrow> Inl bad_uuid
     | Some k \<Rightarrow> (case find (\<lambda>r. ge_ID r = k) (events w) of
                    None \<Rightarrow> Inl (Sentinel ErrNoRows) | Some r \<Rightarrow> Inr r)))"

definition q_ListEvents :: "Env \<Rightarrow> world \<Rightarrow> (err + gen_Event list) \<times> world" where
  "q_ListEvents E = sql E (select (\<lambda>w.
     Inr (sort_key (\<lambda>r. created_key (ge_CreatedAt r)) (events w))))"

definition q_UpdateEvent ::
  "Env \<Rightarrow> string \<Rightarrow> string \<Rightarrow> string \<Rightarrow> timestamptz \<Rightarrow> world \<Rightarrow> (err + nat) \<times> world" where
  "q_UpdateEvent E i name description updated_at = sql E (\<lambda>w.
     case pg_uuid E i of
       None \<Rightarrow> (Inl bad_uuid, w)
     | Some k \<Rightarrow>
         let n = length (filter (\<lambda>r. ge_ID r = k) (events w))
         in if \<not> (text_ok name \<and> text_ok description) then (Inl bad_text, w)
            else if updated_at = None \<and> n \<noteq> 0 then (Inl not_null, w)
            else (Inr n,
                  w\<lparr>events := map (\<lambda>r. if ge_ID r = k
                     then r\<lparr>ge_Name := name, ge_Description := description,
                             ge_UpdatedAt := stored E updated_at\<rparr> else r) (events w)\<rparr>))"

definition q_DeleteEvent :: "Env \<Rightarrow> string \<Rightarrow> world \<Rightarrow> (err + nat) \<times> world" where
  "q_DeleteEvent E i = sql E (\<lambda>w.
     case pg_uuid E i of
       None \<Rightarrow> (Inl bad_uuid, w)
     | Some k \<Rightarrow>
         (Inr (length (filter (\<lambda>r. ge_ID r = k) (events w))),
          w\<lparr>events := filter (\<lambda>r. ge_ID r \<noteq> k) (events w)\<rparr>))"

lemmas q_defs =
  q_GetUserByID_def q_UpsertUserIdentity_def q_InsertUserToken_def q_GetUserTokenByHash_def
  q_DeleteUserTokenByHash_def q_DeleteExpiredUserTokens_def q_LockUserForUpdate_def
  q_CountActiveAgentsByUser_def q_InsertAgent_def q_GetAgentByID_def q_GetAgentByKeyHash_def
  q_ListAgentsByUser_def q_RevokeAgent_def q_TouchAgentLastUsed_def q_InsertEvent_def
  q_GetEventByID_def q_ListEvents_def q_UpdateEvent_def q_DeleteEvent_def

end
