(* ===== verification/Repositories.thy ===== *)
theory Repositories
  imports Database Ports
begin

text \<open>
  The Postgres adapters (server/internal/adapters/postgres): each method of the four repositories
  as a program over the world, the conversions between rows and domain values, and the mapping of
  database errors. \<open>CreateIfUnderLimit\<close> is one transaction: it is one atomic action here, and
  theory \<open>AgentLimit\<close> looks inside it.
\<close>

section \<open>Conversions (db.go)\<close>

definition asNotFound :: "err \<Rightarrow> sentinel \<Rightarrow> err" where
  "asNotFound e s =
     (if errors_Is e ErrNoRows \<or> errors_As_PgError e = Some ''22P02'' then Sentinel s else e)"

definition timestamptz_of :: "time \<Rightarrow> timestamptz" where
  "timestamptz_of t = (if IsZero t then None else Some t)"

definition timeFromTimestamptz :: "timestamptz \<Rightarrow> time" where
  "timeFromTimestamptz t = (case t of None \<Rightarrow> zero_time | Some x \<Rightarrow> x)"

definition userFromRow :: "gen_User \<Rightarrow> User" where
  "userFromRow row =
     \<lparr>User_ID = gu_ID row, User_Provider = gu_Provider row, User_Subject = gu_Subject row,
      User_Email = gu_Email row, User_CreatedAt = timeFromTimestamptz (gu_CreatedAt row)\<rparr>"

definition userTokenFromRow :: "gen_UserToken \<Rightarrow> UserToken" where
  "userTokenFromRow row =
     \<lparr>UserToken_TokenHash = gt_TokenHash row, UserToken_UserID = gt_UserID row,
      UserToken_ExpiresAt = timeFromTimestamptz (gt_ExpiresAt row),
      UserToken_CreatedAt = timeFromTimestamptz (gt_CreatedAt row)\<rparr>"

definition agentFromRow :: "gen_Agent \<Rightarrow> Agent" where
  "agentFromRow row =
     \<lparr>Agent_ID = ga_ID row, Agent_UserID = ga_UserID row, Agent_Name = ga_Name row,
      Agent_KeyHash = ga_KeyHash row, Agent_CreatedAt = timeFromTimestamptz (ga_CreatedAt row),
      Agent_RevokedAt = timeFromTimestamptz (ga_RevokedAt row),
      Agent_LastUsedAt = timeFromTimestamptz (ga_LastUsedAt row)\<rparr>"

definition insertAgentParams :: "Agent \<Rightarrow> gen_Agent" where
  "insertAgentParams agent =
     \<lparr>ga_ID = Agent_ID agent, ga_UserID = Agent_UserID agent, ga_Name = Agent_Name agent,
      ga_KeyHash = Agent_KeyHash agent, ga_CreatedAt = timestamptz_of (Agent_CreatedAt agent),
      ga_RevokedAt = timestamptz_of (Agent_RevokedAt agent),
      ga_LastUsedAt = timestamptz_of (Agent_LastUsedAt agent)\<rparr>"

definition eventFromRow :: "gen_Event \<Rightarrow> Event" where
  "eventFromRow row =
     \<lparr>Event_ID = ge_ID row, Event_UserID = ge_UserID row, Event_Name = ge_Name row,
      Event_Description = ge_Description row, Event_CreatedAt = timeFromTimestamptz (ge_CreatedAt row),
      Event_UpdatedAt = timeFromTimestamptz (ge_UpdatedAt row)\<rparr>"

definition insertEventParams :: "Event \<Rightarrow> gen_Event" where
  "insertEventParams event =
     \<lparr>ge_ID = Event_ID event, ge_UserID = Event_UserID event, ge_Name = Event_Name event,
      ge_Description = Event_Description event, ge_CreatedAt = timestamptz_of (Event_CreatedAt event),
      ge_UpdatedAt = timestamptz_of (Event_UpdatedAt event)\<rparr>"

section \<open>Users (user\_repository.go)\<close>

definition UserRepository_UpsertByIdentity ::
  "Env \<Rightarrow> string \<Rightarrow> string \<Rightarrow> string \<Rightarrow> (world, err + User) prog" where
  "UserRepository_UpsertByIdentity E provider subject email =
     pbind (uuid_NewString E) (\<lambda>i.
     pbind (time_Now E) (\<lambda>now.
     pbind (atomic (q_UpsertUserIdentity E
              \<lparr>gu_ID = i, gu_Provider = provider, gu_Subject = subject, gu_Email = email,
               gu_CreatedAt = timestamptz_of now\<rparr>)) (\<lambda>r.
     Done (case r of Inl e \<Rightarrow> Inl e | Inr row \<Rightarrow> Inr (userFromRow row)))))"

definition UserRepository_Get :: "Env \<Rightarrow> string \<Rightarrow> (world, err + User) prog" where
  "UserRepository_Get E i =
     pbind (atomic (q_GetUserByID E i)) (\<lambda>r.
     Done (case r of Inl e \<Rightarrow> Inl (asNotFound e ErrUserNotFound) | Inr row \<Rightarrow> Inr (userFromRow row)))"

definition NewUserRepository :: "Env \<Rightarrow> world port_UserRepository" where
  "NewUserRepository E =
     \<lparr>ur_UpsertByIdentity = UserRepository_UpsertByIdentity E, ur_Get = UserRepository_Get E\<rparr>"

section \<open>User tokens (user\_token\_repository.go)\<close>

definition UserTokenRepository_Create :: "Env \<Rightarrow> UserToken \<Rightarrow> (world, err + unit) prog" where
  "UserTokenRepository_Create E token =
     atomic (q_InsertUserToken E
       \<lparr>gt_TokenHash = UserToken_TokenHash token, gt_UserID = UserToken_UserID token,
        gt_ExpiresAt = timestamptz_of (UserToken_ExpiresAt token),
        gt_CreatedAt = timestamptz_of (UserToken_CreatedAt token)\<rparr>)"

definition UserTokenRepository_GetByHash :: "Env \<Rightarrow> string \<Rightarrow> (world, err + UserToken) prog" where
  "UserTokenRepository_GetByHash E h =
     pbind (atomic (q_GetUserTokenByHash E h)) (\<lambda>r.
     Done (case r of Inl e \<Rightarrow> Inl (asNotFound e ErrUserTokenNotFound)
                   | Inr row \<Rightarrow> Inr (userTokenFromRow row)))"

definition UserTokenRepository_DeleteByHash :: "Env \<Rightarrow> string \<Rightarrow> (world, err + unit) prog" where
  "UserTokenRepository_DeleteByHash E h = atomic (q_DeleteUserTokenByHash E h)"

definition UserTokenRepository_DeleteExpired :: "Env \<Rightarrow> (world, err + unit) prog" where
  "UserTokenRepository_DeleteExpired E =
     pbind (time_Now E) (\<lambda>now. atomic (q_DeleteExpiredUserTokens E (timestamptz_of now)))"

definition NewUserTokenRepository :: "Env \<Rightarrow> world port_UserTokenRepository" where
  "NewUserTokenRepository E =
     \<lparr>tr_Create = UserTokenRepository_Create E, tr_GetByHash = UserTokenRepository_GetByHash E,
      tr_DeleteByHash = UserTokenRepository_DeleteByHash E,
      tr_DeleteExpired = UserTokenRepository_DeleteExpired E\<rparr>"

section \<open>Agents (agent\_repository.go)\<close>

text \<open>
  The transaction: every statement can fail, and leaving before the commit rolls the tables back.
\<close>

definition tx_Begin :: "Env \<Rightarrow> world \<Rightarrow> (err + unit) \<times> world" where
  "tx_Begin E = sql E (select (\<lambda>w. Inr ()))"

definition tx_Commit :: "Env \<Rightarrow> world \<Rightarrow> (err + unit) \<times> world" where
  "tx_Commit E = sql E (select (\<lambda>w. Inr ()))"

definition rollback :: "world \<Rightarrow> world \<Rightarrow> world" where
  "rollback w0 w = w0\<lparr>ticks := ticks w\<rparr>"

definition CreateIfUnderLimit_tx :: "Env \<Rightarrow> Agent \<Rightarrow> int \<Rightarrow> world \<Rightarrow> (err + bool) \<times> world" where
  "CreateIfUnderLimit_tx E agent maxAgents w0 =
     (case tx_Begin E w0 of
        (Inl e, w) \<Rightarrow> (Inl e, w)
      | (Inr _, w) \<Rightarrow>
     (case q_LockUserForUpdate E (Agent_UserID agent) w of
        (Inl e, w) \<Rightarrow> (Inl (asNotFound e ErrUserNotFound), rollback w0 w)
      | (Inr _, w) \<Rightarrow>
     (case q_CountActiveAgentsByUser E (Agent_UserID agent) w of
        (Inl e, w) \<Rightarrow> (Inl e, rollback w0 w)
      | (Inr active, w) \<Rightarrow>
     if maxAgents \<le> active then (Inr False, rollback w0 w)
     else (case q_InsertAgent E (insertAgentParams agent) w of
        (Inl e, w) \<Rightarrow> (Inl e, rollback w0 w)
      | (Inr _, w) \<Rightarrow>
     (case tx_Commit E w of
        (Inl e, w) \<Rightarrow> (Inl e, rollback w0 w)
      | (Inr _, w) \<Rightarrow> (Inr True, w))))))"

definition AgentRepository_CreateIfUnderLimit ::
  "Env \<Rightarrow> Agent \<Rightarrow> int \<Rightarrow> (world, err + bool) prog" where
  "AgentRepository_CreateIfUnderLimit E agent maxAgents = atomic (CreateIfUnderLimit_tx E agent maxAgents)"

definition AgentRepository_Get :: "Env \<Rightarrow> string \<Rightarrow> (world, err + Agent) prog" where
  "AgentRepository_Get E i =
     pbind (atomic (q_GetAgentByID E i)) (\<lambda>r.
     Done (case r of Inl e \<Rightarrow> Inl (asNotFound e ErrAgentNotFound) | Inr row \<Rightarrow> Inr (agentFromRow row)))"

definition AgentRepository_GetByKeyHash :: "Env \<Rightarrow> string \<Rightarrow> (world, err + Agent) prog" where
  "AgentRepository_GetByKeyHash E h =
     pbind (atomic (q_GetAgentByKeyHash E h)) (\<lambda>r.
     Done (case r of Inl e \<Rightarrow> Inl (asNotFound e ErrAgentNotFound) | Inr row \<Rightarrow> Inr (agentFromRow row)))"

definition AgentRepository_ListByUser :: "Env \<Rightarrow> string \<Rightarrow> (world, err + Agent list) prog" where
  "AgentRepository_ListByUser E user_id =
     pbind (atomic (q_ListAgentsByUser E user_id)) (\<lambda>r.
     Done (case r of Inl e \<Rightarrow> Inl e | Inr rows \<Rightarrow> Inr (map agentFromRow rows)))"

definition AgentRepository_Revoke :: "Env \<Rightarrow> string \<Rightarrow> time \<Rightarrow> (world, err + unit) prog" where
  "AgentRepository_Revoke E i revokedAt =
     pbind (atomic (q_RevokeAgent E i (timestamptz_of revokedAt))) (\<lambda>r.
     case r of
       Inl e \<Rightarrow> Done (Inl e)
     | Inr affected \<Rightarrow>
         if affected = 0
         then pbind (AgentRepository_Get E i) (\<lambda>r.
              Done (case r of Inl e \<Rightarrow> Inl (Sentinel ErrAgentNotFound) | Inr a \<Rightarrow> Inr ()))
         else Done (Inr ()))"

definition AgentRepository_TouchLastUsed :: "Env \<Rightarrow> string \<Rightarrow> time \<Rightarrow> (world, err + unit) prog" where
  "AgentRepository_TouchLastUsed E i at = atomic (q_TouchAgentLastUsed E i (timestamptz_of at))"

definition NewAgentRepository :: "Env \<Rightarrow> world port_AgentRepository" where
  "NewAgentRepository E =
     \<lparr>ar_CreateIfUnderLimit = AgentRepository_CreateIfUnderLimit E,
      ar_Get = AgentRepository_Get E, ar_GetByKeyHash = AgentRepository_GetByKeyHash E,
      ar_ListByUser = AgentRepository_ListByUser E, ar_Revoke = AgentRepository_Revoke E,
      ar_TouchLastUsed = AgentRepository_TouchLastUsed E\<rparr>"

section \<open>Events (event\_repository.go)\<close>

definition EventRepository_Save :: "Env \<Rightarrow> Event \<Rightarrow> (world, err + Event) prog" where
  "EventRepository_Save E event =
     pbind (atomic (q_InsertEvent E (insertEventParams event))) (\<lambda>r.
     Done (case r of Inl e \<Rightarrow> Inl e | Inr _ \<Rightarrow> Inr event))"

definition EventRepository_Get :: "Env \<Rightarrow> string \<Rightarrow> (world, err + Event) prog" where
  "EventRepository_Get E i =
     pbind (atomic (q_GetEventByID E i)) (\<lambda>r.
     Done (case r of Inl e \<Rightarrow> Inl (asNotFound e ErrEventNotFound) | Inr row \<Rightarrow> Inr (eventFromRow row)))"

definition EventRepository_List :: "Env \<Rightarrow> (world, err + Event list) prog" where
  "EventRepository_List E =
     pbind (atomic (q_ListEvents E)) (\<lambda>r.
     Done (case r of Inl e \<Rightarrow> Inl e | Inr rows \<Rightarrow> Inr (map eventFromRow rows)))"

definition EventRepository_Update :: "Env \<Rightarrow> Event \<Rightarrow> (world, err + Event) prog" where
  "EventRepository_Update E event =
     pbind (atomic (q_UpdateEvent E (Event_ID event) (Event_Name event) (Event_Description event)
              (timestamptz_of (Event_UpdatedAt event)))) (\<lambda>r.
     Done (case r of
             Inl e \<Rightarrow> Inl e
           | Inr affected \<Rightarrow> if affected = 0 then Inl (Sentinel ErrEventNotFound) else Inr event))"

definition EventRepository_Delete :: "Env \<Rightarrow> string \<Rightarrow> (world, err + unit) prog" where
  "EventRepository_Delete E i =
     pbind (atomic (q_DeleteEvent E i)) (\<lambda>r.
     Done (case r of
             Inl e \<Rightarrow> Inl e
           | Inr affected \<Rightarrow> if affected = 0 then Inl (Sentinel ErrEventNotFound) else Inr ()))"

definition NewEventRepository :: "Env \<Rightarrow> world port_EventRepository" where
  "NewEventRepository E =
     \<lparr>er_Save = EventRepository_Save E, er_Get = EventRepository_Get E,
      er_List = EventRepository_List E, er_Update = EventRepository_Update E,
      er_Delete = EventRepository_Delete E\<rparr>"

end
