(* ===== verification/Store.thy ===== *)
theory Store
  imports Repositories
begin

text \<open>
  The invariant of the database and the way its rows may change. \<open>db_inv\<close> states the keys,
  unique columns, references and NOT NULL columns of the migrations for all four tables;
  \<open>evolves\<close> states what no statement of the server can undo: users stay and keep their identity,
  agents stay and keep their owner and key, and a revoked agent stays revoked at the same time.
  Every statement respects both (collection \<open>safe_rules\<close>), and so does every repository method,
  whatever runs between its statements.
\<close>

section \<open>The invariant\<close>

definition user_ids :: "world \<Rightarrow> string list" where
  "user_ids w = map gu_ID (users w)"

definition users_inv :: "Env \<Rightarrow> world \<Rightarrow> bool" where
  "users_inv E w \<longleftrightarrow>
     distinct (map gu_ID (users w))
     \<and> distinct (map (\<lambda>r. (gu_Provider r, gu_Subject r)) (users w))
     \<and> list_all (\<lambda>r. pg_uuid E (gu_ID r) = Some (gu_ID r) \<and> gu_CreatedAt r \<noteq> None) (users w)"

definition tokens_inv :: "Env \<Rightarrow> world \<Rightarrow> bool" where
  "tokens_inv E w \<longleftrightarrow>
     distinct (map gt_TokenHash (user_tokens w))
     \<and> list_all (\<lambda>r. user_exists w (gt_UserID r) \<and> gt_ExpiresAt r \<noteq> None \<and> gt_CreatedAt r \<noteq> None)
         (user_tokens w)"

definition agents_inv :: "Env \<Rightarrow> world \<Rightarrow> bool" where
  "agents_inv E w \<longleftrightarrow>
     distinct (map ga_ID (agents w)) \<and> distinct (map ga_KeyHash (agents w))
     \<and> list_all (\<lambda>r. pg_uuid E (ga_ID r) = Some (ga_ID r) \<and> user_exists w (ga_UserID r)
         \<and> ga_CreatedAt r \<noteq> None \<and> ga_RevokedAt r \<noteq> Some zero_time) (agents w)"

definition events_inv :: "Env \<Rightarrow> world \<Rightarrow> bool" where
  "events_inv E w \<longleftrightarrow>
     distinct (map ge_ID (events w))
     \<and> list_all (\<lambda>r. pg_uuid E (ge_ID r) = Some (ge_ID r) \<and> user_exists w (ge_UserID r)
         \<and> ge_CreatedAt r \<noteq> None \<and> ge_UpdatedAt r \<noteq> None
         \<and> stored E (ge_CreatedAt r) = ge_CreatedAt r) (events w)"

definition db_inv :: "Env \<Rightarrow> world \<Rightarrow> bool" where
  "db_inv E w \<longleftrightarrow> users_inv E w \<and> tokens_inv E w \<and> agents_inv E w \<and> events_inv E w \<and> limiter_inv (buckets w)"

lemmas inv_defs = users_inv_def tokens_inv_def agents_inv_def events_inv_def

section \<open>What never changes\<close>

definition same_user :: "gen_User \<Rightarrow> gen_User \<Rightarrow> bool" where
  "same_user r r' \<longleftrightarrow> gu_ID r' = gu_ID r \<and> gu_Provider r' = gu_Provider r
     \<and> gu_Subject r' = gu_Subject r \<and> gu_CreatedAt r' = gu_CreatedAt r"

definition later_agent :: "gen_Agent \<Rightarrow> gen_Agent \<Rightarrow> bool" where
  "later_agent r r' \<longleftrightarrow> ga_ID r' = ga_ID r \<and> ga_UserID r' = ga_UserID r \<and> ga_Name r' = ga_Name r
     \<and> ga_KeyHash r' = ga_KeyHash r \<and> ga_CreatedAt r' = ga_CreatedAt r
     \<and> (ga_RevokedAt r = None \<or> ga_RevokedAt r' = ga_RevokedAt r)"

definition evolves :: "world \<Rightarrow> world \<Rightarrow> bool" where
  "evolves w w' \<longleftrightarrow> ticks w \<le> ticks w'
     \<and> list_all (\<lambda>r. list_ex (same_user r) (users w')) (users w)
     \<and> list_all (\<lambda>r. list_ex (later_agent r) (agents w')) (agents w)"

text \<open>A step that keeps the invariant and, from a world that has it, only lets rows evolve.\<close>

definition safe_step :: "Env \<Rightarrow> world \<Rightarrow> world \<Rightarrow> bool" where
  "safe_step E w w' \<longleftrightarrow> (db_inv E w \<longrightarrow> db_inv E w' \<and> evolves w w')"

lemma same_user_refl [simp]: "same_user r r" by (simp add: same_user_def)
lemma later_agent_refl [simp]: "later_agent r r" by (simp add: later_agent_def)

lemma same_user_trans: "same_user r s \<Longrightarrow> same_user s t \<Longrightarrow> same_user r t"
  by (simp add: same_user_def)
lemma later_agent_trans: "later_agent r s \<Longrightarrow> later_agent s t \<Longrightarrow> later_agent r t"
  by (auto simp: later_agent_def)

lemma list_ex_self: "(\<And>r. P r r) \<Longrightarrow> list_all (\<lambda>r. list_ex (P r) xs) xs"
  by (auto simp: list_all_iff list_ex_iff)

lemma list_ex_append_self: "(\<And>r. P r r) \<Longrightarrow> list_all (\<lambda>r. list_ex (P r) (xs @ ys)) xs"
  by (auto simp: list_all_iff list_ex_iff)

lemma evolves_refl [simp]: "evolves w w"
  by (simp add: evolves_def list_ex_self)

lemma evolves_trans: "evolves u v \<Longrightarrow> evolves v w \<Longrightarrow> evolves u w"
  unfolding evolves_def list_all_iff list_ex_iff
  by (meson same_user_trans later_agent_trans order.trans)

lemma safe_step_refl [simp]: "safe_step E w w"
  by (simp add: safe_step_def)

lemma safe_step_trans: "safe_step E u v \<Longrightarrow> safe_step E v w \<Longrightarrow> safe_step E u w"
  unfolding safe_step_def using evolves_trans by blast

lemma reflp_safe_step: "reflp (safe_step E)" by (rule reflpI) simp
lemma transp_safe_step: "transp (safe_step E)" by (rule transpI) (rule safe_step_trans)

section \<open>Statements are safe\<close>

named_theorems safe_rules \<open>safety of single actions\<close>

lemma user_exists_upd [simp]:
  "user_exists (w\<lparr>ticks := n\<rparr>) k = user_exists w k" "user_exists (w\<lparr>buckets := b\<rparr>) k = user_exists w k"
  "user_exists (w\<lparr>user_tokens := t\<rparr>) k = user_exists w k" "user_exists (w\<lparr>agents := a\<rparr>) k = user_exists w k"
  "user_exists (w\<lparr>events := e\<rparr>) k = user_exists w k"
  by (simp_all add: user_exists_def)

lemma db_inv_ticks [simp]: "db_inv E (w\<lparr>ticks := n\<rparr>) = db_inv E w"
  by (simp add: db_inv_def inv_defs)

lemma evolves_ticks: "ticks w \<le> n \<Longrightarrow> evolves w (w\<lparr>ticks := n\<rparr>)"
  by (simp add: evolves_def list_ex_self)

lemma safe_with_tick [safe_rules]:
  assumes "\<And>i w. safe_step E w (snd (f i w))"
  shows "safe_step E w (snd (with_tick f w))"
proof -
  have "safe_step E w (w\<lparr>ticks := Suc (ticks w)\<rparr>)"
    by (simp add: safe_step_def evolves_ticks)
  then show ?thesis unfolding with_tick_def using assms safe_step_trans by blast
qed

lemma safe_sql [safe_rules]: "(\<And>w. safe_step E w (snd (f w))) \<Longrightarrow> safe_step E w (snd (sql E f w))"
  unfolding sql_def by (rule safe_with_tick) (simp split: option.splits)

lemma safe_select [safe_rules]: "safe_step E w (snd (select f w))"
  by (simp add: select_def)

text \<open>A change of one table, by the table.\<close>

lemma safe_tokens: "(db_inv E w \<Longrightarrow> tokens_inv E (w\<lparr>user_tokens := t\<rparr>)) \<Longrightarrow> safe_step E w (w\<lparr>user_tokens := t\<rparr>)"
  by (simp add: safe_step_def db_inv_def inv_defs evolves_def list_ex_self)

lemma safe_events: "(db_inv E w \<Longrightarrow> events_inv E (w\<lparr>events := t\<rparr>)) \<Longrightarrow> safe_step E w (w\<lparr>events := t\<rparr>)"
  by (simp add: safe_step_def db_inv_def inv_defs evolves_def list_ex_self)

lemma safe_buckets: "(limiter_inv (buckets w) \<Longrightarrow> limiter_inv c) \<Longrightarrow> safe_step E w (w\<lparr>buckets := c\<rparr>)"
  by (simp add: safe_step_def db_inv_def inv_defs evolves_def list_ex_self)

lemma safe_agents:
  "(db_inv E w \<Longrightarrow> agents_inv E (w\<lparr>agents := t\<rparr>)
      \<and> list_all (\<lambda>r. list_ex (later_agent r) t) (agents w)) \<Longrightarrow> safe_step E w (w\<lparr>agents := t\<rparr>)"
  by (simp add: safe_step_def db_inv_def inv_defs evolves_def list_ex_self)

lemma list_ex_map_self: "(\<And>r. P r (f r)) \<Longrightarrow> list_all (\<lambda>r. list_ex (P r) (map f xs)) xs"
  by (auto simp: list_all_iff list_ex_iff)

lemma distinct_key_map: "(\<And>r. key (f r) = key r) \<Longrightarrow> distinct (map key xs) \<Longrightarrow> distinct (map key (map f xs))"
  by (simp add: comp_def)

lemma safe_GetUserByID [safe_rules]: "safe_step E w (snd (q_GetUserByID E i w))"
  unfolding q_GetUserByID_def by (intro safe_rules)

lemma list_ex_map_if: "(\<And>u. P (f u) = P u) \<Longrightarrow> list_ex P (map f xs) = list_ex P xs"
  by (induction xs) auto

lemma safe_users_map:
  assumes k: "\<And>u. gu_ID (f u) = gu_ID u" "\<And>u. gu_Provider (f u) = gu_Provider u"
    "\<And>u. gu_Subject (f u) = gu_Subject u" "\<And>u. gu_CreatedAt (f u) = gu_CreatedAt u"
  shows "safe_step E w (w\<lparr>users := map f (users w)\<rparr>)"
proof -
  have "user_exists (w\<lparr>users := map f (users w)\<rparr>) = user_exists w"
    by (auto simp: user_exists_def fun_eq_iff k intro!: list_ex_map_if)
  moreover have "list_all (\<lambda>r. list_ex (same_user r) (map f (users w))) (users w)"
    by (rule list_ex_map_self) (simp add: same_user_def k)
  ultimately show ?thesis
    by (simp add: safe_step_def db_inv_def inv_defs evolves_def comp_def k list.pred_map list_ex_self)
qed

lemma safe_users_add:
  assumes "pg_uuid E (gu_ID u) = Some (gu_ID u)" "gu_CreatedAt u \<noteq> None" "\<not> user_exists w (gu_ID u)"
    "find (same_identity (gu_Provider u) (gu_Subject u)) (users w) = None"
  shows "safe_step E w (w\<lparr>users := users w @ [u]\<rparr>)"
proof -
  let ?w = "w\<lparr>users := users w @ [u]\<rparr>"
  have "evolves w ?w"
    using list_ex_append_self[of same_user "users w" "[u]"] list_ex_self[of later_agent]
    by (simp add: evolves_def)
  moreover have ex: "user_exists w k \<Longrightarrow> user_exists ?w k" for k
    by (simp add: user_exists_def)
  have "users_inv E w \<Longrightarrow> users_inv E ?w"
    using assms by (auto simp: users_inv_def user_exists_def list_ex_iff find_None_set same_identity_def)
  moreover have "tokens_inv E w \<Longrightarrow> tokens_inv E ?w" "agents_inv E w \<Longrightarrow> agents_inv E ?w"
    "events_inv E w \<Longrightarrow> events_inv E ?w"
    using ex by (auto simp: inv_defs list_all_iff)
  ultimately show ?thesis by (simp add: safe_step_def db_inv_def)
qed

lemma safe_UpsertUserIdentity [safe_rules]:
  assumes "env_ok E"
  shows "safe_step E w (snd (q_UpsertUserIdentity E arg w))"
  unfolding q_UpsertUserIdentity_def
proof (rule safe_sql)
  have canon: "pg_uuid E k = Some k" if "pg_uuid E (gu_ID arg) = Some k" for k
    using assms that by (auto simp: env_ok_def)
  show "safe_step E w (snd (case pg_uuid E (gu_ID arg) of None \<Rightarrow> (Inl bad_uuid, w)
     | Some k \<Rightarrow>
       if \<not> (text_ok (gu_Provider arg) \<and> text_ok (gu_Subject arg) \<and> text_ok (gu_Email arg)) then (Inl bad_text, w)
       else if gu_CreatedAt arg = None then (Inl not_null, w)
       else (case find (same_identity (gu_Provider arg) (gu_Subject arg)) (users w) of
               Some r \<Rightarrow>
                 (Inr (r\<lparr>gu_Email := gu_Email arg\<rparr>),
                  w\<lparr>users := map (\<lambda>u. if same_identity (gu_Provider arg) (gu_Subject arg) u
                                        then u\<lparr>gu_Email := gu_Email arg\<rparr> else u) (users w)\<rparr>)
             | None \<Rightarrow>
                 if user_exists w k then (Inl duplicate, w)
                 else (let r = arg\<lparr>gu_ID := k, gu_CreatedAt := stored E (gu_CreatedAt arg)\<rparr>
                       in (Inr r, w\<lparr>users := users w @ [r]\<rparr>)))))" for w
    by (auto simp: Let_def stored_def canon intro!: safe_users_map safe_users_add split: option.splits)
qed

text \<open>User tokens\<close>

lemma distinct_snoc_key:
  "distinct (map key (xs @ [x])) \<longleftrightarrow> distinct (map key xs) \<and> \<not> list_ex (\<lambda>r. key r = key x) xs"
  by (induction xs) auto

lemma safe_InsertUserToken [safe_rules]: "safe_step E w (snd (q_InsertUserToken E arg w))"
  unfolding q_InsertUserToken_def
proof (rule safe_sql)
  show "safe_step E w (snd (case pg_uuid E (gt_UserID arg) of
       None \<Rightarrow> (Inl bad_uuid, w)
     | Some u \<Rightarrow>
       if gt_ExpiresAt arg = None \<or> gt_CreatedAt arg = None then (Inl not_null, w)
       else if list_ex (\<lambda>r. gt_TokenHash r = gt_TokenHash arg) (user_tokens w) then (Inl duplicate, w)
       else if \<not> user_exists w u then (Inl no_parent, w)
       else (Inr (), w\<lparr>user_tokens := user_tokens w @
               [arg\<lparr>gt_UserID := u, gt_ExpiresAt := stored E (gt_ExpiresAt arg),
                     gt_CreatedAt := stored E (gt_CreatedAt arg)\<rparr>]\<rparr>)))" for w
    by (auto simp: tokens_inv_def db_inv_def stored_def distinct_snoc_key simp del: map_append
        intro!: safe_tokens split: option.splits)
qed

lemma safe_tokens_filter: "safe_step E w (w\<lparr>user_tokens := filter P (user_tokens w)\<rparr>)"
  by (rule safe_tokens) (auto simp: tokens_inv_def db_inv_def distinct_map_filter_key list_all_iff)

lemma safe_tokens_queries [safe_rules]:
  "safe_step E w (snd (q_GetUserTokenByHash E h w))"
  "safe_step E w (snd (q_DeleteUserTokenByHash E h w))"
  "safe_step E w (snd (q_DeleteExpiredUserTokens E t w))"
  unfolding q_GetUserTokenByHash_def q_DeleteUserTokenByHash_def q_DeleteExpiredUserTokens_def
  by (auto simp: safe_tokens_filter intro!: safe_sql safe_select)

text \<open>Agents\<close>

definition times_ok :: "Env \<Rightarrow> timestamptz \<Rightarrow> bool" where
  "times_ok E t \<longleftrightarrow> stored E t \<noteq> Some zero_time"

lemma times_ok_None [simp]: "times_ok E None"
  by (simp add: times_ok_def stored_def)

lemma times_ok_clock: "env_ok E \<Longrightarrow> 1000 \<le> t \<Longrightarrow> times_ok E (timestamptz_of t)"
  by (auto simp: times_ok_def stored_def timestamptz_of_def env_ok_def zero_time_def split: if_splits)
    (metis add_0 linorder_not_le)

lemma safe_agents_map:
  assumes k: "\<And>r. ga_ID (f r) = ga_ID r" "\<And>r. ga_KeyHash (f r) = ga_KeyHash r"
    "\<And>r. later_agent r (f r)" "\<And>r. ga_RevokedAt r \<noteq> Some zero_time \<Longrightarrow> ga_RevokedAt (f r) \<noteq> Some zero_time"
  shows "safe_step E w (w\<lparr>agents := map f (agents w)\<rparr>)"
proof (rule safe_agents)
  have "ga_UserID (f r) = ga_UserID r" "ga_CreatedAt (f r) = ga_CreatedAt r" for r
    using k(3)[of r] by (simp_all add: later_agent_def)
  then show "agents_inv E (w\<lparr>agents := map f (agents w)\<rparr>)
      \<and> list_all (\<lambda>r. list_ex (later_agent r) (map f (agents w))) (agents w)" if "db_inv E w"
    using that k list_ex_map_self[of later_agent f]
    by (auto simp: db_inv_def agents_inv_def comp_def list_all_iff)
qed

lemma safe_agents_add:
  assumes "pg_uuid E (ga_ID r) = Some (ga_ID r)" "user_exists w (ga_UserID r)" "ga_CreatedAt r \<noteq> None"
    "ga_RevokedAt r \<noteq> Some zero_time"
    "\<not> list_ex (\<lambda>x. ga_ID x = ga_ID r \<or> ga_KeyHash x = ga_KeyHash r) (agents w)"
  shows "safe_step E w (w\<lparr>agents := agents w @ [r]\<rparr>)"
  using assms list_ex_append_self[of later_agent "agents w" "[r]"]
  by (intro safe_agents) (auto simp: db_inv_def agents_inv_def list_ex_iff)

lemma safe_InsertAgent [safe_rules]:
  assumes "env_ok E" "times_ok E (ga_RevokedAt arg)"
  shows "safe_step E w (snd (q_InsertAgent E arg w))"
  unfolding q_InsertAgent_def
proof (rule safe_sql)
  have canon: "pg_uuid E k = Some k" if "pg_uuid E i = Some k" for i k
    using assms(1) that by (auto simp: env_ok_def)
  show "safe_step E w (snd (case (pg_uuid E (ga_ID arg), pg_uuid E (ga_UserID arg)) of
       (Some k, Some u) \<Rightarrow>
         if \<not> text_ok (ga_Name arg) then (Inl bad_text, w)
         else if ga_CreatedAt arg = None then (Inl not_null, w)
         else if list_ex (\<lambda>r. ga_ID r = k \<or> ga_KeyHash r = ga_KeyHash arg) (agents w)
           then (Inl duplicate, w)
         else if \<not> user_exists w u then (Inl no_parent, w)
         else (Inr (), w\<lparr>agents := agents w @
                 [arg\<lparr>ga_ID := k, ga_UserID := u, ga_CreatedAt := stored E (ga_CreatedAt arg),
                       ga_RevokedAt := stored E (ga_RevokedAt arg),
                       ga_LastUsedAt := stored E (ga_LastUsedAt arg)\<rparr>]\<rparr>)
     | _ \<Rightarrow> (Inl bad_uuid, w)))" for w
    using assms(2) canon
    by (auto simp: times_ok_def stored_def intro!: safe_agents_add split: option.splits)
qed

lemma safe_agents_queries [safe_rules]:
  "safe_step E w (snd (q_LockUserForUpdate E i w))"
  "safe_step E w (snd (q_CountActiveAgentsByUser E i w))"
  "safe_step E w (snd (q_GetAgentByID E i w))"
  "safe_step E w (snd (q_GetAgentByKeyHash E h w))"
  "safe_step E w (snd (q_ListAgentsByUser E i w))"
  unfolding q_LockUserForUpdate_def q_CountActiveAgentsByUser_def q_GetAgentByID_def
    q_GetAgentByKeyHash_def q_ListAgentsByUser_def
  by (intro safe_rules)+

lemma safe_TouchAgent [safe_rules]: "safe_step E w (snd (q_TouchAgentLastUsed E i t w))"
  unfolding q_TouchAgentLastUsed_def
  by (rule safe_sql) (auto simp: later_agent_def intro!: safe_agents_map split: option.splits if_splits)

lemma safe_RevokeAgent_row [safe_rules]:
  "times_ok E t \<Longrightarrow> safe_step E w (snd (q_RevokeAgent E i t w))"
  unfolding q_RevokeAgent_def
  by (rule safe_sql)
    (auto simp: later_agent_def to_revoke_def times_ok_def intro!: safe_agents_map split: option.splits if_splits)

text \<open>Events\<close>

lemma safe_InsertEvent [safe_rules]:
  "env_ok E \<Longrightarrow> safe_step E w (snd (q_InsertEvent E arg w))"
  unfolding q_InsertEvent_def
  by (rule safe_sql)
    (auto simp: events_inv_def db_inv_def stored_def list_ex_iff env_ok_def intro!: safe_events split: option.splits)

lemma safe_events_map:
  assumes "\<And>r. ge_ID (f r) = ge_ID r" "\<And>r. ge_UserID (f r) = ge_UserID r"
    "\<And>r. ge_CreatedAt (f r) = ge_CreatedAt r" "\<And>r. r \<in> set (events w) \<Longrightarrow> ge_UpdatedAt r \<noteq> None \<Longrightarrow> ge_UpdatedAt (f r) \<noteq> None"
  shows "safe_step E w (w\<lparr>events := map f (events w)\<rparr>)"
  using assms by (intro safe_events) (auto simp: db_inv_def events_inv_def comp_def list_all_iff)

lemma safe_UpdateEvent [safe_rules]: "safe_step E w (snd (q_UpdateEvent E i n d t w))"
  unfolding q_UpdateEvent_def
  by (rule safe_sql)
    (auto simp: Let_def stored_def filter_empty_conv intro!: safe_events_map split: option.splits if_splits)

lemma safe_events_queries [safe_rules]:
  "safe_step E w (snd (q_GetEventByID E i w))"
  "safe_step E w (snd (q_ListEvents E w))"
  "safe_step E w (snd (q_DeleteEvent E i w))"
  unfolding q_GetEventByID_def q_ListEvents_def q_DeleteEvent_def
  by (intro safe_rules;
      auto simp: events_inv_def db_inv_def distinct_map_filter_key list_all_iff intro!: safe_events split: option.splits)+

section \<open>Programs are safe\<close>

text \<open>The limiter, and the transaction, whose rollback restores the tables.\<close>

lemma safe_limiter: "env_ok E \<Longrightarrow> prog_ok (safe_step E) (\<lambda>_. True) (RateLimiter_Allow E limits key action)"
proof -
  assume E: "env_ok E"
  have "safe_step E w (snd (case Allow limits (order_at E i) (now_at E i) key action (buckets w) of
      (r, c) \<Rightarrow> (Inr r, w\<lparr>buckets := c\<rparr>)))" for i w
    using E Allow_inv[where ord = "order_at E i"]
    by (cases "Allow limits (order_at E i) (now_at E i) key action (buckets w)")
      (auto simp: env_ok_def intro!: safe_buckets)
  then show ?thesis unfolding RateLimiter_Allow_def
    by (intro prog_ok_atomic conjI TrueI safe_with_tick) auto
qed

lemma safe_rollback: "safe_step E w0 w \<Longrightarrow> safe_step E w0 (rollback w0 w)"
  by (simp add: safe_step_def rollback_def evolves_def list_ex_self)

lemma safe_case_chain:
  assumes "safe_step E w0 w" "\<And>w. safe_step E w (snd (f w))"
    and "\<And>e w'. safe_step E w0 w' \<Longrightarrow> safe_step E w0 (snd (p e w'))"
    and "\<And>a w'. safe_step E w0 w' \<Longrightarrow> safe_step E w0 (snd (q a w'))"
  shows "safe_step E w0 (snd (case f w of (Inl e, w') \<Rightarrow> p e w' | (Inr a, w') \<Rightarrow> q a w'))"
  using assms(3,4) safe_step_trans[OF assms(1) assms(2)[of w]] by (auto split: prod.splits sum.splits)

lemma safe_CreateIfUnderLimit_tx [safe_rules]:
  assumes "env_ok E" "times_ok E (timestamptz_of (Agent_RevokedAt agent))"
  shows "safe_step E w (snd (CreateIfUnderLimit_tx E agent maxAgents w))"
proof -
  have B: "safe_step E v (snd (tx_Begin E v))" "safe_step E v (snd (tx_Commit E v))" for v
    unfolding tx_Begin_def tx_Commit_def by (intro safe_rules)+
  have I: "safe_step E v (snd (q_InsertAgent E (insertAgentParams agent) v))" for v
    using assms by (intro safe_rules) (auto simp: insertAgentParams_def)
  have tail: "safe_step E w (snd (if maxAgents \<le> active then (Inr False, rollback w w3)
     else (case q_InsertAgent E (insertAgentParams agent) w3 of
        (Inl e, w') \<Rightarrow> (Inl e, rollback w w')
      | (Inr _, w') \<Rightarrow>
     (case tx_Commit E w' of
        (Inl e, w'') \<Rightarrow> (Inl e, rollback w w'')
      | (Inr _, w'') \<Rightarrow> (Inr True, w'')))))" if "safe_step E w w3" for active w3
    using that by (auto simp: safe_rollback intro!: safe_case_chain[OF _ I] safe_case_chain[OF _ B(2)])
  show ?thesis
    unfolding CreateIfUnderLimit_tx_def
    by (rule safe_case_chain[OF safe_step_refl B(1)], simp,
        erule safe_case_chain[OF _ safe_agents_queries(1)], simp add: safe_rollback,
        erule safe_case_chain[OF _ safe_agents_queries(2)], simp add: safe_rollback, erule tail)
qed

text \<open>The repository methods.\<close>

lemma ok_atomic_safe: "(\<And>w. safe_step E w (snd (f w))) \<Longrightarrow> prog_ok (safe_step E) (\<lambda>_. True) (atomic f)"
  by (rule prog_ok_atomic) simp

lemma ok_time: "env_ok E \<Longrightarrow> prog_ok (safe_step E) (\<lambda>t. 1000 \<le> t) (time_Now E)"
  unfolding time_Now_def
  by (rule prog_ok_atomic)
    (auto simp: with_tick_def env_ok_def safe_step_def evolves_ticks)

lemma ok_uuid: "prog_ok (safe_step E) (\<lambda>_. True) (uuid_NewString E)"
  and ok_rand: "prog_ok (safe_step E) (\<lambda>_. True) (rand_Read E)"
  unfolding uuid_NewString_def rand_Read_def by (intro ok_atomic_safe safe_with_tick; simp)+

lemma ok_users:
  assumes "env_ok E"
  shows "prog_ok (safe_step E) (\<lambda>_. True) (UserRepository_UpsertByIdentity E p s m)"
    and "prog_ok (safe_step E) (\<lambda>_. True) (UserRepository_Get E i)"
  unfolding UserRepository_UpsertByIdentity_def UserRepository_Get_def
  by (intro prog_ok_pbind[OF ok_uuid] prog_ok_pbind[OF ok_time] prog_ok_pbind[OF ok_atomic_safe]
      safe_rules ok_intros assms TrueI)+

lemma ok_tokens:
  assumes "env_ok E"
  shows "prog_ok (safe_step E) (\<lambda>_. True) (UserTokenRepository_Create E t)"
    and "prog_ok (safe_step E) (\<lambda>_. True) (UserTokenRepository_GetByHash E h)"
    and "prog_ok (safe_step E) (\<lambda>_. True) (UserTokenRepository_DeleteByHash E h)"
    and "prog_ok (safe_step E) (\<lambda>_. True) (UserTokenRepository_DeleteExpired E)"
  unfolding UserTokenRepository_Create_def UserTokenRepository_GetByHash_def
    UserTokenRepository_DeleteByHash_def UserTokenRepository_DeleteExpired_def
  by (intro prog_ok_pbind[OF ok_time] prog_ok_pbind[OF ok_atomic_safe] ok_atomic_safe
      safe_rules ok_intros assms TrueI)+

lemma ok_agents:
  assumes "env_ok E"
  shows "times_ok E (timestamptz_of (Agent_RevokedAt a)) \<Longrightarrow>
      prog_ok (safe_step E) (\<lambda>_. True) (AgentRepository_CreateIfUnderLimit E a n)"
    and ok_agent_Get: "prog_ok (safe_step E) (\<lambda>_. True) (AgentRepository_Get E i)"
    and "prog_ok (safe_step E) (\<lambda>_. True) (AgentRepository_GetByKeyHash E h)"
    and "prog_ok (safe_step E) (\<lambda>_. True) (AgentRepository_ListByUser E i)"
    and "prog_ok (safe_step E) (\<lambda>_. True) (AgentRepository_TouchLastUsed E i t)"
  unfolding AgentRepository_CreateIfUnderLimit_def AgentRepository_Get_def AgentRepository_GetByKeyHash_def
    AgentRepository_ListByUser_def AgentRepository_TouchLastUsed_def
  by (intro prog_ok_pbind[OF ok_atomic_safe] ok_atomic_safe safe_rules ok_intros assms TrueI; assumption?)+

lemma ok_agent_Revoke:
  assumes "env_ok E" "1000 \<le> t"
  shows "prog_ok (safe_step E) (\<lambda>_. True) (AgentRepository_Revoke E i t)"
  unfolding AgentRepository_Revoke_def
  by (intro prog_ok_pbind[OF ok_atomic_safe] prog_ok_pbind[OF ok_agent_Get] safe_rules ok_intros
      times_ok_clock assms TrueI)

lemma ok_events:
  assumes "env_ok E"
  shows "prog_ok (safe_step E) (\<lambda>_. True) (EventRepository_Save E e)"
    and "prog_ok (safe_step E) (\<lambda>_. True) (EventRepository_Get E i)"
    and "prog_ok (safe_step E) (\<lambda>_. True) (EventRepository_List E)"
    and "prog_ok (safe_step E) (\<lambda>_. True) (EventRepository_Update E e)"
    and "prog_ok (safe_step E) (\<lambda>_. True) (EventRepository_Delete E i)"
  unfolding EventRepository_Save_def EventRepository_Get_def EventRepository_List_def
    EventRepository_Update_def EventRepository_Delete_def
  by (intro prog_ok_pbind[OF ok_atomic_safe] safe_rules ok_intros assms TrueI)+

end
