(* ===== verification/EventStore.thy ===== *)
theory EventStore
  imports Store EventService
begin

text \<open>
  The Postgres event repository and the memory rate limiter meet the contracts that the event
  service relies on: the interpretation \<open>pg_events\<close> discharges the laws of the locale
  \<open>event_service\<close> on the model of the code. An event is looked up by the canonical text of
  its identifier, and what is read back has canonical identifiers and rounded times.
\<close>

section \<open>The view of the events\<close>

definition event_lookup :: "Env \<Rightarrow> world \<Rightarrow> string \<Rightarrow> Event option" where
  "event_lookup E w i =
     (case pg_uuid E i of
        None \<Rightarrow> None
      | Some k \<Rightarrow> map_option eventFromRow (find (\<lambda>r. ge_ID r = k) (events w)))"

definition same_id :: "Env \<Rightarrow> string \<Rightarrow> string \<Rightarrow> bool" where
  "same_id E i j \<longleftrightarrow> pg_uuid E i \<noteq> None \<and> pg_uuid E i = pg_uuid E j"

definition canon :: "Env \<Rightarrow> string \<Rightarrow> string" where
  "canon E s = (case pg_uuid E s of None \<Rightarrow> s | Some k \<Rightarrow> k)"

definition store_event :: "Env \<Rightarrow> Event \<Rightarrow> Event" where
  "store_event E e =
     e\<lparr>Event_ID := canon E (Event_ID e), Event_UserID := canon E (Event_UserID e),
       Event_CreatedAt := pg_time E (Event_CreatedAt e), Event_UpdatedAt := pg_time E (Event_UpdatedAt e)\<rparr>"

text \<open>No statement fails for a reason of its own.\<close>

definition reliable :: "Env \<Rightarrow> bool" where
  "reliable E \<longleftrightarrow> (\<forall>i. fault_at E i = None)"

lemma reliableD [simp]: "reliable E \<Longrightarrow> fault_at E i = None"
  by (simp add: reliable_def)

definition pg_inv :: "Env \<Rightarrow> world \<Rightarrow> bool" where
  "pg_inv E w \<longleftrightarrow> env_ok E \<and> db_inv E w"

lemma pg_inv_prog:
  assumes "pg_inv E w" "env_ok E \<Longrightarrow> prog_ok (safe_step E) Q p" "run p w = (r, w')"
  shows "pg_inv E w' \<and> Q r \<and> evolves w w'"
  using prog_ok_run[OF assms(2) reflp_safe_step transp_safe_step, of w] assms(1,3)
  by (auto simp: pg_inv_def safe_step_def)

lemma event_lookup_ticks [simp]: "event_lookup E (w\<lparr>ticks := n\<rparr>) = event_lookup E w"
  by (simp add: event_lookup_def fun_eq_iff split: option.splits)

lemma run_sql: "run (atomic (sql E f)) w =
    (case fault_at E (ticks w) of Some m \<Rightarrow> (Inl (Plain m), w\<lparr>ticks := Suc (ticks w)\<rparr>)
       | None \<Rightarrow> f (w\<lparr>ticks := Suc (ticks w)\<rparr>))"
  by (simp add: sql_def with_tick_def)

section \<open>The laws\<close>

lemma lookup_same: "same_id E i j \<Longrightarrow> event_lookup E w i = event_lookup E w j"
  by (simp add: event_lookup_def same_id_def)

lemma lookup_id:
  assumes "pg_inv E w" "event_lookup E w i = Some e" shows "same_id E i (Event_ID e)"
proof -
  obtain k r where k: "pg_uuid E i = Some k" and r: "find (\<lambda>r. ge_ID r = k) (events w) = Some r"
    "e = eventFromRow r"
    using assms(2) by (auto simp: event_lookup_def split: option.splits)
  then show ?thesis using assms(1) find_Some_iff_set[OF r(1)]
    by (auto simp: same_id_def eventFromRow_def pg_inv_def db_inv_def events_inv_def list_all_iff)
qed

lemma get_law:
  assumes "pg_inv E w" "run (EventRepository_Get E i) w = (r, w')"
  shows "event_lookup E w' = event_lookup E w
      \<and> (case r of Inr e \<Rightarrow> event_lookup E w i = Some e
           | Inl x \<Rightarrow> (errors_Is x ErrEventNotFound \<longrightarrow> event_lookup E w i = None)
               \<and> (reliable E \<longrightarrow> errors_Is x ErrEventNotFound))"
  using assms(2)
  by (auto simp: EventRepository_Get_def run_simps q_GetEventByID_def run_sql sql_def with_tick_def select_def event_lookup_def
       asNotFound_def bad_uuid_def split: option.splits if_splits)

lemma find_append: "find P (xs @ ys) = (case find P xs of None \<Rightarrow> find P ys | Some x \<Rightarrow> Some x)"
  by (induction xs) auto

lemma save_law:
  assumes "pg_inv E w" "run (EventRepository_Save E e) w = (r, w')"
  shows "case r of Inl x \<Rightarrow> event_lookup E w' = event_lookup E w
           | Inr e' \<Rightarrow> e' = e \<and> event_lookup E w (Event_ID e) = None
               \<and> event_lookup E w' = (\<lambda>j. if same_id E j (Event_ID e) then Some (store_event E e) else event_lookup E w j)"
proof (cases r)
  case (Inl x)
  then show ?thesis using assms(2)
    by (auto simp: EventRepository_Save_def run_simps q_InsertEvent_def sql_def with_tick_def
         split: option.splits if_splits sum.splits)
next
  case (Inr e')
  then obtain k u where k: "pg_uuid E (Event_ID e) = Some k" "pg_uuid E (Event_UserID e) = Some u"
    and n: "\<not> list_ex (\<lambda>r. ge_ID r = k) (events w)" "e' = e"
    and t: "Event_CreatedAt e \<noteq> 0" "Event_UpdatedAt e \<noteq> 0"
    and w': "events w' = events w @ [(insertEventParams e)\<lparr>ge_ID := k, ge_UserID := u,
        ge_CreatedAt := stored E (timestamptz_of (Event_CreatedAt e)),
        ge_UpdatedAt := stored E (timestamptz_of (Event_UpdatedAt e))\<rparr>]"
    using assms(2)
    by (auto simp: EventRepository_Save_def run_simps q_InsertEvent_def sql_def with_tick_def insertEventParams_def
         timestamptz_of_def IsZero_def zero_time_def split: option.splits if_splits sum.splits)
  have none: "find (\<lambda>r. ge_ID r = k) (events w) = None"
    using n(1) by (simp add: find_None_set list_ex_iff)
  have "event_lookup E w' j = (if same_id E j (Event_ID e) then Some (store_event E e) else event_lookup E w j)" for j
    using k t none
    by (auto simp: event_lookup_def same_id_def w' find_append store_event_def canon_def eventFromRow_def
        insertEventParams_def stored_def timestamptz_of_def IsZero_def timeFromTimestamptz_def zero_time_def
        split: option.splits)
  then show ?thesis using Inr n(2) none k by (auto simp: event_lookup_def)
qed

lemma find_update_key:
  "(\<And>r. key (f r) = key r) \<Longrightarrow>
     find (\<lambda>r. key r = k) (map (\<lambda>r. if key r = k' then f r else r) xs)
       = (if k = k' then map_option f (find (\<lambda>r. key r = k) xs) else find (\<lambda>r. key r = k) xs)"
  by (induction xs) auto

lemma find_filter_key:
  "find (\<lambda>r. key r = k) (filter (\<lambda>r. key r \<noteq> k') xs) = (if k = k' then None else find (\<lambda>r. key r = k) xs)"
  by (induction xs) auto

lemma update_law:
  assumes "pg_inv E w" "event_lookup E w (Event_ID e) = Some old" "run (EventRepository_Update E e) w = (r, w')"
  shows "case r of Inl x \<Rightarrow> event_lookup E w' = event_lookup E w
           | Inr e' \<Rightarrow> e' = e
               \<and> event_lookup E w' = (\<lambda>j. if same_id E j (Event_ID e)
                    then Some (store_event E (old\<lparr>Event_Name := Event_Name e,
                       Event_Description := Event_Description e, Event_UpdatedAt := Event_UpdatedAt e\<rparr>))
                    else event_lookup E w j)"
proof (cases r)
  case (Inl x)
  then show ?thesis using assms(2,3)
    by (auto simp: EventRepository_Update_def run_simps q_UpdateEvent_def sql_def with_tick_def Let_def
         event_lookup_def filter_empty_conv split: option.splits if_splits sum.splits dest: find_Some_iff_set)
next
  case (Inr e')
  obtain k row where k: "pg_uuid E (Event_ID e) = Some k" and row: "find (\<lambda>r. ge_ID r = k) (events w) = Some row"
    "old = eventFromRow row"
    using assms(2) by (auto simp: event_lookup_def split: option.splits)
  let ?f = "\<lambda>r. r\<lparr>ge_Name := Event_Name e, ge_Description := Event_Description e,
      ge_UpdatedAt := stored E (timestamptz_of (Event_UpdatedAt e))\<rparr>"
  have w': "e' = e" "Event_UpdatedAt e \<noteq> 0"
    "events w' = map (\<lambda>r. if ge_ID r = k then ?f r else r) (events w)"
    using assms(3) Inr k
    by (auto simp: EventRepository_Update_def run_simps q_UpdateEvent_def sql_def with_tick_def Let_def
         timestamptz_of_def IsZero_def zero_time_def split: option.splits if_splits sum.splits)
  have rowin: "row \<in> set (events w)" "ge_ID row = k" using find_Some_iff_set[OF row(1)] by auto
  then have inv: "user_exists w (ge_UserID row)" "stored E (ge_CreatedAt row) = ge_CreatedAt row"
    "pg_uuid E k = Some k" "ge_CreatedAt row \<noteq> None"
    using assms(1) by (auto simp: pg_inv_def db_inv_def events_inv_def list_all_iff)
  then have "pg_uuid E (ge_UserID row) = Some (ge_UserID row)"
    using assms(1) by (auto simp: pg_inv_def db_inv_def users_inv_def list_all_iff user_exists_def list_ex_iff)
  then have new: "eventFromRow (?f row) = store_event E (old\<lparr>Event_Name := Event_Name e,
      Event_Description := Event_Description e, Event_UpdatedAt := Event_UpdatedAt e\<rparr>)"
    using inv rowin(2) w'(2)
    by (auto simp: eventFromRow_def row(2) store_event_def canon_def stored_def timestamptz_of_def IsZero_def
        timeFromTimestamptz_def zero_time_def)
  have "event_lookup E w' j = (if same_id E j (Event_ID e)
      then Some (store_event E (old\<lparr>Event_Name := Event_Name e,
         Event_Description := Event_Description e, Event_UpdatedAt := Event_UpdatedAt e\<rparr>))
      else event_lookup E w j)" for j
    using k row(1) new find_update_key[of ge_ID ?f _ k "events w"]
    by (auto simp: event_lookup_def same_id_def w'(3) split: option.splits)
  then show ?thesis using Inr w'(1) by auto
qed

lemma delete_law:
  assumes "run (EventRepository_Delete E i) w = (rd, w')"
  shows "case rd of Inl x \<Rightarrow> event_lookup E w' = event_lookup E w \<and> (reliable E \<longrightarrow> event_lookup E w i = None)
           | Inr u \<Rightarrow> event_lookup E w i \<noteq> None
               \<and> event_lookup E w' = (\<lambda>j. if same_id E j i then None else event_lookup E w j)"
  using assms
  by (auto simp: EventRepository_Delete_def run_simps q_DeleteEvent_def sql_def with_tick_def fun_eq_iff
       event_lookup_def same_id_def find_filter_key filter_empty_conv find_None_set
       split: option.splits if_splits sum.splits)

lemma allow_law:
  assumes "run (RateLimiter_Allow E limits key action) w = (r, w')"
  shows "event_lookup E w' = event_lookup E w"
  using assms
  by (auto simp: RateLimiter_Allow_def with_tick_def event_lookup_def fun_eq_iff split: prod.splits option.splits)

section \<open>The interpretation\<close>

interpretation pg_events: event_service "NewEventRepository E" "event_lookup E" "same_id E"
  "store_event E" "pg_inv E" "reliable E" "RateLimiter_Allow E limits" for E limits
proof (unfold_locales, goal_cases)
  case (1 w i j) then show ?case using lookup_same by blast
next
  case (2 w i e) then show ?case by (rule lookup_id)
next
  case (3 w i r w')
  then show ?case using get_law[of E w i r w'] pg_inv_prog[OF 3(1) ok_events(2)]
    by (auto simp: NewEventRepository_def)
next
  case (4 w e r w')
  then show ?case using save_law[of E w e r w'] pg_inv_prog[OF 4(1) ok_events(1)]
    by (auto simp: NewEventRepository_def)
next
  case (5 w e old r w')
  then show ?case using update_law[of E w e old r w'] pg_inv_prog[OF 5(1) ok_events(4)]
    by (auto simp: NewEventRepository_def)
next
  case (6 w i rd w')
  then show ?case using delete_law[of E i w rd w'] pg_inv_prog[OF 6(1) ok_events(5)]
    by (auto simp: NewEventRepository_def)
next
  case (7 w key action r w')
  then show ?case using allow_law[of E limits key action w r w'] pg_inv_prog[OF 7(1) safe_limiter]
    by blast
next
  case (8 w n) then show ?case by (simp add: pg_inv_def)
next
  case (9 w n) then show ?case by simp
qed

end
