(* ===== verification/AuthContracts.thy ===== *)
theory AuthContracts
  imports AuthService
begin

text \<open>
  What the use cases of authentication promise, from the contracts of the interfaces alone: the
  locale \<open>auth_service\<close> combines the contracts of the three repositories, the limiter and the
  identity verifier, and states the outcome of every use case on every branch.
\<close>

lemma prog_run_cases: obtains r w' where "run p w = (r, w')"
  by fastforce

locale auth_service =
  user_repository users_repo ulook same "\<lambda>w. (tlook w, alook w, klook w)" inv up +
  token_repository tokens_repo tlook tstore ticks "\<lambda>w. (ulook w, alook w, klook w)" inv up +
  agent_repository agents_repo alook klook same astore stamp "\<lambda>w. (ulook w, tlook w)" inv up +
  rate_limiter limiter "\<lambda>w. (ulook w, tlook w, alook w, klook w)" inv +
  identity_verifier verifier "\<lambda>w. (ulook w, tlook w, alook w, klook w)" inv
  for E :: Env and users_repo :: "world port_UserRepository"
    and ulook :: "world \<Rightarrow> string \<Rightarrow> User option"
    and same and tokens_repo :: "world port_UserTokenRepository" and tlook tstore
    and agents_repo :: "world port_AgentRepository" and alook klook astore stamp
    and limiter :: "world port_RateLimiter" and verifier :: "world port_IdentityVerifier"
    and inv up +
  assumes tick_inv: "inv w \<Longrightarrow> inv (w\<lparr>ticks := n\<rparr>)"
    and tick_views: "ulook (w\<lparr>ticks := n\<rparr>) = ulook w" "tlook (w\<lparr>ticks := n\<rparr>) = tlook w"
      "alook (w\<lparr>ticks := n\<rparr>) = alook w" "klook (w\<lparr>ticks := n\<rparr>) = klook w"
    and clock_started: "inv w \<Longrightarrow> 1000 \<le> now_at E n"
begin

abbreviation svc :: "AuthConfig \<Rightarrow> AuthService" where
  "svc c \<equiv> \<lparr>as_verifier = verifier, as_users = users_repo, as_tokens = tokens_repo,
     as_agents = agents_repo, as_limiter = limiter, as_config = c\<rparr>"

lemmas ticks_simps = tick_inv tick_views

text \<open>Authenticating a user changes nothing; a token is good until it expires.\<close>

lemma authenticate_user_outcome:
  assumes "inv w" "run (AuthenticateUser E (svc c) raw) w = (r, w')"
  shows "inv w' \<and> ulook w' = ulook w \<and> tlook w' = tlook w \<and> alook w' = alook w \<and>
    (case r of
       Inr u \<Rightarrow> (\<exists>t. tlook w (HashToken raw) = Some t \<and> now_at E (Suc (ticks w)) < UserToken_ExpiresAt t
         \<and> ulook w (UserToken_UserID t) = Some u)
     | Inl x \<Rightarrow> (KindOf x = KindUnauthorized \<longrightarrow>
           (case tlook w (HashToken raw) of None \<Rightarrow> True
            | Some t \<Rightarrow> UserToken_ExpiresAt t \<le> now_at E (Suc (ticks w)) \<or> ulook w (UserToken_UserID t) = None))
         \<and> (up \<longrightarrow> KindOf x = KindUnauthorized))"
proof -
  obtain g w1 where g: "run (tr_GetByHash tokens_repo (HashToken raw)) w = (g, w1)" by (rule prog_run_cases)
  note G = get_token[OF assms(1) g]
  show ?thesis
  proof (cases g)
    case (Inl x)
    then show ?thesis using assms(2) g G
      by (auto simp: AuthenticateUser_def run_simps split: if_splits)
  next
    case (Inr t)
    define w2 where "w2 = w1\<lparr>ticks := Suc (ticks w1)\<rparr>"
    have w2: "inv w2" "ulook w2 = ulook w" "tlook w2 = tlook w" "alook w2 = alook w"
      using G by (auto simp: w2_def ticks_simps)
    obtain u w3 where u: "run (ur_Get users_repo (UserToken_UserID t)) w2 = (u, w3)" by (rule prog_run_cases)
    note U = get_user[OF w2(1) u]
    have "(r, w') =
      (if Expired t (now_at E (ticks w1))
       then (Inl (Unauthorized ''invalid or expired user token''), w2)
       else (case u of Inl e \<Rightarrow> if errors_Is e ErrUserNotFound
                                then Inl (Unauthorized ''invalid or expired user token'')
                                else Inl (Wrap e ''could not authenticate'')
                     | Inr user \<Rightarrow> Inr user, w3))"
      using assms(2) g u Inr
      by (auto simp: AuthenticateUser_def run_simps w2_def split: sum.splits)
    then show ?thesis using G U w2 Inr
      by (auto simp: Expired_iff split: if_splits sum.splits)
  qed
qed

lemma revoke_user_token_outcome:
  assumes "inv w" "run (RevokeUserToken (svc c) h) w = (r, w')"
  shows "inv w' \<and> ulook w' = ulook w \<and> alook w' = alook w \<and>
    (case r of Inr _ \<Rightarrow> tlook w' = (tlook w)(h := None) | Inl x \<Rightarrow> tlook w' = tlook w \<and> \<not> up)"
proof -
  obtain d w1 where d: "run (tr_DeleteByHash tokens_repo h) w = (d, w1)" by (rule prog_run_cases)
  show ?thesis using assms(2) d delete_token[OF assms(1) d]
    by (auto simp: RevokeUserToken_def run_simps split: sum.splits)
qed

text \<open>
  A key authenticates its agent exactly while the agent is not revoked; at most the time of last
  use changes.
\<close>

lemma authenticate_agent_outcome:
  assumes "inv w" "run (AuthenticateAgent E (svc c) raw) w = (r, w')"
  shows "inv w' \<and> ulook w' = ulook w \<and> tlook w' = tlook w \<and>
    (case r of
       Inr creds \<Rightarrow> klook w (HashToken raw) = Some (ac_Agent creds) \<and> \<not> Revoked (ac_Agent creds)
         \<and> ulook w (Agent_UserID (ac_Agent creds)) = Some (ac_User creds)
         \<and> (\<exists>t. alook w' = alook w \<or> alook w' = (\<lambda>j. if same j (Agent_ID (ac_Agent creds))
                then Some ((ac_Agent creds)\<lparr>Agent_LastUsedAt := stamp t\<rparr>) else alook w j))
     | Inl x \<Rightarrow> alook w' = alook w
         \<and> (KindOf x = KindUnauthorized \<longrightarrow>
             (case klook w (HashToken raw) of None \<Rightarrow> True
              | Some a \<Rightarrow> Revoked a \<or> ulook w (Agent_UserID a) = None))
         \<and> (up \<longrightarrow> KindOf x = KindUnauthorized))"
proof -
  obtain g w1 where g: "run (ar_GetByKeyHash agents_repo (HashToken raw)) w = (g, w1)" by (rule prog_run_cases)
  note G = get_by_key[OF assms(1) g]
  show ?thesis
  proof (cases g)
    case (Inl x)
    then show ?thesis using assms(2) g G
      by (auto simp: AuthenticateAgent_def run_simps split: if_splits)
  next
    case (Inr a)
    obtain u w2 where u: "run (ur_Get users_repo (Agent_UserID a)) w1 = (u, w2)" by (rule prog_run_cases)
    have "inv w1" using G by simp
    note U = get_user[OF this u]
    show ?thesis
    proof (cases "Revoked a \<or> isl u")
      case True
      then show ?thesis using assms(2) g G Inr u U
        by (auto simp: AuthenticateAgent_def run_simps split: if_splits sum.splits)
    next
      case False
      then obtain v where v: "u = Inr v" and a: "\<not> Revoked a" by (cases u) auto
      define w3 where "w3 = w2\<lparr>ticks := Suc (ticks w2)\<rparr>"
      have w3: "inv w3" "ulook w3 = ulook w" "tlook w3 = tlook w" "alook w3 = alook w"
        using G U by (auto simp: w3_def ticks_simps)
      have "alook w3 (Agent_ID a) = Some a"
        using G Inr key_iff[OF assms(1)] w3 by auto
      note T = touch_agent[OF w3(1) this]
      obtain d w4 where d: "run (ar_TouchLastUsed agents_repo (Agent_ID a) (now_at E (ticks w2))) w3 = (d, w4)"
        by (rule prog_run_cases)
      have "(r, w') = (Inr \<lparr>ac_Agent = a, ac_User = v\<rparr>,
          if IsZero (Agent_LastUsedAt a) \<or> agentTouchInterval \<le> Sub (now_at E (ticks w2)) (Agent_LastUsedAt a)
          then w4 else w3)"
        using assms(2) g u d Inr v a by (auto simp: AuthenticateAgent_def run_simps w3_def)
      then show ?thesis using T[OF d, unfolded w3] G U w3 Inr v a
        by (cases d) (auto intro: exI[of _ "now_at E (ticks w2)"] split: if_splits cong: if_cong)
    qed
  qed
qed

text \<open>A new agent is stored under a fresh identifier with the hash of a fresh key.\<close>

lemma create_agent_outcome:
  assumes "inv w" "run (CreateAgent E (svc c) userID name) w = (r, w')"
  shows "inv w' \<and> ulook w' = ulook w \<and> tlook w' = tlook w \<and>
    (case r of
       Inr k \<Rightarrow> TrimSpace name \<noteq> '''' \<and> Agent_UserID (ak_Agent k) = userID
         \<and> Agent_Name (ak_Agent k) = name \<and> \<not> Revoked (ak_Agent k)
         \<and> (\<exists>b. ak_Key k = ''aea_'' @ RawURLEncode b)
         \<and> Agent_KeyHash (ak_Agent k) = HashToken (ak_Key k)
         \<and> alook w (Agent_ID (ak_Agent k)) = None \<and> klook w (HashToken (ak_Key k)) = None
         \<and> klook w' (HashToken (ak_Key k)) = Some (astore (ak_Agent k))
         \<and> alook w' = (\<lambda>j. if same j (Agent_ID (ak_Agent k)) then Some (astore (ak_Agent k)) else alook w j)
     | Inl x \<Rightarrow> alook w' = alook w)"
proof -
  define w1 where "w1 = w\<lparr>ticks := Suc (Suc (Suc (ticks w)))\<rparr>"
  have w1: "inv w1" "ulook w1 = ulook w" "tlook w1 = tlook w" "alook w1 = alook w" "klook w1 = klook w"
    using assms(1) by (auto simp: w1_def ticks_simps)
  show ?thesis
  proof (cases "TrimSpace name = '''' \<or> isl (rand_at E (Suc (Suc (ticks w))))")
    case True
    then show ?thesis using assms w1
      by (auto simp: CreateAgent_def run_simps newID_def newToken_def Agent_Validate_def ticks_simps w1_def
           split: if_splits sum.splits)
  next
    case False
    then obtain b where b: "rand_at E (Suc (Suc (ticks w))) = Inr b"
      by (cases "rand_at E (Suc (Suc (ticks w)))") auto
    define key where "key = ''aea_'' @ RawURLEncode b"
    define a where "a = \<lparr>Agent_ID = uuid_at E (ticks w), Agent_UserID = userID, Agent_Name = name,
      Agent_KeyHash = HashToken key, Agent_CreatedAt = now_at E (Suc (ticks w)),
      Agent_RevokedAt = zero_time, Agent_LastUsedAt = zero_time\<rparr>"
    have a: "\<not> Revoked a" "Agent_KeyHash a = HashToken key" by (simp_all add: a_def Revoked_def IsZero_def)
    obtain d w2 where d: "run (ar_CreateIfUnderLimit agents_repo a (MaxAgentsPerUser c)) w1 = (d, w2)"
      by (rule prog_run_cases)
    note C = create_agent[OF w1(1) a(1) d]
    have res: "(r, w') = (case d of Inl e \<Rightarrow> Inl (Wrap e ''could not create agent'')
        | Inr created \<Rightarrow> if \<not> created then Inl (Forbidden ''agent limit reached, revoke an agent first'')
            else Inr \<lparr>ak_Agent = a, ak_Key = key\<rparr>, w2)"
      using assms(2) d b False
      by (auto simp: CreateAgent_def run_simps newID_def newToken_def Agent_Validate_def w1_def a_def key_def
          Let_def tokenPrefixAgent_def split: sum.splits)
    show ?thesis
    proof (cases "d = Inr True")
      case True
      then have C': "inv w2" "alook w2 = (\<lambda>j. if same j (Agent_ID a) then Some (astore a) else alook w j)"
        and S: "same (Agent_ID a) (Agent_ID (astore a))" "same (Agent_ID a) (Agent_ID a)"
        using C w1 by auto
      have "alook w2 (Agent_ID (astore a)) = alook w2 (Agent_ID a)"
        using a_same[OF C'(1) S(1)] by simp
      then have "klook w2 (HashToken key) = Some (astore a)"
        using key_iff[OF C'(1)] C C'(2) S(2) True a(2) by auto
      then show ?thesis using res C w1 True False a
        by (auto simp: key_def a_def)
    next
      case False
      then show ?thesis using res C w1
        by (cases d) (auto split: if_splits)
    qed
  qed
qed

text \<open>Only the owner revokes an agent, and doing it again changes nothing.\<close>

lemma revoke_agent_outcome:
  assumes "inv w" "run (RevokeAgent E (svc c) userID i) w = (r, w')"
  shows "inv w' \<and> ulook w' = ulook w \<and> tlook w' = tlook w \<and>
    (case r of
       Inr _ \<Rightarrow> (\<exists>a. alook w i = Some a \<and> Agent_UserID a = userID
         \<and> (if Revoked a then alook w' = alook w
            else (\<exists>t. \<not> IsZero t
              \<and> alook w' = (\<lambda>j. if same j i then Some (a\<lparr>Agent_RevokedAt := t\<rparr>) else alook w j))))
     | Inl x \<Rightarrow> alook w' = alook w
         \<and> (KindOf x = KindForbidden \<longrightarrow> (\<exists>a. alook w i = Some a \<and> Agent_UserID a \<noteq> userID))
         \<and> (KindOf x = KindNotFound \<longrightarrow> alook w i = None))"
proof -
  obtain g w1 where g: "run (ar_Get agents_repo i) w = (g, w1)" by (rule prog_run_cases)
  note G = get_agent[OF assms(1) g]
  show ?thesis
  proof (cases "\<exists>a. g = Inr a \<and> Agent_UserID a = userID \<and> \<not> Revoked a")
    case False
    then show ?thesis using assms(2) g G
      by (cases g) (auto simp: RevokeAgent_def run_simps split: if_splits)
  next
    case True
    then obtain a where a: "g = Inr a" "Agent_UserID a = userID" "\<not> Revoked a" by blast
    define w2 where "w2 = w1\<lparr>ticks := Suc (ticks w1)\<rparr>"
    have w2: "inv w2" "ulook w2 = ulook w" "tlook w2 = tlook w" "alook w2 = alook w"
      using G by (auto simp: w2_def ticks_simps)
    have look: "alook w2 i = Some a" using G a w2 by simp
    obtain d w3 where d: "run (ar_Revoke agents_repo i (now_at E (ticks w1))) w2 = (d, w3)"
      by (rule prog_run_cases)
    note R = revoke_agent[OF w2(1) look a(3) clock_started[OF w2(1)] d]
    have "(r, w') = (case d of Inl e \<Rightarrow> Inl (Wrap e ''could not revoke agent'') | Inr _ \<Rightarrow> Inr (), w3)"
      using assms(2) g d a by (auto simp: RevokeAgent_def run_simps w2_def split: sum.splits)
    then show ?thesis using R[unfolded w2] w2 a look[unfolded w2]
      by (cases d) (auto intro!: exI[of _ a] exI[of _ "stamp (now_at E (ticks w1))"])
  qed
qed

lemma list_agents_outcome:
  assumes "inv w" "run (ListAgents (svc c) userID) w = (r, w')"
  shows "inv w' \<and> ulook w' = ulook w \<and> tlook w' = tlook w \<and> alook w' = alook w \<and>
    (case r of
       Inr found \<Rightarrow> distinct (map Agent_ID found) \<and> sorted (map Agent_CreatedAt found)
         \<and> set found = {a. alook w (Agent_ID a) = Some a \<and> same userID (Agent_UserID a)}
     | Inl x \<Rightarrow> KindOf x = KindInternal)"
proof -
  obtain d w1 where d: "run (ar_ListByUser agents_repo userID) w = (d, w1)" by (rule prog_run_cases)
  show ?thesis using assms(2) d list_agents[OF assms(1) d]
    by (cases d) (auto simp: ListAgents_def run_simps)
qed

text \<open>
  Signing in: a token is issued only for an identity that the verifier returned for the given
  provider and text, and only its hash is stored.
\<close>

lemma exchange_outcome:
  assumes "inv w" "run (Exchange E (svc c) inp) w = (r, w')"
  shows "inv w' \<and> alook w' = alook w \<and>
    (case r of
       Inr res \<Rightarrow> ValidProvider (xi_Provider inp)
         \<and> (\<exists>w1 w2 identity. run (verifier (xi_Provider inp) (xi_IDToken inp)) w1 = (Inr identity, w2)
             \<and> User_Provider (xr_User res) = Identity_Provider identity
             \<and> User_Subject (xr_User res) = Identity_Subject identity
             \<and> User_Email (xr_User res) = Identity_Email identity)
         \<and> (\<exists>b. xr_Token res = ''aeu_'' @ RawURLEncode b)
         \<and> (\<exists>now. 1000 \<le> now \<and> xr_ExpiresAt res = now + UserTokenTTL c
             \<and> tlook w' = (tlook w)(HashToken (xr_Token res) \<mapsto>
                 tstore \<lparr>UserToken_TokenHash = HashToken (xr_Token res), UserToken_UserID = User_ID (xr_User res),
                    UserToken_ExpiresAt = xr_ExpiresAt res, UserToken_CreatedAt = now\<rparr>))
         \<and> tlook w (HashToken (xr_Token res)) = None
         \<and> ulook w' (User_ID (xr_User res)) = Some (xr_User res)
     | Inl x \<Rightarrow> tlook w' = tlook w)"
proof -
  obtain l w1 where l: "run (limiter (''ip:'' @ xi_ClientIP inp) ActionAuthExchange) w = (l, w1)" by (rule prog_run_cases)
  note L = allow_frame[OF assms(1) l]
  obtain v w2 where v: "run (verifier (xi_Provider inp) (xi_IDToken inp)) w1 = (v, w2)" by (rule prog_run_cases)
  from L have "inv w1" by simp
  note V = verify_frame[OF this v]
  show ?thesis
  proof (cases "ValidProvider (xi_Provider inp) \<and> l = Inr True \<and> \<not> isl v")
    case False
    then show ?thesis using assms L V l v
      by (auto simp: Exchange_def run_simps split: if_splits sum.splits)
  next
    case True
    then obtain i where i: "v = Inr i" by (cases v) auto
    obtain u w3 where u: "run (ur_UpsertByIdentity users_repo (Identity_Provider i)
        (Identity_Subject i) (Identity_Email i)) w2 = (u, w3)" by (rule prog_run_cases)
    from V have "inv w2" by simp
    note U = upsert_user[OF this u]
    show ?thesis
    proof (cases "isl u \<or> isl (rand_at E (ticks w3))")
      case isl: True
      then show ?thesis using assms L V U l v i u True
        by (auto simp: Exchange_def run_simps newToken_def ticks_simps split: if_splits sum.splits)
    next
      case False
      then obtain user b where user: "u = Inr user" "rand_at E (ticks w3) = Inr b"
        by (cases u; cases "rand_at E (ticks w3)") auto
      define tok where "tok = ''aeu_'' @ RawURLEncode b"
      define now where "now = now_at E (Suc (ticks w3))"
      define w4 where "w4 = w3\<lparr>ticks := Suc (Suc (ticks w3))\<rparr>"
      have w4: "inv w4" "tlook w4 = tlook w" "alook w4 = alook w" "ulook w4 (User_ID user) = Some user" "1000 \<le> now"
        using L V U user by (auto simp: w4_def ticks_simps now_def clock_started)
      define t where "t = \<lparr>UserToken_TokenHash = HashToken tok, UserToken_UserID = User_ID user,
         UserToken_ExpiresAt = now + UserTokenTTL c, UserToken_CreatedAt = now\<rparr>"
      obtain d w5 where d: "run (tr_Create tokens_repo t) w4 = (d, w5)" by (rule prog_run_cases)
      note T = create_token[OF w4(1) d, unfolded w4]
      have "(r, w') = (case d of Inl e \<Rightarrow> Inl (Wrap e ''could not sign in'')
          | Inr _ \<Rightarrow> Inr \<lparr>xr_User = user, xr_Token = tok, xr_ExpiresAt = now + UserTokenTTL c\<rparr>, w5)"
        using assms(2) l v i u user d True
        by (cases d) (auto simp: Exchange_def run_simps newToken_def w4_def tok_def now_def Let_def t_def
            tokenPrefixUser_def Add_def)
      then show ?thesis using T w4 U V L v i user True
        by (cases d) (auto simp: t_def tok_def)
    qed
  qed
qed

end

end
