(* ===== verification/Oidc.thy ===== *)
theory Oidc
  imports World Ports Json
begin

text \<open>
  The identity verifiers (server/internal/adapters/oidc): the choice of the providers from their
  client ids, the checks on the claims of a verified token, and the development verifier. The
  library go-oidc is a parameter: \<open>oidc_lib\<close> holds the discovery of a provider and the token
  verifiers it makes, each of which is a program that returns a token or an error. What its
  documentation promises that theorems need is the predicate \<open>lib_quiet\<close>: it does not touch the database.
\<close>

section \<open>The library go-oidc\<close>

record IDToken =
  Issuer :: string
  Audience :: "string list"
  Subject :: string
  token_claims :: json

type_synonym IDTokenVerifier = "string \<Rightarrow> (world, err + IDToken) prog"

record oidc_lib =
  oidc_NewProvider :: "string \<Rightarrow> err option"
  provider_Verifier :: "string \<Rightarrow> string \<Rightarrow> IDTokenVerifier"
  oidc_NewVerifier :: "string \<Rightarrow> string \<Rightarrow> IDTokenVerifier"

section \<open>Google (google.go)\<close>

record EmailClaims =
  cl_Email :: string
  cl_EmailVerified :: bool

definition google_field :: "string \<Rightarrow> json \<Rightarrow> EmailClaims \<Rightarrow> err + EmailClaims" where
  "google_field n v c =
     (if n = ''email''
      then (case decode_string (cl_Email c) v of Inl e \<Rightarrow> Inl e | Inr s \<Rightarrow> Inr (c\<lparr>cl_Email := s\<rparr>))
      else (case decode_bool (cl_EmailVerified c) v of Inl e \<Rightarrow> Inl e | Inr b \<Rightarrow> Inr (c\<lparr>cl_EmailVerified := b\<rparr>)))"

definition google_claims :: "json \<Rightarrow> err + EmailClaims" where
  "google_claims v =
     decode_struct False [''email'', ''email_verified''] google_field v
       \<lparr>cl_Email = '''', cl_EmailVerified = False\<rparr>"

definition GoogleVerifier_Verify :: "IDTokenVerifier \<Rightarrow> string \<Rightarrow> (world, err + Identity) prog" where
  "GoogleVerifier_Verify verifier idToken =
     pbind (verifier idToken) (\<lambda>r. Done (case r of
        Inl e \<Rightarrow> Inl e
      | Inr token \<Rightarrow> (case google_claims (token_claims token) of
          Inl e \<Rightarrow> Inl (Wrapf ''parse google id token claims: '' e '''')
        | Inr claims \<Rightarrow>
          if cl_Email claims = '''' then Inl (Plain ''google id token has no email claim'')
          else if \<not> cl_EmailVerified claims then Inl (Plain ''google email is not verified'')
          else Inr \<lparr>Identity_Provider = ProviderGoogle, Identity_Subject = Subject token,
                    Identity_Email = cl_Email claims\<rparr>)))"

definition NewGoogle :: "oidc_lib \<Rightarrow> string \<Rightarrow> string \<Rightarrow> err + (string \<Rightarrow> (world, err + Identity) prog)" where
  "NewGoogle lib clientID issuer =
     (case oidc_NewProvider lib issuer of
        Some e \<Rightarrow> Inl (Wrapf ''discover google oidc provider: '' e '''')
      | None \<Rightarrow> Inr (GoogleVerifier_Verify (provider_Verifier lib issuer clientID)))"

section \<open>Apple (apple.go)\<close>

text \<open>\<open>strconv.ParseBool\<close>.\<close>

definition ParseBool :: "string \<Rightarrow> bool option" where
  "ParseBool s =
     (if s \<in> {''1'', ''t'', ''T'', ''true'', ''TRUE'', ''True''} then Some True
      else if s \<in> {''0'', ''f'', ''F'', ''false'', ''FALSE'', ''False''} then Some False else None)"

text \<open>A bool, or a string that \<open>ParseBool\<close> reads; \<open>null\<close> decodes to \<open>false\<close>.\<close>

definition flexibleBool :: "json \<Rightarrow> err + bool" where
  "flexibleBool v =
     (case decode_bool False v of
        Inr b \<Rightarrow> Inr b
      | Inl _ \<Rightarrow> (case decode_string '''' v of
          Inl e \<Rightarrow> Inl (Wrapf ''value is neither bool nor string: '' e '''')
        | Inr s \<Rightarrow> (case ParseBool s of
            None \<Rightarrow> Inl (Wrapf ''string value is not a bool: '' (Plain ''invalid syntax'') '''')
          | Some b \<Rightarrow> Inr b)))"

definition apple_field :: "string \<Rightarrow> json \<Rightarrow> EmailClaims \<Rightarrow> err + EmailClaims" where
  "apple_field n v c =
     (if n = ''email''
      then (case decode_string (cl_Email c) v of Inl e \<Rightarrow> Inl e | Inr s \<Rightarrow> Inr (c\<lparr>cl_Email := s\<rparr>))
      else (case flexibleBool v of Inl e \<Rightarrow> Inl e | Inr b \<Rightarrow> Inr (c\<lparr>cl_EmailVerified := b\<rparr>)))"

definition apple_claims :: "json \<Rightarrow> err + EmailClaims" where
  "apple_claims v =
     decode_struct False [''email'', ''email_verified''] apple_field v
       \<lparr>cl_Email = '''', cl_EmailVerified = False\<rparr>"

definition AppleVerifier_Verify :: "IDTokenVerifier \<Rightarrow> string \<Rightarrow> (world, err + Identity) prog" where
  "AppleVerifier_Verify verifier idToken =
     pbind (verifier idToken) (\<lambda>r. Done (case r of
        Inl e \<Rightarrow> Inl e
      | Inr token \<Rightarrow> (case apple_claims (token_claims token) of
          Inl e \<Rightarrow> Inl (Wrapf ''parse apple id token claims: '' e '''')
        | Inr claims \<Rightarrow>
          if cl_Email claims = '''' then Inl (Plain ''apple id token has no email claim'')
          else if \<not> cl_EmailVerified claims then Inl (Plain ''apple email is not verified'')
          else Inr \<lparr>Identity_Provider = ProviderApple, Identity_Subject = Subject token,
                    Identity_Email = cl_Email claims\<rparr>)))"

definition NewApple :: "oidc_lib \<Rightarrow> string \<Rightarrow> string \<Rightarrow> err + (string \<Rightarrow> (world, err + Identity) prog)" where
  "NewApple lib clientID issuer =
     (case oidc_NewProvider lib issuer of
        Some e \<Rightarrow> Inl (Wrapf ''discover apple oidc provider: '' e '''')
      | None \<Rightarrow> Inr (AppleVerifier_Verify (provider_Verifier lib issuer clientID)))"

section \<open>Microsoft (microsoft.go)\<close>

text \<open>
  The pattern \<open>^https://login\.microsoftonline\.com/([^/]+)/v2\.0$\<close>: the text between the two
  fixed parts, if it is not empty and has no slash.
\<close>

definition microsoftIssuerPattern :: "string \<Rightarrow> string option" where
  "microsoftIssuerPattern issuer =
     (case CutPrefix ''https://login.microsoftonline.com/'' issuer of
        None \<Rightarrow> None
      | Some rest \<Rightarrow> (case CutSuffix ''/v2.0'' rest of
          None \<Rightarrow> None
        | Some tenant \<Rightarrow> if tenant \<noteq> '''' \<and> CHR ''/'' \<notin> set tenant then Some tenant else None))"

definition microsoft_field :: "string \<Rightarrow> json \<Rightarrow> string \<Rightarrow> err + string" where
  "microsoft_field n v c = decode_string c v"

text \<open>\<open>restricted_to\<close> is \<open>None\<close> for an unrestricted verifier, else its tenant.\<close>

definition MicrosoftVerifier_Verify ::
  "string option \<Rightarrow> IDTokenVerifier \<Rightarrow> string \<Rightarrow> (world, err + Identity) prog" where
  "MicrosoftVerifier_Verify restricted_to verifier idToken =
     pbind (verifier idToken) (\<lambda>r. Done (case r of
        Inl e \<Rightarrow> Inl e
      | Inr token \<Rightarrow> (case microsoftIssuerPattern (Issuer token) of
          None \<Rightarrow> Inl (Plain (''microsoft id token issuer '' @ quoted (Issuer token) @ '' is not a tenant issuer''))
        | Some tenant \<Rightarrow>
          if restricted_to \<noteq> None \<and> restricted_to \<noteq> Some tenant
          then Inl (Plain (''microsoft id token tenant '' @ quoted tenant @ '' is not allowed''))
          else (case decode_struct False [''email''] microsoft_field (token_claims token) '''' of
            Inl e \<Rightarrow> Inl (Wrapf ''parse microsoft id token claims: '' e '''')
          | Inr email \<Rightarrow>
            Inr \<lparr>Identity_Provider = ProviderMicrosoft, Identity_Subject = Subject token,
                 Identity_Email = email\<rparr>))))"

definition NewMicrosoft ::
  "oidc_lib \<Rightarrow> string \<Rightarrow> string \<Rightarrow> string \<Rightarrow> err + (string \<Rightarrow> (world, err + Identity) prog)" where
  "NewMicrosoft lib clientID tenant jwksURL =
     (let verifier = oidc_NewVerifier lib jwksURL clientID in
      if tenant \<in> {'''', ''common'', ''consumers'', ''organizations''}
      then Inr (MicrosoftVerifier_Verify None verifier)
      else Inr (MicrosoftVerifier_Verify (Some tenant) verifier))"

section \<open>The choice of providers (verifier.go, dev.go)\<close>

definition dev_verify :: "string \<Rightarrow> string \<Rightarrow> (world, err + Identity) prog" where
  "dev_verify provider idToken =
     Done (Inr \<lparr>Identity_Provider = provider, Identity_Subject = idToken, Identity_Email = ''''\<rparr>)"

record providerOptions =
  allowDevVerifier :: bool
  googleClientID :: string
  googleIssuer :: string
  appleClientID :: string
  appleIssuer :: string
  microsoftClientID :: string
  microsoftTenant :: string
  microsoftJWKSURL :: string

text \<open>The map \<open>byProvider\<close>, as an association list.\<close>

type_synonym Verifier = "(string \<times> (string \<Rightarrow> (world, err + Identity) prog)) list"

text \<open>One \<open>if clientID != ""\<close> block: an error stops, a missing client id adds nothing.\<close>

definition add_provider ::
  "string \<Rightarrow> string \<Rightarrow> err + (string \<Rightarrow> (world, err + Identity) prog) \<Rightarrow> err + Verifier \<Rightarrow> err + Verifier" where
  "add_provider name clientID made m =
     (case m of
        Inl e \<Rightarrow> Inl e
      | Inr byProvider \<Rightarrow>
          if clientID = '''' then Inr byProvider
          else (case made of Inl e \<Rightarrow> Inl e | Inr verify \<Rightarrow> Inr ((name, verify) # byProvider)))"

definition newWithOptions :: "oidc_lib \<Rightarrow> providerOptions \<Rightarrow> err + Verifier" where
  "newWithOptions lib opts =
     (let google = add_provider ProviderGoogle (googleClientID opts)
                     (NewGoogle lib (googleClientID opts) (googleIssuer opts)) (Inr []);
          apple = add_provider ProviderApple (appleClientID opts)
                    (NewApple lib (appleClientID opts) (appleIssuer opts)) google;
          microsoft = add_provider ProviderMicrosoft (microsoftClientID opts)
                        (NewMicrosoft lib (microsoftClientID opts) (microsoftTenant opts) (microsoftJWKSURL opts)) apple
      in case microsoft of
           Inl e \<Rightarrow> Inl e
         | Inr byProvider \<Rightarrow>
             if byProvider = []
             then (if \<not> allowDevVerifier opts
                   then Inl (Plain ''no identity provider client id is configured and the dev verifier is not allowed in this environment'')
                   else Inr (map (\<lambda>p. (p, dev_verify p)) Providers))
             else Inr byProvider)"

definition oidc_New ::
  "oidc_lib \<Rightarrow> bool \<Rightarrow> string \<Rightarrow> string \<Rightarrow> string \<Rightarrow> string \<Rightarrow> err + Verifier" where
  "oidc_New lib allowDev google apple microsoft tenant =
     newWithOptions lib
       \<lparr>allowDevVerifier = allowDev, googleClientID = google,
        googleIssuer = ''https://accounts.google.com'', appleClientID = apple,
        appleIssuer = ''https://appleid.apple.com'', microsoftClientID = microsoft,
        microsoftTenant = tenant,
        microsoftJWKSURL = ''https://login.microsoftonline.com/common/discovery/v2.0/keys''\<rparr>"

definition Verifier_Verify :: "Verifier \<Rightarrow> world port_IdentityVerifier" where
  "Verifier_Verify v provider idToken =
     (case map_of v provider of
        None \<Rightarrow> Done (Inl (Wrapf '''' (Sentinel ErrProviderUnavailable) ('': '' @ quoted provider)))
      | Some verify \<Rightarrow> verify idToken)"

section \<open>What a verifier touches\<close>

text \<open>
  A program that only reads the clock, the network or the random source, and leaves the tables
  and the counters alone.
\<close>

definition untouched :: "world \<Rightarrow> world \<Rightarrow> bool" where
  "untouched w w' \<longleftrightarrow> ticks w \<le> ticks w' \<and> w' = w\<lparr>ticks := ticks w'\<rparr>"

definition quiet :: "(world, 'a) prog \<Rightarrow> bool" where
  "quiet p \<longleftrightarrow> prog_ok untouched (\<lambda>_. True) p"

definition lib_quiet :: "oidc_lib \<Rightarrow> bool" where
  "lib_quiet lib \<longleftrightarrow>
     (\<forall>s c t. quiet (provider_Verifier lib s c t) \<and> quiet (oidc_NewVerifier lib s c t))"

lemma reflp_untouched: "reflp untouched" by (rule reflpI) (simp add: untouched_def)

lemma transp_untouched: "transp untouched"
proof (rule transpI)
  fix u v w assume "untouched u v" "untouched v w"
  then have "ticks u \<le> ticks w" "w = (u\<lparr>ticks := ticks v\<rparr>)\<lparr>ticks := ticks w\<rparr>"
    unfolding untouched_def by (simp, metis)
  then show "untouched u w" unfolding untouched_def by simp
qed

lemma quiet_run: "quiet p \<Longrightarrow> run p w = (r, w') \<Longrightarrow> untouched w w'"
  using prog_ok_run[OF _ reflp_untouched transp_untouched, of "\<lambda>_. True" p w] by (simp add: quiet_def)

lemma quiet_Done [simp]: "quiet (Done a)" by (simp add: quiet_def)

lemma quiet_then_Done: "quiet p \<Longrightarrow> quiet (pbind p (\<lambda>r. Done (f r)))"
  unfolding quiet_def by (rule prog_ok_pbind) (auto intro: prog_ok_Done)

section \<open>The verifiers that can be in the map\<close>

definition provider_entry :: "oidc_lib \<Rightarrow> providerOptions \<Rightarrow> string \<times> (string \<Rightarrow> (world, err + Identity) prog) \<Rightarrow> bool" where
  "provider_entry lib opts e \<longleftrightarrow>
     (googleClientID opts \<noteq> '''' \<and> e = (ProviderGoogle,
        GoogleVerifier_Verify (provider_Verifier lib (googleIssuer opts) (googleClientID opts))))
   \<or> (appleClientID opts \<noteq> '''' \<and> e = (ProviderApple,
        AppleVerifier_Verify (provider_Verifier lib (appleIssuer opts) (appleClientID opts))))
   \<or> (microsoftClientID opts \<noteq> '''' \<and> e = (ProviderMicrosoft,
        MicrosoftVerifier_Verify
          (if microsoftTenant opts \<in> {'''', ''common'', ''consumers'', ''organizations''} then None
           else Some (microsoftTenant opts))
          (oidc_NewVerifier lib (microsoftJWKSURL opts) (microsoftClientID opts))))"

definition no_client_ids :: "providerOptions \<Rightarrow> bool" where
  "no_client_ids opts \<longleftrightarrow> googleClientID opts = '''' \<and> appleClientID opts = '''' \<and> microsoftClientID opts = ''''"

lemma add_provider_Inr:
  "add_provider n cid made m = Inr v \<longleftrightarrow>
     (\<exists>v0. m = Inr v0 \<and> (if cid = '''' then v = v0 else (\<exists>f. made = Inr f \<and> v = (n, f) # v0)))"
  by (auto simp: add_provider_def split: sum.splits)

lemma newWithOptions_entries:
  assumes "newWithOptions lib opts = Inr v" "(p, f) \<in> set v"
  shows "if no_client_ids opts then allowDevVerifier opts \<and> f = dev_verify p
         else provider_entry lib opts (p, f)"
  using assms
  by (auto simp: newWithOptions_def Let_def add_provider_Inr no_client_ids_def provider_entry_def
      NewGoogle_def NewApple_def NewMicrosoft_def split: sum.splits option.splits if_splits)

lemma provider_quiet:
  "quiet (ver t) \<Longrightarrow> quiet (GoogleVerifier_Verify ver t)"
  "quiet (ver t) \<Longrightarrow> quiet (AppleVerifier_Verify ver t)"
  "quiet (ver t) \<Longrightarrow> quiet (MicrosoftVerifier_Verify r ver t)"
  unfolding GoogleVerifier_Verify_def AppleVerifier_Verify_def MicrosoftVerifier_Verify_def
  by (simp_all add: quiet_then_Done)

lemma Verifier_Verify_quiet:
  assumes "newWithOptions lib opts = Inr v" "lib_quiet lib"
  shows "quiet (Verifier_Verify v p t)"
proof (cases "map_of v p")
  case None
  then show ?thesis by (simp add: Verifier_Verify_def)
next
  case (Some f)
  from newWithOptions_entries[OF assms(1) map_of_SomeD[OF Some]] show ?thesis
    using assms(2) Some
    by (auto simp: Verifier_Verify_def lib_quiet_def provider_entry_def dev_verify_def provider_quiet
        split: if_splits)
qed

section \<open>What an accepted identity rests on\<close>

lemma google_accepts:
  assumes "run (GoogleVerifier_Verify ver t) w = (Inr i, w')"
  shows "\<exists>tok c. run (ver t) w = (Inr tok, w') \<and> google_claims (token_claims tok) = Inr c
    \<and> cl_Email c \<noteq> '''' \<and> cl_EmailVerified c
    \<and> i = \<lparr>Identity_Provider = ProviderGoogle, Identity_Subject = Subject tok, Identity_Email = cl_Email c\<rparr>"
  using assms by (auto simp: GoogleVerifier_Verify_def run_simps split: prod.splits sum.splits if_splits)

lemma apple_accepts:
  assumes "run (AppleVerifier_Verify ver t) w = (Inr i, w')"
  shows "\<exists>tok c. run (ver t) w = (Inr tok, w') \<and> apple_claims (token_claims tok) = Inr c
    \<and> cl_Email c \<noteq> '''' \<and> cl_EmailVerified c
    \<and> i = \<lparr>Identity_Provider = ProviderApple, Identity_Subject = Subject tok, Identity_Email = cl_Email c\<rparr>"
  using assms by (auto simp: AppleVerifier_Verify_def run_simps split: prod.splits sum.splits if_splits)

lemma microsoftIssuerPattern_iff:
  "microsoftIssuerPattern iss = Some tenant \<longleftrightarrow>
     iss = ''https://login.microsoftonline.com/'' @ tenant @ ''/v2.0'' \<and> tenant \<noteq> [] \<and> CHR ''/'' \<notin> set tenant"
  (is "_ \<longleftrightarrow> iss = ?p @ tenant @ ?s \<and> _")
proof
  assume "microsoftIssuerPattern iss = Some tenant"
  then show "iss = ?p @ tenant @ ?s \<and> tenant \<noteq> [] \<and> CHR ''/'' \<notin> set tenant"
    by (simp add: microsoftIssuerPattern_def CutPrefix_Some CutSuffix_Some split: option.splits if_splits)
next
  assume r: "iss = ?p @ tenant @ ?s \<and> tenant \<noteq> [] \<and> CHR ''/'' \<notin> set tenant"
  then have "CutPrefix ?p iss = Some (tenant @ ?s)" by (simp add: CutPrefix_Some)
  moreover have "CutSuffix ?s (tenant @ ?s) = Some tenant" by (simp add: CutSuffix_Some)
  ultimately show "microsoftIssuerPattern iss = Some tenant"
    using r unfolding microsoftIssuerPattern_def by simp
qed

lemma microsoft_accepts:
  assumes "run (MicrosoftVerifier_Verify restricted_to ver t) w = (Inr i, w')"
  shows "\<exists>tok tenant. run (ver t) w = (Inr tok, w')
    \<and> Issuer tok = ''https://login.microsoftonline.com/'' @ tenant @ ''/v2.0''
    \<and> tenant \<noteq> '''' \<and> CHR ''/'' \<notin> set tenant
    \<and> (restricted_to = None \<or> restricted_to = Some tenant)
    \<and> Identity_Provider i = ProviderMicrosoft \<and> Identity_Subject i = Subject tok"
  using assms
  by (auto simp: MicrosoftVerifier_Verify_def run_simps microsoftIssuerPattern_iff
      split: prod.splits sum.splits if_splits option.splits)

end
