(* ===== verification/AuthStore.thy ===== *)
theory AuthStore
  imports EventStore AuthContracts Oidc
begin

text \<open>
  The Postgres repositories of users, tokens and agents, the memory rate limiter and the OIDC
  verifiers meet the contracts that the authentication use cases rely on: the interpretation
  \<open>pg_auth\<close> discharges the laws of the locale \<open>auth_service\<close> on the model of the code.
\<close>

section \<open>The views\<close>

definition user_lookup :: "Env \<Rightarrow> world \<Rightarrow> string \<Rightarrow> User option" where
  "user_lookup E w i =
     (case pg_uuid E i of
        None \<Rightarrow> None
      | Some k \<Rightarrow> map_option userFromRow (find (\<lambda>r. gu_ID r = k) (users w)))"

definition token_lookup :: "world \<Rightarrow> string \<Rightarrow> UserToken option" where
  "token_lookup w h = map_option userTokenFromRow (find (\<lambda>r. gt_TokenHash r = h) (user_tokens w))"

definition agent_lookup :: "Env \<Rightarrow> world \<Rightarrow> string \<Rightarrow> Agent option" where
  "agent_lookup E w i =
     (case pg_uuid E i of
        None \<Rightarrow> None
      | Some k \<Rightarrow> map_option agentFromRow (find (\<lambda>r. ga_ID r = k) (agents w)))"

definition key_lookup :: "world \<Rightarrow> string \<Rightarrow> Agent option" where
  "key_lookup w h = map_option agentFromRow (find (\<lambda>r. ga_KeyHash r = h) (agents w))"

definition stamp :: "Env \<Rightarrow> time \<Rightarrow> time" where
  "stamp E t = (if IsZero t then t else pg_time E t)"

definition store_token :: "Env \<Rightarrow> UserToken \<Rightarrow> UserToken" where
  "store_token E t =
     t\<lparr>UserToken_UserID := canon E (UserToken_UserID t), UserToken_ExpiresAt := stamp E (UserToken_ExpiresAt t),
       UserToken_CreatedAt := stamp E (UserToken_CreatedAt t)\<rparr>"

definition store_agent :: "Env \<Rightarrow> Agent \<Rightarrow> Agent" where
  "store_agent E a =
     a\<lparr>Agent_ID := canon E (Agent_ID a), Agent_UserID := canon E (Agent_UserID a),
       Agent_CreatedAt := stamp E (Agent_CreatedAt a), Agent_RevokedAt := stamp E (Agent_RevokedAt a),
       Agent_LastUsedAt := stamp E (Agent_LastUsedAt a)\<rparr>"


definition auth_inv :: "Env \<Rightarrow> world port_IdentityVerifier \<Rightarrow> world \<Rightarrow> bool" where
  "auth_inv E ver w \<longleftrightarrow> pg_inv E w \<and> (\<forall>p t. quiet (ver p t))"


lemma stamp_row: "timeFromTimestamptz (stored E (timestamptz_of t)) = stamp E t"
  by (simp add: timeFromTimestamptz_def stored_def timestamptz_of_def stamp_def zero_time_def IsZero_def)

lemma views_ticks [simp]:
  "user_lookup E (w\<lparr>ticks := n\<rparr>) = user_lookup E w" "token_lookup (w\<lparr>ticks := n\<rparr>) = token_lookup w"
  "agent_lookup E (w\<lparr>ticks := n\<rparr>) = agent_lookup E w" "key_lookup (w\<lparr>ticks := n\<rparr>) = key_lookup w"
  by (auto simp: user_lookup_def token_lookup_def agent_lookup_def key_lookup_def fun_eq_iff split: option.splits)

lemma auth_inv_prog:
  assumes "auth_inv E ver w" "env_ok E \<Longrightarrow> prog_ok (safe_step E) Q p" "run p w = (r, w')"
  shows "auth_inv E ver w' \<and> ticks w \<le> ticks w'"
  using assms pg_inv_prog[of E w Q p r w'] by (auto simp: auth_inv_def evolves_def)

lemma auth_inv_untouched:
  assumes "auth_inv E ver w" "untouched w w'"
  shows "auth_inv E ver w' \<and> user_lookup E w' = user_lookup E w \<and> token_lookup w' = token_lookup w
    \<and> agent_lookup E w' = agent_lookup E w \<and> key_lookup w' = key_lookup w"
proof -
  have "w' = w\<lparr>ticks := ticks w'\<rparr>" using assms(2) by (simp add: untouched_def)
  then show ?thesis using assms(1)
    by (metis auth_inv_def pg_inv_def db_inv_ticks views_ticks)
qed

text \<open>A table that is the same is looked up the same.\<close>

lemma views_frame:
  "users w' = users w \<Longrightarrow> user_lookup E w' = user_lookup E w"
  "user_tokens w' = user_tokens w \<Longrightarrow> token_lookup w' = token_lookup w"
  "agents w' = agents w \<Longrightarrow> agent_lookup E w' = agent_lookup E w"
  "agents w' = agents w \<Longrightarrow> key_lookup w' = key_lookup w"
  by (auto simp: user_lookup_def token_lookup_def agent_lookup_def key_lookup_def fun_eq_iff split: option.splits)

section \<open>Users\<close>

lemma get_user_law:
  assumes "run (UserRepository_Get E i) w = (r, w')"
  shows "w' = w\<lparr>ticks := Suc (ticks w)\<rparr>
      \<and> (case r of Inr u \<Rightarrow> user_lookup E w i = Some u
           | Inl x \<Rightarrow> (errors_Is x ErrUserNotFound \<longrightarrow> user_lookup E w i = None)
               \<and> (reliable E \<longrightarrow> errors_Is x ErrUserNotFound))"
  using assms
  by (auto simp: UserRepository_Get_def run_simps q_GetUserByID_def sql_def with_tick_def select_def
      user_lookup_def asNotFound_def bad_uuid_def split: option.splits if_splits)

text \<open>The three ways an upsert ends: refused, the known identity updated, or a new row.\<close>

definition set_email :: "string \<Rightarrow> string \<Rightarrow> string \<Rightarrow> gen_User \<Rightarrow> gen_User" where
  "set_email p s m u = (if same_identity p s u then u\<lparr>gu_Email := m\<rparr> else u)"

lemma upsert_cases:
  assumes "run (UserRepository_UpsertByIdentity E p s m) w = (r, w')" "env_ok E"
  obtains (refused) x n where "r = Inl x" "w' = w\<lparr>ticks := n\<rparr>"
  | (known) x n where "find (same_identity p s) (users w) = Some x" "r = Inr (userFromRow (x\<lparr>gu_Email := m\<rparr>))"
      "w' = w\<lparr>users := map (set_email p s m) (users w), ticks := n\<rparr>"
  | (fresh) row n where "find (same_identity p s) (users w) = None" "\<not> user_exists w (gu_ID row)"
      "pg_uuid E (gu_ID row) = Some (gu_ID row)" "gu_Provider row = p" "gu_Subject row = s" "gu_Email row = m"
      "r = Inr (userFromRow row)" "w' = w\<lparr>users := users w @ [row], ticks := n\<rparr>"
proof -
  define k where "k = uuid_at E (ticks w)"
  have k: "pg_uuid E k = Some k" using assms(2) by (simp add: env_ok_def k_def)
  let ?arg = "\<lparr>gu_ID = k, gu_Provider = p, gu_Subject = s, gu_Email = m,
       gu_CreatedAt = timestamptz_of (now_at E (Suc (ticks w)))\<rparr>"
  obtain q w2 where q: "q_UpsertUserIdentity E ?arg (w\<lparr>ticks := Suc (Suc (ticks w))\<rparr>) = (q, w2)" by fastforce
  have r: "r = (case q of Inl e \<Rightarrow> Inl e | Inr row \<Rightarrow> Inr (userFromRow row))" "w' = w2"
    using assms(1) q by (auto simp: UserRepository_UpsertByIdentity_def run_simps k_def)
  have f: "(\<lambda>u. if same_identity p s u then u\<lparr>gu_Email := m\<rparr> else u) = set_email p s m"
    by (simp add: set_email_def fun_eq_iff)
  let ?n = "Suc (Suc (Suc (ticks w)))"
  let ?row = "?arg\<lparr>gu_CreatedAt := stored E (gu_CreatedAt ?arg)\<rparr>"
  note unf = q_UpsertUserIdentity_def sql_def with_tick_def k
  show thesis
  proof (cases "find (same_identity p s) (users w)")
    case (Some x)
    have "(\<exists>x. q = Inl x) \<and> w2 = w\<lparr>ticks := ?n\<rparr> \<or> q = Inr (x\<lparr>gu_Email := m\<rparr>)
        \<and> w2 = w\<lparr>users := map (set_email p s m) (users w), ticks := ?n\<rparr>"
      using q Some by (auto simp: unf f[symmetric] split: option.splits if_splits)
    then show thesis using r refused known[OF Some] by auto
  next
    case None
    have "(\<exists>x. q = Inl x) \<and> w2 = w\<lparr>ticks := ?n\<rparr> \<or> q = Inr ?row \<and> \<not> user_exists w k
        \<and> w2 = w\<lparr>users := users w @ [?row], ticks := ?n\<rparr>"
      using q None by (auto simp: unf Let_def split: option.splits if_splits)
    then show thesis using r refused fresh[OF None, of ?row ?n] k by auto
  qed
qed

text \<open>The users table with distinct keys, as a map.\<close>

lemma user_lookup_row:
  assumes "users_inv E w" "x \<in> set (users w)"
  shows "user_lookup E w (gu_ID x) = Some (userFromRow x)"
  using assms by (auto simp: user_lookup_def users_inv_def list_all_iff find_key_iff)

lemma user_lookup_Some:
  assumes "user_lookup E w i = Some v"
  shows "\<exists>x \<in> set (users w). pg_uuid E i = Some (gu_ID x) \<and> v = userFromRow x"
  using assms by (auto simp: user_lookup_def split: option.splits dest!: find_Some_iff_set)

lemma known_lookup:
  assumes "users_inv E w" "find (same_identity p s) (users w) = Some x"
    "users w' = map (set_email p s m) (users w)"
  shows "user_lookup E w' = (\<lambda>j. if same_id E j (gu_ID x) then Some (userFromRow (x\<lparr>gu_Email := m\<rparr>)) else user_lookup E w j)"
proof
  fix j
  have x: "x \<in> set (users w)" "gu_Provider x = p" "gu_Subject x = s"
    using find_Some_iff_set[OF assms(2)] by (auto simp: same_identity_def)
  have id: "pg_uuid E (gu_ID x) = Some (gu_ID x)"
    using assms(1) x(1) by (auto simp: users_inv_def list_all_iff)
  have fx: "set_email p s m x = x\<lparr>gu_Email := m\<rparr>"
    using x by (simp add: set_email_def same_identity_def)
  have keep: "set_email p s m y = y" if "y \<in> set (users w)" "gu_ID y \<noteq> gu_ID x" for y
  proof -
    have "\<not> (gu_Provider y = p \<and> gu_Subject y = s)"
      using assms(1) x that by (auto simp: users_inv_def distinct_map inj_on_def)
    then show ?thesis by (auto simp: set_email_def same_identity_def)
  qed
  have fm: "find (\<lambda>r. gu_ID r = k) (users w') = map_option (set_email p s m) (find (\<lambda>r. gu_ID r = k) (users w))" for k
    unfolding assms(3) by (rule find_map_key) (simp add: set_email_def)
  have found: "find (\<lambda>r. gu_ID r = gu_ID x) (users w) = Some x"
    using assms(1) x(1) by (simp add: users_inv_def find_key_iff)
  have other: "map_option (set_email p s m) (find (\<lambda>r. gu_ID r = k) (users w)) = find (\<lambda>r. gu_ID r = k) (users w)"
    if "k \<noteq> gu_ID x" for k
  proof (cases "find (\<lambda>r. gu_ID r = k) (users w)")
    case (Some y)
    then have "set_email p s m y = y" using keep that find_Some_iff_set[OF Some] by blast
    then show ?thesis using Some by simp
  qed simp
  show "user_lookup E w' j = (if same_id E j (gu_ID x)
      then Some (userFromRow (x\<lparr>gu_Email := m\<rparr>)) else user_lookup E w j)"
  proof (cases "pg_uuid E j")
    case None
    then show ?thesis by (simp add: user_lookup_def same_id_def)
  next
    case (Some k)
    then have "user_lookup E v j = map_option userFromRow (find (\<lambda>r. gu_ID r = k) (users v))" for v
      by (simp add: user_lookup_def)
    moreover have "same_id E j (gu_ID x) \<longleftrightarrow> k = gu_ID x"
      using Some id by (auto simp: same_id_def)
    ultimately show ?thesis using fm[of k] found fx other[of k] by auto
  qed
qed

lemma fresh_lookup:
  assumes "\<not> user_exists w (gu_ID row)" "pg_uuid E (gu_ID row) = Some (gu_ID row)" "users w' = users w @ [row]"
  shows "user_lookup E w' = (\<lambda>j. if same_id E j (gu_ID row) then Some (userFromRow row) else user_lookup E w j)"
    and "user_lookup E w i = Some v \<Longrightarrow> \<not> same_id E i (gu_ID row)"
proof -
  have "find (\<lambda>r. gu_ID r = gu_ID row) (users w) = None"
    using assms(1) by (simp add: find_None_set user_exists_def list_ex_iff)
  then show "user_lookup E w' = (\<lambda>j. if same_id E j (gu_ID row) then Some (userFromRow row) else user_lookup E w j)"
    and "user_lookup E w i = Some v \<Longrightarrow> \<not> same_id E i (gu_ID row)"
    using assms by (auto simp: user_lookup_def same_id_def find_append fun_eq_iff split: option.splits)
qed

lemma upsert_law:
  assumes "auth_inv E ver w" "run (UserRepository_UpsertByIdentity E p s m) w = (r, w')"
  shows "user_tokens w' = user_tokens w \<and> agents w' = agents w
      \<and> (case r of Inl x \<Rightarrow> user_lookup E w' = user_lookup E w
           | Inr u \<Rightarrow> User_Provider u = p \<and> User_Subject u = s \<and> User_Email u = m
               \<and> same_id E (User_ID u) (User_ID u)
               \<and> user_lookup E w' = (\<lambda>j. if same_id E j (User_ID u) then Some u else user_lookup E w j)
               \<and> (\<forall>i v. user_lookup E w i = Some v \<longrightarrow>
                    (User_Provider v = p \<and> User_Subject v = s \<longleftrightarrow> same_id E i (User_ID u))
                    \<and> (same_id E i (User_ID u) \<longrightarrow> u = v\<lparr>User_Email := m\<rparr>)))"
proof -
  have E: "env_ok E" and U: "users_inv E w" using assms(1) by (auto simp: auth_inv_def pg_inv_def db_inv_def)
  from assms(2) E show ?thesis
  proof (cases rule: upsert_cases)
    case (refused x n)
    then show ?thesis by simp
  next
    case (known x n)
    have x: "x \<in> set (users w)" "gu_Provider x = p" "gu_Subject x = s"
      using find_Some_iff_set[OF known(1)] by (auto simp: same_identity_def)
    have uuid: "pg_uuid E (gu_ID x) = Some (gu_ID x)"
      using U x(1) by (auto simp: users_inv_def list_all_iff)
    then have id: "same_id E (gu_ID x) (gu_ID x)" by (simp add: same_id_def)
    have "(User_Provider v = p \<and> User_Subject v = s \<longleftrightarrow> same_id E i (gu_ID x))
        \<and> (same_id E i (gu_ID x) \<longrightarrow> userFromRow (x\<lparr>gu_Email := m\<rparr>) = v\<lparr>User_Email := m\<rparr>)"
      if "user_lookup E w i = Some v" for i v
    proof -
      obtain y where y: "y \<in> set (users w)" "pg_uuid E i = Some (gu_ID y)" "v = userFromRow y"
        using user_lookup_Some[OF \<open>user_lookup E w i = Some v\<close>] by blast
      have "y = x \<longleftrightarrow> gu_ID y = gu_ID x" "y = x \<longleftrightarrow> gu_Provider y = p \<and> gu_Subject y = s"
        using U x y(1) by (auto simp: users_inv_def distinct_map inj_on_def)
      then show ?thesis using y uuid x by (auto simp: same_id_def userFromRow_def)
    qed
    moreover have "users w' = map (set_email p s m) (users w)" using known by simp
    note known_lookup[OF U known(1) this]
    ultimately show ?thesis using known x id by (simp add: userFromRow_def cong: if_cong)
  next
    case (fresh row n)
    have "users w' = users w @ [row]" using fresh by simp
    note L = fresh_lookup[OF fresh(2,3) this]
    have "\<not> (User_Provider v = p \<and> User_Subject v = s)" if "user_lookup E w i = Some v" for i v
      using user_lookup_Some[OF that] fresh(1)
      by (auto simp: userFromRow_def find_None_set same_identity_def)
    moreover have "same_id E (gu_ID row) (gu_ID row)" using fresh(3) by (simp add: same_id_def)
    moreover have "User_ID (userFromRow row) = gu_ID row" "User_Provider (userFromRow row) = p"
      "User_Subject (userFromRow row) = s" "User_Email (userFromRow row) = m"
      using fresh by (simp_all add: userFromRow_def)
    ultimately show ?thesis using L fresh(7,8) by auto
  qed
qed

interpretation pg_users: user_repository "NewUserRepository E" "user_lookup E" "same_id E"
  "\<lambda>w. (token_lookup w, agent_lookup E w, key_lookup w)" "auth_inv E ver" "reliable E" for E ver
proof (unfold_locales, goal_cases)
  case (1 w i j) then show ?case by (simp add: user_lookup_def same_id_def)
next
  case (2 w i u)
  then show ?case using user_lookup_Some[of E w i u]
    by (auto simp: auth_inv_def pg_inv_def db_inv_def users_inv_def list_all_iff same_id_def userFromRow_def)
next
  case (3 w i r w')
  then show ?case using get_user_law[of E i w r w'] auth_inv_prog[OF 3(1) ok_users(2)]
    by (simp add: NewUserRepository_def)
next
  case (4 w p s m r w')
  then show ?case
    using upsert_law[of E ver w p s m r w'] auth_inv_prog[OF 4(1) ok_users(1)] views_frame(2-4)[where w = w and w' = w']
    by (simp add: NewUserRepository_def)
qed

section \<open>User tokens\<close>

lemma get_token_law:
  assumes "run (UserTokenRepository_GetByHash E h) w = (r, w')"
  shows "w' = w\<lparr>ticks := Suc (ticks w)\<rparr>
      \<and> (case r of Inr t \<Rightarrow> token_lookup w h = Some t
           | Inl x \<Rightarrow> (errors_Is x ErrUserTokenNotFound \<longrightarrow> token_lookup w h = None)
               \<and> (reliable E \<longrightarrow> errors_Is x ErrUserTokenNotFound))"
  using assms
  by (auto simp: UserTokenRepository_GetByHash_def run_simps q_GetUserTokenByHash_def sql_def with_tick_def
      select_def token_lookup_def asNotFound_def split: option.splits if_splits)

lemma create_token_law:
  assumes "run (UserTokenRepository_Create E t) w = (r, w')"
  shows "users w' = users w \<and> agents w' = agents w
      \<and> (case r of Inl x \<Rightarrow> token_lookup w' = token_lookup w
           | Inr _ \<Rightarrow> token_lookup w (UserToken_TokenHash t) = None
               \<and> token_lookup w' = (token_lookup w)(UserToken_TokenHash t \<mapsto> store_token E t))"
proof (cases r)
  case (Inl x)
  then show ?thesis using assms
    by (auto simp: UserTokenRepository_Create_def q_InsertUserToken_def sql_def with_tick_def
        split: option.splits if_splits)
next
  case (Inr u)
  then obtain k n where k: "pg_uuid E (UserToken_UserID t) = Some k"
    and none: "\<not> list_ex (\<lambda>r. gt_TokenHash r = UserToken_TokenHash t) (user_tokens w)"
    and w': "w' = w\<lparr>ticks := n, user_tokens := user_tokens w @
        [\<lparr>gt_TokenHash = UserToken_TokenHash t, gt_UserID = k,
          gt_ExpiresAt = stored E (timestamptz_of (UserToken_ExpiresAt t)),
          gt_CreatedAt = stored E (timestamptz_of (UserToken_CreatedAt t))\<rparr>]\<rparr>"
    using assms
    by (auto simp: UserTokenRepository_Create_def q_InsertUserToken_def sql_def with_tick_def
        split: option.splits if_splits)
  have "find (\<lambda>r. gt_TokenHash r = UserToken_TokenHash t) (user_tokens w) = None"
    using none by (simp add: find_None_set list_ex_iff)
  then show ?thesis using Inr w' k
    by (auto simp: token_lookup_def find_append userTokenFromRow_def store_token_def stamp_row canon_def
        fun_eq_iff split: option.splits)
qed

lemma delete_token_law:
  assumes "run (UserTokenRepository_DeleteByHash E h) w = (r, w')"
  shows "users w' = users w \<and> agents w' = agents w
      \<and> (case r of Inl x \<Rightarrow> token_lookup w' = token_lookup w \<and> \<not> reliable E
           | Inr _ \<Rightarrow> token_lookup w' = (token_lookup w)(h := None))"
  using assms
  by (auto simp: UserTokenRepository_DeleteByHash_def q_DeleteUserTokenByHash_def sql_def with_tick_def
      token_lookup_def find_filter_key fun_eq_iff split: option.splits)

interpretation pg_tokens: token_repository "NewUserTokenRepository E" token_lookup "store_token E" ticks
  "\<lambda>w. (user_lookup E w, agent_lookup E w, key_lookup w)" "auth_inv E ver" "reliable E" for E ver
proof (unfold_locales, goal_cases)
  case (1 w h r w')
  then show ?case using get_token_law[of E h w r w'] auth_inv_prog[OF 1(1) ok_tokens(2)]
    by (simp add: NewUserTokenRepository_def)
next
  case (2 w t rc w')
  then show ?case using create_token_law[of E t w rc w'] auth_inv_prog[OF 2(1) ok_tokens(1)]
      views_frame(1,3,4)[where w = w and w' = w']
    by (simp add: NewUserTokenRepository_def)
next
  case (3 w h rc w')
  then show ?case using delete_token_law[of E h w rc w'] auth_inv_prog[OF 3(1) ok_tokens(3)]
      views_frame(1,3,4)[where w = w and w' = w']
    by (simp add: NewUserTokenRepository_def)
qed

section \<open>Agents\<close>

lemma agent_lookup_row:
  assumes "agents_inv E w" "x \<in> set (agents w)"
  shows "agent_lookup E w (ga_ID x) = Some (agentFromRow x)"
  using assms by (auto simp: agent_lookup_def agents_inv_def list_all_iff find_key_iff)

lemma agent_lookup_Some:
  assumes "agent_lookup E w i = Some a"
  shows "\<exists>x \<in> set (agents w). pg_uuid E i = Some (ga_ID x) \<and> a = agentFromRow x"
  using assms by (auto simp: agent_lookup_def split: option.splits dest!: find_Some_iff_set)

lemma agents_distinct:
  assumes "agents_inv E w" "x \<in> set (agents w)" "y \<in> set (agents w)" "ga_ID x = ga_ID y"
  shows "x = y"
  using assms by (auto simp: agents_inv_def distinct_map inj_on_def)

lemma agentFromRow_fields [simp]:
  "Agent_ID (agentFromRow x) = ga_ID x" "Agent_UserID (agentFromRow x) = ga_UserID x"
  "Agent_KeyHash (agentFromRow x) = ga_KeyHash x"
  "Agent_CreatedAt (agentFromRow x) = timeFromTimestamptz (ga_CreatedAt x)"
  by (simp_all add: agentFromRow_def)

lemma Revoked_row:
  assumes "agents_inv E w" "x \<in> set (agents w)"
  shows "Revoked (agentFromRow x) \<longleftrightarrow> ga_RevokedAt x \<noteq> None"
  using assms
  by (cases "ga_RevokedAt x")
    (auto simp: Revoked_def agentFromRow_def IsZero_def timeFromTimestamptz_def agents_inv_def list_all_iff)

lemma key_iff_law:
  assumes "agents_inv E w"
  shows "key_lookup w h = Some a \<longleftrightarrow> agent_lookup E w (Agent_ID a) = Some a \<and> Agent_KeyHash a = h"
proof -
  have k: "find (\<lambda>r. ga_KeyHash r = h) (agents w) = Some x \<longleftrightarrow> x \<in> set (agents w) \<and> ga_KeyHash x = h" for x
    using assms by (intro find_key_iff) (simp add: agents_inv_def)
  have "key_lookup w h = Some a \<longleftrightarrow> (\<exists>x \<in> set (agents w). ga_KeyHash x = h \<and> a = agentFromRow x)"
    using k by (auto simp: key_lookup_def)
  also have "\<dots> \<longleftrightarrow> agent_lookup E w (Agent_ID a) = Some a \<and> Agent_KeyHash a = h"
    using agent_lookup_row[OF assms] agent_lookup_Some[of E w "Agent_ID a" a] by fastforce
  finally show ?thesis .
qed

lemma get_agent_law:
  assumes "run (AgentRepository_Get E i) w = (r, w')"
  shows "w' = w\<lparr>ticks := Suc (ticks w)\<rparr>
      \<and> (case r of Inr a \<Rightarrow> agent_lookup E w i = Some a
           | Inl x \<Rightarrow> (errors_Is x ErrAgentNotFound \<longrightarrow> agent_lookup E w i = None)
               \<and> (reliable E \<longrightarrow> errors_Is x ErrAgentNotFound))"
  using assms
  by (auto simp: AgentRepository_Get_def run_simps q_GetAgentByID_def sql_def with_tick_def select_def
      agent_lookup_def asNotFound_def bad_uuid_def split: option.splits if_splits)

lemma get_by_key_law:
  assumes "run (AgentRepository_GetByKeyHash E h) w = (r, w')"
  shows "w' = w\<lparr>ticks := Suc (ticks w)\<rparr>
      \<and> (case r of Inr a \<Rightarrow> key_lookup w h = Some a
           | Inl x \<Rightarrow> (errors_Is x ErrAgentNotFound \<longrightarrow> key_lookup w h = None)
               \<and> (reliable E \<longrightarrow> errors_Is x ErrAgentNotFound))"
  using assms
  by (auto simp: AgentRepository_GetByKeyHash_def run_simps q_GetAgentByKeyHash_def sql_def with_tick_def
      select_def key_lookup_def asNotFound_def split: option.splits if_splits)

lemma user_exists_canonical: "users_inv E w \<Longrightarrow> user_exists w k \<Longrightarrow> pg_uuid E k = Some k"
  by (auto simp: users_inv_def list_all_iff user_exists_def list_ex_iff)

lemma list_agents_law:
  assumes "auth_inv E ver w" "run (AgentRepository_ListByUser E u) w = (r, w')"
  shows "w' = w\<lparr>ticks := Suc (ticks w)\<rparr>
      \<and> (case r of Inr found \<Rightarrow> distinct (map Agent_ID found) \<and> sorted (map Agent_CreatedAt found)
               \<and> set found = {a. agent_lookup E w (Agent_ID a) = Some a \<and> same_id E u (Agent_UserID a)}
           | Inl x \<Rightarrow> True)"
proof (cases r)
  case (Inl x)
  then show ?thesis using assms(2)
    by (auto simp: AgentRepository_ListByUser_def run_simps q_ListAgentsByUser_def sql_def with_tick_def
        select_def split: option.splits)
next
  case (Inr found)
  have A: "agents_inv E w" and U: "users_inv E w"
    using assms(1) by (auto simp: auth_inv_def pg_inv_def db_inv_def)
  obtain k where k: "pg_uuid E u = Some k" and w': "w' = w\<lparr>ticks := Suc (ticks w)\<rparr>"
    and f: "found = map agentFromRow (sort_key (\<lambda>r. created_key (ga_CreatedAt r)) (filter (\<lambda>r. ga_UserID r = k) (agents w)))"
    using assms(2) Inr
    by (auto simp: AgentRepository_ListByUser_def run_simps q_ListAgentsByUser_def sql_def with_tick_def
        select_def split: option.splits)
  have owner: "pg_uuid E (ga_UserID x) = Some (ga_UserID x)" if "x \<in> set (agents w)" for x
    using A that user_exists_canonical[OF U] by (auto simp: agents_inv_def list_all_iff)
  let ?rows = "sort_key (\<lambda>r. created_key (ga_CreatedAt r)) (filter (\<lambda>r. ga_UserID r = k) (agents w))"
  have "distinct (map ga_ID ?rows)"
    using A by (simp add: agents_inv_def distinct_map inj_on_def)
  moreover have "sorted (map (\<lambda>r. created_key (ga_CreatedAt r)) ?rows)"
    by (rule sorted_sort_key)
  moreover have "timeFromTimestamptz = created_key"
    by (simp add: fun_eq_iff timeFromTimestamptz_def created_key_def zero_time_def split: option.split)
  moreover have "set found = {a. agent_lookup E w (Agent_ID a) = Some a \<and> same_id E u (Agent_UserID a)}"
    using agent_lookup_row[OF A] owner k agent_lookup_Some[of E w]
    by (fastforce simp: f same_id_def)
  ultimately show ?thesis using Inr w'
    by (simp add: f comp_def)
qed

definition new_agent_row :: "Env \<Rightarrow> Agent \<Rightarrow> string \<Rightarrow> string \<Rightarrow> gen_Agent" where
  "new_agent_row E a k u = (insertAgentParams a)\<lparr>ga_ID := k, ga_UserID := u,
     ga_CreatedAt := stored E (timestamptz_of (Agent_CreatedAt a)),
     ga_RevokedAt := stored E (timestamptz_of (Agent_RevokedAt a)),
     ga_LastUsedAt := stored E (timestamptz_of (Agent_LastUsedAt a))\<rparr>"

lemma create_agent_cases:
  assumes "run (AgentRepository_CreateIfUnderLimit E a n) w = (r, w')"
  obtains (refused) m where "r \<noteq> Inr True" "w' = w\<lparr>ticks := m\<rparr>"
  | (created) k u m where "r = Inr True" "pg_uuid E (Agent_ID a) = Some k" "pg_uuid E (Agent_UserID a) = Some u"
      "\<not> list_ex (\<lambda>r. ga_ID r = k \<or> ga_KeyHash r = Agent_KeyHash a) (agents w)"
      "user_exists w u" "int (length (filter (active_of u) (agents w))) < n"
      "w' = w\<lparr>agents := agents w @ [new_agent_row E a k u], ticks := m\<rparr>"
proof -
  have p: "ga_ID (insertAgentParams a) = Agent_ID a" "ga_UserID (insertAgentParams a) = Agent_UserID a"
    "ga_KeyHash (insertAgentParams a) = Agent_KeyHash a"
    "ga_CreatedAt (insertAgentParams a) = timestamptz_of (Agent_CreatedAt a)"
    "ga_RevokedAt (insertAgentParams a) = timestamptz_of (Agent_RevokedAt a)"
    "ga_LastUsedAt (insertAgentParams a) = timestamptz_of (Agent_LastUsedAt a)"
    by (simp_all add: insertAgentParams_def)
  show thesis
    using assms refused created
    unfolding AgentRepository_CreateIfUnderLimit_def CreateIfUnderLimit_tx_def tx_Begin_def tx_Commit_def
      q_LockUserForUpdate_def q_CountActiveAgentsByUser_def q_InsertAgent_def sql_def with_tick_def select_def rollback_def
    by (auto simp: p new_agent_row_def split: option.splits if_splits)
qed

lemma new_agent_row_read:
  "pg_uuid E (Agent_ID a) = Some k \<Longrightarrow> pg_uuid E (Agent_UserID a) = Some u \<Longrightarrow>
     agentFromRow (new_agent_row E a k u) = store_agent E a"
  by (simp add: new_agent_row_def agentFromRow_def store_agent_def insertAgentParams_def stamp_row canon_def)

lemma create_agent_law:
  assumes "auth_inv E ver w" "run (AgentRepository_CreateIfUnderLimit E a n) w = (r, w')"
  shows "users w' = users w \<and> user_tokens w' = user_tokens w
      \<and> (case r of Inl x \<Rightarrow> agent_lookup E w' = agent_lookup E w
           | Inr made \<Rightarrow>
               if made
               then agent_lookup E w (Agent_ID a) = None \<and> key_lookup w (Agent_KeyHash a) = None
                 \<and> same_id E (Agent_ID a) (Agent_ID a) \<and> Agent_KeyHash (store_agent E a) = Agent_KeyHash a
                 \<and> same_id E (Agent_ID a) (Agent_ID (store_agent E a))
                 \<and> agent_lookup E w' = (\<lambda>j. if same_id E j (Agent_ID a) then Some (store_agent E a) else agent_lookup E w j)
               else agent_lookup E w' = agent_lookup E w)"
  using assms(2)
proof (cases rule: create_agent_cases)
  case (refused m)
  then show ?thesis by (auto split: sum.splits)
next
  case (created k u m)
  have kk: "pg_uuid E k = Some k"
    using assms(1) created(2) by (auto simp: auth_inv_def pg_inv_def env_ok_def)
  have none: "find (\<lambda>r. ga_ID r = k) (agents w) = None" "find (\<lambda>r. ga_KeyHash r = Agent_KeyHash a) (agents w) = None"
    using created(4) by (auto simp: find_None_set list_ex_iff)
  have row: "ga_ID (new_agent_row E a k u) = k" by (simp add: new_agent_row_def)
  have "agent_lookup E w' j = (if same_id E j (Agent_ID a) then Some (store_agent E a) else agent_lookup E w j)" for j
    using created none row new_agent_row_read[OF created(2,3)]
    by (auto simp: agent_lookup_def same_id_def find_append split: option.splits)
  then show ?thesis using created none kk
    by (auto simp: agent_lookup_def key_lookup_def same_id_def store_agent_def canon_def)
qed

text \<open>A statement that rewrites the rows with one identifier.\<close>

lemma agent_rows_rewritten:
  assumes A: "agents_inv E w" "agent_lookup E w i = Some a"
    and k: "pg_uuid E i = Some k" and w': "agents w' = map (\<lambda>r. if P r \<and> ga_ID r = k then f r else r) (agents w)"
    and P: "\<And>r. r \<in> set (agents w) \<Longrightarrow> ga_ID r = k \<Longrightarrow> P r" and f: "\<And>r. ga_ID (f r) = ga_ID r"
    and g: "\<And>r. agentFromRow (f r) = g (agentFromRow r)"
  shows "agent_lookup E w' = (\<lambda>j. if same_id E j i then Some (g a) else agent_lookup E w j)"
proof
  fix j
  have m: "agents w' = map (\<lambda>r. if ga_ID r = k then f r else r) (agents w)"
    unfolding w' by (rule map_cong) (auto simp: P)
  obtain x where x: "x \<in> set (agents w)" "ga_ID x = k" "a = agentFromRow x"
    using agent_lookup_Some[OF A(2)] k by auto
  then have "find (\<lambda>r. ga_ID r = k) (agents w) = Some x"
    using A(1) by (simp add: agents_inv_def find_key_iff)
  then show "agent_lookup E w' j = (if same_id E j i then Some (g a) else agent_lookup E w j)"
    using k x g find_update_key[of ga_ID f _ k "agents w", OF f]
    by (cases "pg_uuid E j") (auto simp: agent_lookup_def m same_id_def)
qed

lemma touch_agent_law:
  assumes "auth_inv E ver w" "agent_lookup E w i = Some a" "run (AgentRepository_TouchLastUsed E i t) w = (r, w')"
  shows "users w' = users w \<and> user_tokens w' = user_tokens w
      \<and> (case r of Inl x \<Rightarrow> agent_lookup E w' = agent_lookup E w
           | Inr _ \<Rightarrow> agent_lookup E w' = (\<lambda>j. if same_id E j i
               then Some (a\<lparr>Agent_LastUsedAt := stamp E t\<rparr>) else agent_lookup E w j))"
proof (cases r)
  case (Inl x)
  then show ?thesis using assms(2,3)
    by (auto simp: AgentRepository_TouchLastUsed_def q_TouchAgentLastUsed_def sql_def with_tick_def
        split: option.splits)
next
  case (Inr u)
  obtain k where k: "pg_uuid E i = Some k" using assms(2) by (auto simp: agent_lookup_def split: option.splits)
  have w': "users w' = users w" "user_tokens w' = user_tokens w"
    "agents w' = map (\<lambda>r. if True \<and> ga_ID r = k then r\<lparr>ga_LastUsedAt := stored E (timestamptz_of t)\<rparr> else r) (agents w)"
    using assms(3) Inr k
    by (auto simp: AgentRepository_TouchLastUsed_def q_TouchAgentLastUsed_def sql_def with_tick_def split: option.splits)
  have A: "agents_inv E w" using assms(1) by (simp add: auth_inv_def pg_inv_def db_inv_def)
  show ?thesis using Inr w'(1,2)
      agent_rows_rewritten[OF A assms(2) k w'(3), of "\<lambda>a. a\<lparr>Agent_LastUsedAt := stamp E t\<rparr>"]
    by (simp add: agentFromRow_def stamp_row)
qed

lemma revoke_agent_law:
  assumes "auth_inv E ver w" "agent_lookup E w i = Some a" "\<not> Revoked a" "1000 \<le> t"
    "run (AgentRepository_Revoke E i t) w = (r, w')"
  shows "users w' = users w \<and> user_tokens w' = user_tokens w \<and> \<not> IsZero (stamp E t)
      \<and> (case r of Inl x \<Rightarrow> agent_lookup E w' = agent_lookup E w
           | Inr _ \<Rightarrow> agent_lookup E w' = (\<lambda>j. if same_id E j i
               then Some (a\<lparr>Agent_RevokedAt := stamp E t\<rparr>) else agent_lookup E w j))"
proof -
  have A: "agents_inv E w" and E: "env_ok E" using assms(1) by (auto simp: auth_inv_def pg_inv_def db_inv_def)
  obtain k x where k: "pg_uuid E i = Some k" and x: "x \<in> set (agents w)" "ga_ID x = k" "a = agentFromRow x"
    using agent_lookup_Some[OF assms(2)] by auto
  have active: "ga_RevokedAt y = None" if "y \<in> set (agents w)" "ga_ID y = k" for y
    using agents_distinct[OF A that(1) x(1)] that x assms(3) Revoked_row[OF A x(1)] by auto
  have one: "filter (to_revoke k) (agents w) \<noteq> []"
    using x active by (auto simp: filter_empty_conv to_revoke_def)
  have z: "\<not> IsZero (stamp E t)"
  proof -
    have "t < pg_time E t + 1000" using E by (auto simp: env_ok_def)
    then show ?thesis using assms(4) by (simp add: stamp_def IsZero_def zero_time_def)
  qed
  show ?thesis
  proof (cases r)
    case (Inl e)
    then show ?thesis using assms(5) one z k
      by (auto simp: AgentRepository_Revoke_def run_simps q_RevokeAgent_def sql_def with_tick_def split: option.splits if_splits)
  next
    case (Inr u)
    then have w': "users w' = users w" "user_tokens w' = user_tokens w"
      "agents w' = map (\<lambda>r. if ga_RevokedAt r = None \<and> ga_ID r = k
         then r\<lparr>ga_RevokedAt := stored E (timestamptz_of t)\<rparr> else r) (agents w)"
      using assms(5) one k
      by (auto simp: AgentRepository_Revoke_def run_simps q_RevokeAgent_def sql_def with_tick_def to_revoke_def
          conj_commute split: option.splits if_splits)
    show ?thesis using Inr w'(1,2) z
        agent_rows_rewritten[OF A assms(2) k w'(3), of "\<lambda>a. a\<lparr>Agent_RevokedAt := stamp E t\<rparr>"] active
      by (simp add: agentFromRow_def stamp_row)
  qed
qed

interpretation pg_agents: agent_repository "NewAgentRepository E" "agent_lookup E" key_lookup "same_id E"
  "store_agent E" "stamp E" "\<lambda>w. (user_lookup E w, token_lookup w)" "auth_inv E ver" "reliable E" for E ver
proof (unfold_locales, goal_cases)
  case (1 w i j) then show ?case by (simp add: agent_lookup_def same_id_def)
next
  case (2 w i a)
  then show ?case using agent_lookup_Some[of E w i a]
    by (auto simp: auth_inv_def pg_inv_def db_inv_def agents_inv_def list_all_iff same_id_def)
next
  case (3 w h a)
  then show ?case by (intro key_iff_law) (simp add: auth_inv_def pg_inv_def db_inv_def)
next
  case (4 w i r w')
  then show ?case using get_agent_law[of E i w r w'] auth_inv_prog[OF 4(1) ok_agent_Get]
    by (simp add: NewAgentRepository_def)
next
  case (5 w h r w')
  then show ?case using get_by_key_law[of E h w r w'] auth_inv_prog[OF 5(1) ok_agents(3)]
    by (simp add: NewAgentRepository_def)
next
  case (6 w u rl w')
  then show ?case using list_agents_law[of E ver w u rl w'] auth_inv_prog[OF 6(1) ok_agents(4)]
    by (simp add: NewAgentRepository_def)
next
  case (7 w a n rb w')
  then have "times_ok E (timestamptz_of (Agent_RevokedAt a))"
    by (simp add: Revoked_def timestamptz_of_def)
  with 7 show ?case using create_agent_law[of E ver w a n rb w'] auth_inv_prog[OF 7(1) ok_agents(1)]
      views_frame(1,2)[where w = w and w' = w']
    by (simp add: NewAgentRepository_def)
next
  case (8 w i a t ru w')
  then show ?case using revoke_agent_law[of E ver w i a t ru w'] auth_inv_prog[OF 8(1) ok_agent_Revoke]
      views_frame(1,2)[where w = w and w' = w']
    by (simp add: NewAgentRepository_def)
next
  case (9 w i a t ru w')
  then show ?case using touch_agent_law[of E ver w i a t ru w'] auth_inv_prog[OF 9(1) ok_agents(5)]
      views_frame(1,2)[where w = w and w' = w']
    by (simp add: NewAgentRepository_def)
qed

section \<open>The service\<close>

lemma limiter_untouched:
  assumes "run (RateLimiter_Allow E limits key action) w = (r, w')"
  shows "users w' = users w \<and> user_tokens w' = user_tokens w \<and> agents w' = agents w"
  using assms by (auto simp: RateLimiter_Allow_def with_tick_def split: prod.splits)

interpretation pg_auth: auth_service E "NewUserRepository E" "user_lookup E" "same_id E"
  "NewUserTokenRepository E" token_lookup "store_token E" "NewAgentRepository E" "agent_lookup E" key_lookup
  "store_agent E" "stamp E" "RateLimiter_Allow E limits" ver "auth_inv E ver" "reliable E" for E limits ver
proof (unfold_locales, goal_cases)
  case (1 w key action r w')
  then show ?case using limiter_untouched[of E limits key action w r w'] auth_inv_prog[OF 1(1) safe_limiter]
      views_frame[where w = w and w' = w']
    by simp
next
  case (2 w p t r w')
  then show ?case using auth_inv_untouched[OF 2(1) quiet_run[of "ver p t" w r w']]
    by (auto simp: auth_inv_def)
qed (auto simp: auth_inv_def pg_inv_def env_ok_def)

end
