(* ===== verification/Sample.thy ===== *)
theory Sample
  imports Store
begin

text \<open>
  One concrete environment and database, at which the theorems of the development are applied: a
  clock that starts in 2026 and ticks every second, the texts \<open>u\<close>, \<open>ux\<close>, \<open>uxx\<close> ... as new
  identifiers, every text its own canonical UUID, no failing statement, and two users of whom the
  first has an agent and an event.
\<close>

definition sample_env :: Env where
  "sample_env =
     \<lparr>now_at = (\<lambda>i. 63900000000 * Second + int i * Second),
      uuid_at = (\<lambda>i. CHR ''u'' # replicate i CHR ''x''),
      rand_at = (\<lambda>i. Inr (replicate 32 (word_of_nat i))),
      order_at = (\<lambda>i ks. ks), fault_at = (\<lambda>i. None),
      pg_uuid = (\<lambda>s. if s = '''' then None else Some s), pg_time = (\<lambda>t. t - t mod 1000)\<rparr>"

definition sample_world :: world where
  "sample_world =
     \<lparr>users =
        [\<lparr>gu_ID = ''ann'', gu_Provider = ''google'', gu_Subject = ''1'', gu_Email = ''ann@x.org'',
          gu_CreatedAt = Some (63800000000 * Second)\<rparr>,
         \<lparr>gu_ID = ''bob'', gu_Provider = ''apple'', gu_Subject = ''1'', gu_Email = '''',
          gu_CreatedAt = Some (63800000000 * Second)\<rparr>],
      user_tokens =
        [\<lparr>gt_TokenHash = ''h0'', gt_UserID = ''ann'', gt_ExpiresAt = Some (63800003600 * Second),
          gt_CreatedAt = Some (63800000000 * Second)\<rparr>],
      agents =
        [\<lparr>ga_ID = ''a1'', ga_UserID = ''ann'', ga_Name = ''bot'', ga_KeyHash = ''k1'',
          ga_CreatedAt = Some (63800000000 * Second), ga_RevokedAt = None, ga_LastUsedAt = None\<rparr>],
      events =
        [\<lparr>ge_ID = ''e1'', ge_UserID = ''ann'', ge_Name = ''party'', ge_Description = '''',
          ge_CreatedAt = Some (63800000000 * Second), ge_UpdatedAt = Some (63800000000 * Second)\<rparr>],
      buckets = [], ticks = 0\<rparr>"

lemma sample_env_ok: "env_ok sample_env"
proof -
  have "t - t mod 1000 \<le> t \<and> t < t - t mod 1000 + 1000" for t :: int
    using pos_mod_bound[of 1000 t] pos_mod_sign[of 1000 t] by linarith
  moreover have "(t - t mod 1000) - (t - t mod 1000) mod 1000 = t - t mod 1000" for t :: int
    by (simp add: minus_mod_eq_mult_div)
  ultimately show ?thesis
    by (simp add: env_ok_def sample_env_def map_order_def Second_def)
qed

lemma sample_no_faults: "no_faults sample_env"
  by (simp add: no_faults_def sample_env_def)

lemma sample_db_inv: "db_inv sample_env sample_world"
  by (simp add: db_inv_def inv_defs sample_env_def sample_world_def user_exists_def stored_def Second_def
      zero_time_def limiter_inv_def maxTrackedBuckets_def)

lemmas sample_ok = sample_env_ok sample_no_faults sample_db_inv

end
