(* ===== verification/AuthProperties.thy ===== *)
theory AuthProperties
  imports AuthStore Sample
begin

text \<open>
  What the authentication use cases do on the Postgres repositories, the memory limiter and any
  identity verifier that leaves the database alone: the properties of signing in, of user tokens
  and of agent keys, from the interpretation \<open>pg_auth\<close> of the service's contract.
\<close>

definition auth_svc :: "Env \<Rightarrow> limits \<Rightarrow> world port_IdentityVerifier \<Rightarrow> AuthConfig \<Rightarrow> AuthService" where
  "auth_svc E limits verifier c =
     NewAuthService verifier (NewUserRepository E) (NewUserTokenRepository E) (NewAgentRepository E)
       (RateLimiter_Allow E limits) c"

lemmas auth_svc_defs = auth_svc_def NewAuthService_def

definition sample_config :: AuthConfig where
  "sample_config = \<lparr>UserTokenTTL = 30 * 24 * Hour, MaxAgentsPerUser = 10\<rparr>"

definition sample_svc :: AuthService where
  "sample_svc = auth_svc sample_env Map.empty dev_verify sample_config"

lemma sample_auth_inv: "auth_inv sample_env dev_verify sample_world"
  by (simp add: auth_inv_def pg_inv_def sample_ok dev_verify_def)

lemma sample_reliable: "reliable sample_env"
  by (simp add: reliable_def sample_env_def)

lemma length_EncodeToString [simp]: "length (EncodeToString bs) = 2 * length bs"
  by (induction bs) (auto simp: EncodeToString_def)

lemma length_HashToken [simp]: "length (HashToken raw) = 64"
  by (simp add: HashToken_def length_Sum256)

lemma HashToken_long [simp]: "length h \<noteq> 64 \<Longrightarrow> h \<noteq> HashToken raw"
  by auto

definition sample_sign_in :: ExchangeInput where
  "sample_sign_in = \<lparr>xi_Provider = ''google'', xi_IDToken = ''1'', xi_ClientIP = ''192.0.2.1''\<rparr>"

lemmas sample_defs = text_ok_def sample_env_def sample_world_def sample_config_def Second_def Minute_def Hour_def

lemmas auth_run_simps = run_simps auth_svc_defs NewUserRepository_def NewUserTokenRepository_def NewAgentRepository_def
  RateLimiter_Allow_def Allow_def with_tick_def sql_def select_def newToken_def newID_def Let_def

lemma sample_exchange_run:
  "\<exists>res w1. run (Exchange sample_env (auth_svc sample_env Map.empty dev_verify sample_config) sample_sign_in) sample_world
       = (Inr res, w1)
     \<and> User_ID (xr_User res) = ''ann'' \<and> xr_ExpiresAt res = 63902592005 * Second \<and> ticks w1 = 7"
  by (simp add: Exchange_def auth_run_simps sample_sign_in_def ValidProvider_iff dev_verify_def
      UserRepository_UpsertByIdentity_def q_UpsertUserIdentity_def same_identity_def
      UserTokenRepository_Create_def q_InsertUserToken_def user_exists_def userFromRow_def
      ProviderGoogle_def timestamptz_of_def IsZero_def zero_time_def sample_defs Add_def)

section \<open>User tokens\<close>

text \<open>
  C20: Signing in and using the token. With a database that answers, the token that a successful
  exchange returned authenticates the very user it was issued to if the clock, read as the second
  effect of the request, is before the stored time of expiry (the announced one, rounded down to the database's
  precision), and is rejected with unauthorized otherwise. Of what happened to the database in
  between nothing is assumed but that the token and the user's row are still there.
\<close>

theorem exchange_then_authenticate:
  assumes "auth_inv E verifier w" "reliable E"
    and "run (Exchange E (auth_svc E limits verifier c) inp) w = (Inr res, w1)"
    and "auth_inv E verifier w2" "token_lookup w2 (HashToken (xr_Token res)) = token_lookup w1 (HashToken (xr_Token res))"
    and "user_lookup E w2 (User_ID (xr_User res)) = Some u"
    and "run (AuthenticateUser E (auth_svc E limits verifier c) (xr_Token res)) w2 = (r, w3)"
  shows "if now_at E (Suc (ticks w2)) < stamp E (xr_ExpiresAt res) then r = Inr u
    else (\<exists>x. r = Inl x \<and> KindOf x = KindUnauthorized)"
proof -
  note X = pg_auth.exchange_outcome[of E verifier w limits c inp "Inr res" w1]
  obtain now where tok: "token_lookup w1 (HashToken (xr_Token res)) = Some (store_token E
      \<lparr>UserToken_TokenHash = HashToken (xr_Token res), UserToken_UserID = User_ID (xr_User res),
       UserToken_ExpiresAt = xr_ExpiresAt res, UserToken_CreatedAt = now\<rparr>)"
    and look: "user_lookup E w1 (User_ID (xr_User res)) = Some (xr_User res)" and "auth_inv E verifier w1"
    using X assms(1,3) unfolding auth_svc_defs by auto
  then have "same_id E (User_ID (xr_User res)) (User_ID (xr_User res))"
    using pg_users.u_id[of E verifier w1] by blast
  then have uid: "canon E (User_ID (xr_User res)) = User_ID (xr_User res)
      \<or> same_id E (canon E (User_ID (xr_User res))) (User_ID (xr_User res))"
    using assms(4) by (auto simp: canon_def same_id_def auth_inv_def pg_inv_def env_ok_def split: option.splits)
  then have u: "user_lookup E w2 (canon E (User_ID (xr_User res))) = Some u"
    using pg_users.u_same[OF assms(4)] assms(6) by auto
  have R: "case r of
      Inr v \<Rightarrow> (\<exists>t. token_lookup w2 (HashToken (xr_Token res)) = Some t
           \<and> now_at E (Suc (ticks w2)) < UserToken_ExpiresAt t \<and> user_lookup E w2 (UserToken_UserID t) = Some v)
    | Inl x \<Rightarrow> (KindOf x = KindUnauthorized \<longrightarrow>
             (case token_lookup w2 (HashToken (xr_Token res)) of None \<Rightarrow> True
              | Some t \<Rightarrow> UserToken_ExpiresAt t \<le> now_at E (Suc (ticks w2)) \<or> user_lookup E w2 (UserToken_UserID t) = None))
           \<and> (reliable E \<longrightarrow> KindOf x = KindUnauthorized)"
    using pg_auth.authenticate_user_outcome[of E verifier w2 limits c "xr_Token res" r w3] assms(4,7)
    unfolding auth_svc_defs by auto
  show ?thesis
    using R assms(2,5) tok u by (auto simp: store_token_def split: sum.splits)
qed

theorem exchange_then_authenticate_witness:
  "\<exists>res w1 u w3. run (Exchange sample_env sample_svc sample_sign_in) sample_world = (Inr res, w1)
     \<and> run (AuthenticateUser sample_env sample_svc (xr_Token res)) w1 = (Inr u, w3) \<and> User_ID u = ''ann''"
proof -
  obtain res w1 where x: "run (Exchange sample_env sample_svc sample_sign_in) sample_world = (Inr res, w1)"
    "User_ID (xr_User res) = ''ann''" "xr_ExpiresAt res = 63902592005 * Second" "ticks w1 = 7"
    using sample_exchange_run unfolding sample_svc_def by blast
  have o: "auth_inv sample_env dev_verify w1" "user_lookup sample_env w1 ''ann'' = Some (xr_User res)"
    using pg_auth.exchange_outcome[OF sample_auth_inv, of Map.empty sample_config sample_sign_in "Inr res" w1] x(1,2)
    by (auto simp: sample_svc_def auth_svc_defs)
  obtain r w3 where r: "run (AuthenticateUser sample_env sample_svc (xr_Token res)) w1 = (r, w3)" by fastforce
  have "now_at sample_env (Suc (ticks w1)) < stamp sample_env (xr_ExpiresAt res)"
    by (simp add: x sample_env_def stamp_def IsZero_def zero_time_def Second_def)
  then have "r = Inr (xr_User res)"
    using exchange_then_authenticate[OF sample_auth_inv sample_reliable x(1)[unfolded sample_svc_def] o(1) refl
        _ r[unfolded sample_svc_def]] o(2) x(2) by auto
  then show ?thesis using x r by auto
qed

text \<open>
  C8: A user token is accepted only if its hash is stored, the stored time of expiry is ahead of
  the clock and the user exists; it is rejected as unauthorized only if one of these fails, and
  with a database that answers there is no other failure. Authenticating changes no user, token or
  agent. This holds in every environment, also when statements fail.
\<close>

theorem authenticate_user_sound:
  assumes "auth_inv E verifier w" "run (AuthenticateUser E (auth_svc E limits verifier c) raw) w = (r, w')"
  shows "auth_inv E verifier w' \<and> user_lookup E w' = user_lookup E w \<and> token_lookup w' = token_lookup w
    \<and> agent_lookup E w' = agent_lookup E w \<and>
    (case r of
       Inr u \<Rightarrow> (\<exists>t. token_lookup w (HashToken raw) = Some t \<and> now_at E (Suc (ticks w)) < UserToken_ExpiresAt t
         \<and> user_lookup E w (UserToken_UserID t) = Some u)
     | Inl x \<Rightarrow> (KindOf x = KindUnauthorized \<longrightarrow>
           (case token_lookup w (HashToken raw) of None \<Rightarrow> True
            | Some t \<Rightarrow> UserToken_ExpiresAt t \<le> now_at E (Suc (ticks w)) \<or> user_lookup E w (UserToken_UserID t) = None))
         \<and> (reliable E \<longrightarrow> KindOf x = KindUnauthorized))"
  using assms unfolding auth_svc_defs by (rule pg_auth.authenticate_user_outcome)

lemma sample_no_token: "token_lookup sample_world (HashToken raw) = None"
  by (simp add: token_lookup_def sample_world_def)

theorem authenticate_user_sound_witness:
  "\<exists>x. fst (run (AuthenticateUser sample_env sample_svc ''aeu_guess'') sample_world) = Inl x
     \<and> KindOf x = KindUnauthorized"
proof -
  obtain r w' where r: "run (AuthenticateUser sample_env sample_svc ''aeu_guess'') sample_world = (r, w')" by fastforce
  show ?thesis
    using authenticate_user_sound[OF sample_auth_inv r[unfolded sample_svc_def]] r sample_no_token sample_reliable
    by (auto split: sum.splits)
qed

text \<open>
  C21: Logging out. Once the token's hash has been revoked, the token is not accepted in any later
  state in which no new token with the same hash was stored; with a database that answers the reply
  is unauthorized. A logout removes that one token and nothing else.
\<close>

theorem logout_rejects_token:
  assumes "auth_inv E verifier w"
    and "run (RevokeUserToken (auth_svc E limits verifier c) (HashToken raw)) w = (Inr u, w1)"
    and "auth_inv E verifier w2" "token_lookup w2 (HashToken raw) = token_lookup w1 (HashToken raw)"
    and "run (AuthenticateUser E (auth_svc E limits verifier c) raw) w2 = (r, w3)"
  shows "token_lookup w1 = (token_lookup w)(HashToken raw := None)
    \<and> user_lookup E w1 = user_lookup E w \<and> agent_lookup E w1 = agent_lookup E w
    \<and> (\<exists>x. r = Inl x \<and> (reliable E \<longrightarrow> KindOf x = KindUnauthorized))"
proof -
  have R: "auth_inv E verifier w1 \<and> user_lookup E w1 = user_lookup E w \<and> agent_lookup E w1 = agent_lookup E w
      \<and> token_lookup w1 = (token_lookup w)(HashToken raw := None)"
    using pg_auth.revoke_user_token_outcome[of E verifier w limits c "HashToken raw" "Inr u" w1] assms(1,2)
    unfolding auth_svc_defs by simp
  then have "token_lookup w2 (HashToken raw) = None" using assms(4) by simp
  then show ?thesis
    using R pg_auth.authenticate_user_outcome[of E verifier w2 limits c raw r w3] assms(3,5)
    unfolding auth_svc_defs by (auto split: sum.splits)
qed

lemma sample_logout_run:
  "\<exists>w1. run (RevokeUserToken (auth_svc sample_env Map.empty dev_verify sample_config) h) sample_world = (Inr (), w1)"
  by (simp add: RevokeUserToken_def auth_run_simps UserTokenRepository_DeleteByHash_def
      q_DeleteUserTokenByHash_def sample_env_def)

theorem logout_rejects_token_witness:
  "\<exists>w1 x. run (RevokeUserToken sample_svc (HashToken ''aeu_t'')) sample_world = (Inr (), w1)
     \<and> fst (run (AuthenticateUser sample_env sample_svc ''aeu_t'') w1) = Inl x \<and> KindOf x = KindUnauthorized"
proof -
  obtain w1 where w1: "run (RevokeUserToken (auth_svc sample_env Map.empty dev_verify sample_config) (HashToken ''aeu_t''))
      sample_world = (Inr (), w1)" using sample_logout_run by blast
  have inv: "auth_inv sample_env dev_verify w1"
    using pg_auth.revoke_user_token_outcome[OF sample_auth_inv, of Map.empty sample_config "HashToken ''aeu_t''" "Inr ()" w1] w1
    by (simp add: auth_svc_defs)
  obtain r w3 where r: "run (AuthenticateUser sample_env sample_svc ''aeu_t'') w1 = (r, w3)" by fastforce
  show ?thesis
    using logout_rejects_token[OF sample_auth_inv w1 inv refl r[unfolded sample_svc_def]] w1 r sample_reliable
    by (auto simp: sample_svc_def)
qed

text \<open>
  C22: Only verified identities sign in. Whatever the environment does, a token is issued only for
  a known provider and an identity that the verifier returned for the given provider and text; it
  has the prefix of user tokens, it expires the configured time after the clock, only its hash is
  stored, under a hash that was free, and no other token or agent changes. A failed exchange stores
  no token.
\<close>

theorem exchange_sound:
  assumes "auth_inv E verifier w" "run (Exchange E (auth_svc E limits verifier c) inp) w = (r, w')"
  shows "auth_inv E verifier w' \<and> agent_lookup E w' = agent_lookup E w \<and>
    (case r of
       Inr res \<Rightarrow> ValidProvider (xi_Provider inp)
         \<and> (\<exists>w1 w2 identity. run (verifier (xi_Provider inp) (xi_IDToken inp)) w1 = (Inr identity, w2)
             \<and> User_Provider (xr_User res) = Identity_Provider identity
             \<and> User_Subject (xr_User res) = Identity_Subject identity
             \<and> User_Email (xr_User res) = Identity_Email identity)
         \<and> (\<exists>b. xr_Token res = ''aeu_'' @ RawURLEncode b)
         \<and> (\<exists>now. 1000 \<le> now \<and> xr_ExpiresAt res = now + UserTokenTTL c
             \<and> token_lookup w' = (token_lookup w)(HashToken (xr_Token res) \<mapsto>
                 store_token E \<lparr>UserToken_TokenHash = HashToken (xr_Token res), UserToken_UserID = User_ID (xr_User res),
                    UserToken_ExpiresAt = xr_ExpiresAt res, UserToken_CreatedAt = now\<rparr>))
         \<and> token_lookup w (HashToken (xr_Token res)) = None
         \<and> user_lookup E w' (User_ID (xr_User res)) = Some (xr_User res)
     | Inl x \<Rightarrow> token_lookup w' = token_lookup w)"
  using assms unfolding auth_svc_defs by (rule pg_auth.exchange_outcome)

theorem exchange_sound_witness:
  "\<exists>res w1 b. run (Exchange sample_env sample_svc sample_sign_in) sample_world = (Inr res, w1)
     \<and> xr_Token res = ''aeu_'' @ RawURLEncode b \<and> User_Subject (xr_User res) = ''1''
     \<and> token_lookup w1 (HashToken (xr_Token res)) \<noteq> None"
proof -
  obtain res w1 where x: "run (Exchange sample_env (auth_svc sample_env Map.empty dev_verify sample_config) sample_sign_in)
      sample_world = (Inr res, w1)" using sample_exchange_run by blast
  show ?thesis using exchange_sound[OF sample_auth_inv x] x
    by (auto simp: sample_svc_def dev_verify_def sample_sign_in_def)
qed

section \<open>Agents\<close>

lemma auth_inv_agents: "auth_inv E verifier w \<Longrightarrow> agents_inv E w"
  by (simp add: auth_inv_def pg_inv_def db_inv_def)

text \<open>A row that has evolved is read as the same agent, still revoked if it was.\<close>

lemma evolved_agent:
  assumes "auth_inv E verifier w" "auth_inv E verifier w'" "evolves w w'" "agent_lookup E w i = Some a"
  shows "\<exists>a'. agent_lookup E w' i = Some a' \<and> Agent_ID a' = Agent_ID a \<and> Agent_UserID a' = Agent_UserID a
    \<and> Agent_KeyHash a' = Agent_KeyHash a \<and> Agent_Name a' = Agent_Name a
    \<and> (Revoked a \<longrightarrow> Agent_RevokedAt a' = Agent_RevokedAt a)"
proof -
  obtain x where x: "x \<in> set (agents w)" "pg_uuid E i = Some (ga_ID x)" "a = agentFromRow x"
    using agent_lookup_Some[OF assms(4)] by blast
  obtain y where y: "y \<in> set (agents w')" "later_agent x y"
    using assms(3) x(1) by (auto simp: evolves_def list_all_iff list_ex_iff)
  have "agent_lookup E w' (ga_ID x) = Some (agentFromRow y)"
    using agent_lookup_row[OF auth_inv_agents[OF assms(2)] y(1)] y(2) by (simp add: later_agent_def)
  moreover have "same_id E i (ga_ID x)"
    using x auth_inv_agents[OF assms(1)] by (auto simp: same_id_def agents_inv_def list_all_iff)
  ultimately have "agent_lookup E w' i = Some (agentFromRow y)"
    using pg_agents.a_same[OF assms(2)] by simp
  then show ?thesis
    using y(2) x(3) Revoked_row[OF auth_inv_agents[OF assms(1)] x(1)]
    by (auto simp: later_agent_def agentFromRow_def)
qed

text \<open>
  C23: An agent's key. The key of a new agent, which is returned once and of which only the hash is
  stored, authenticates that agent for its owner in every later state in which the stored agent is
  unchanged and the owner exists.
\<close>

theorem created_agent_authenticates:
  assumes "auth_inv E verifier w" "reliable E"
    and "run (CreateAgent E (auth_svc E limits verifier c) userID name) w = (Inr k, w1)"
    and "auth_inv E verifier w2" "key_lookup w2 (HashToken (ak_Key k)) = key_lookup w1 (HashToken (ak_Key k))"
    and "user_lookup E w2 (canon E userID) = Some u"
    and "run (AuthenticateAgent E (auth_svc E limits verifier c) (ak_Key k)) w2 = (r, w3)"
  shows "r = Inr \<lparr>ac_Agent = store_agent E (ak_Agent k), ac_User = u\<rparr>"
proof -
  have C: "key_lookup w1 (HashToken (ak_Key k)) = Some (store_agent E (ak_Agent k))"
    "Agent_UserID (ak_Agent k) = userID" "\<not> Revoked (ak_Agent k)"
    using pg_auth.create_agent_outcome[of E verifier w limits c userID name "Inr k" w1] assms(1,3)
    unfolding auth_svc_defs by auto
  have "\<not> Revoked (store_agent E (ak_Agent k))" "Agent_UserID (store_agent E (ak_Agent k)) = canon E userID"
    using C by (auto simp: Revoked_def store_agent_def stamp_def)
  then show ?thesis
    using pg_auth.authenticate_agent_outcome[of E verifier w2 limits c "ak_Key k" r w3] assms C
    unfolding auth_svc_defs by (cases r) (auto split: option.splits)
qed

lemma sample_create_agent_run:
  "\<exists>k w1. run (CreateAgent sample_env (auth_svc sample_env Map.empty dev_verify sample_config) ''bob'' ''helper'') sample_world
      = (Inr k, w1) \<and> users w1 = users sample_world"
proof -
  have t: "TrimSpace ''helper'' \<noteq> ''''" by code_simp
  show ?thesis
    by (simp add: CreateAgent_def auth_run_simps Agent_Validate_def t AgentRepository_CreateIfUnderLimit_def
        CreateIfUnderLimit_tx_def tx_Begin_def tx_Commit_def q_LockUserForUpdate_def q_CountActiveAgentsByUser_def
        q_InsertAgent_def insertAgentParams_def user_exists_def active_of_def
        timestamptz_of_def IsZero_def zero_time_def sample_defs)
qed

theorem created_agent_authenticates_witness:
  "\<exists>k w1 cr w3. run (CreateAgent sample_env sample_svc ''bob'' ''helper'') sample_world = (Inr k, w1)
     \<and> run (AuthenticateAgent sample_env sample_svc (ak_Key k)) w1 = (Inr cr, w3) \<and> User_ID (ac_User cr) = ''bob''"
proof -
  obtain k w1 where k: "run (CreateAgent sample_env (auth_svc sample_env Map.empty dev_verify sample_config) ''bob'' ''helper'')
      sample_world = (Inr k, w1)" and w1: "users w1 = users sample_world"
    using sample_create_agent_run by blast
  have inv: "auth_inv sample_env dev_verify w1"
    using pg_auth.create_agent_outcome[OF sample_auth_inv, of Map.empty sample_config "''bob''" "''helper''" "Inr k" w1] k
    by (simp add: auth_svc_defs)
  obtain u where u: "user_lookup sample_env w1 (canon sample_env ''bob'') = Some u" "User_ID u = ''bob''"
    by (simp add: user_lookup_def w1 canon_def sample_env_def sample_world_def userFromRow_def)
  obtain r w3 where r: "run (AuthenticateAgent sample_env sample_svc (ak_Key k)) w1 = (r, w3)" by fastforce
  show ?thesis
    using created_agent_authenticates[OF sample_auth_inv sample_reliable k inv refl u(1) r[unfolded sample_svc_def]] k r u(2)
    by (auto simp: sample_svc_def)
qed

definition sample_bot_world :: world where
  "sample_bot_world = sample_world\<lparr>agents :=
     [\<lparr>ga_ID = ''a1'', ga_UserID = ''ann'', ga_Name = ''bot'', ga_KeyHash = HashToken ''aea_bot'',
       ga_CreatedAt = Some (63800000000 * Second), ga_RevokedAt = None, ga_LastUsedAt = None\<rparr>]\<rparr>"

lemma sample_bot_inv: "auth_inv sample_env dev_verify sample_bot_world"
  using sample_auth_inv
  by (simp add: auth_inv_def pg_inv_def db_inv_def inv_defs sample_bot_world_def sample_env_def zero_time_def)
    (simp add: sample_world_def user_exists_def)

lemma sample_bot: "\<exists>a. agent_lookup sample_env sample_bot_world ''a1'' = Some a \<and> Agent_UserID a = ''ann''
    \<and> Agent_KeyHash a = HashToken ''aea_bot'' \<and> \<not> Revoked a"
  by (simp add: agent_lookup_def sample_bot_world_def sample_env_def agentFromRow_def Revoked_def
      timeFromTimestamptz_def IsZero_def)

lemma sample_revoke_run:
  "\<exists>w1. run (RevokeAgent sample_env (auth_svc sample_env limits dev_verify c) ''ann'' ''a1'') sample_bot_world
      = (Inr (), w1)"
  by (simp add: RevokeAgent_def auth_run_simps AgentRepository_Get_def AgentRepository_Revoke_def q_GetAgentByID_def
      q_RevokeAgent_def to_revoke_def sample_bot_world_def sample_env_def agentFromRow_def Revoked_def
      timeFromTimestamptz_def IsZero_def)

text \<open>
  C24: Revoking an agent. A successful revocation was made by the owner; it stamps that one agent
  with a time that is not zero, and does nothing if the agent was revoked before. A failed one
  changes no agent; it is answered with forbidden only for someone else's agent and with not found
  only if there is no such agent.
\<close>

theorem revoke_agent_effect:
  assumes "auth_inv E verifier w" "run (RevokeAgent E (auth_svc E limits verifier c) userID i) w = (r, w')"
  shows "auth_inv E verifier w' \<and> user_lookup E w' = user_lookup E w \<and> token_lookup w' = token_lookup w \<and>
    (case r of
       Inr _ \<Rightarrow> (\<exists>a. agent_lookup E w i = Some a \<and> Agent_UserID a = userID
         \<and> (if Revoked a then agent_lookup E w' = agent_lookup E w
            else (\<exists>t. \<not> IsZero t \<and> agent_lookup E w' =
              (\<lambda>j. if same_id E j i then Some (a\<lparr>Agent_RevokedAt := t\<rparr>) else agent_lookup E w j))))
     | Inl x \<Rightarrow> agent_lookup E w' = agent_lookup E w
         \<and> (KindOf x = KindForbidden \<longrightarrow> (\<exists>a. agent_lookup E w i = Some a \<and> Agent_UserID a \<noteq> userID))
         \<and> (KindOf x = KindNotFound \<longrightarrow> agent_lookup E w i = None))"
  using assms unfolding auth_svc_defs by (rule pg_auth.revoke_agent_outcome)

theorem revoke_agent_effect_witness:
  "\<exists>w1 a. run (RevokeAgent sample_env sample_svc ''ann'' ''a1'') sample_bot_world = (Inr (), w1)
     \<and> agent_lookup sample_env w1 ''a1'' = Some a \<and> Revoked a"
proof -
  obtain a where a: "agent_lookup sample_env sample_bot_world ''a1'' = Some a" "\<not> Revoked a"
    using sample_bot by blast
  obtain w1 where w1: "run (RevokeAgent sample_env (auth_svc sample_env Map.empty dev_verify sample_config) ''ann'' ''a1'')
      sample_bot_world = (Inr (), w1)" using sample_revoke_run by blast
  have "same_id sample_env ''a1'' ''a1''" by (simp add: same_id_def sample_env_def)
  then show ?thesis using revoke_agent_effect[OF sample_bot_inv w1] w1 a by (auto simp: sample_svc_def Revoked_def)
qed

end
