(* ===== verification/EventProperties.thy ===== *)
theory EventProperties
  imports EventStore Sample
begin

text \<open>
  What the event use cases do on the Postgres repository and the memory limiter. Each property
  follows from the interpretation \<open>pg_events\<close> of the service's contract.
\<close>

text \<open>The service as \<open>main.go\<close> puts it together.\<close>

definition event_svc :: "Env \<Rightarrow> limits \<Rightarrow> EventService" where
  "event_svc E limits = NewEventService (NewEventRepository E) (RateLimiter_Allow E limits)"

lemmas event_svc_defs = event_svc_def NewEventService_def

definition ann_actor :: Actor where "ann_actor = \<lparr>Actor_UserID = ''ann'', Actor_AgentID = ''a1''\<rparr>"
definition bob_actor :: Actor where "bob_actor = \<lparr>Actor_UserID = ''bob'', Actor_AgentID = ''b1''\<rparr>"

lemma sample_pg_inv: "pg_inv sample_env sample_world"
  by (simp add: pg_inv_def sample_ok)

text \<open>
  C16: Updating an event. Whatever the database does, the invariant is kept. A successful update
  was made by the owner with a name that is not blank; it changes the name, the description and
  the time of last change of that one event, keeps its identifier, owner and creation time, and
  leaves every other event alone. A failed one changes no event; it is answered with forbidden
  only if the event belongs to someone else, and with not found only if there is no such event.
\<close>

theorem update_event_effect:
  assumes "pg_inv E w" "run (EventService_Update E (event_svc E limits) actor i inp) w = (r, w')"
  shows "pg_inv E w' \<and>
    (case r of
       Inr e \<Rightarrow> (\<exists>old now. event_lookup E w i = Some old \<and> Event_UserID old = Actor_UserID actor
         \<and> TrimSpace (ui_Name inp) \<noteq> ''''
         \<and> e = old\<lparr>Event_Name := ui_Name inp, Event_Description := ui_Description inp, Event_UpdatedAt := now\<rparr>
         \<and> event_lookup E w' = (\<lambda>j. if same_id E j (Event_ID old) then Some (store_event E e) else event_lookup E w j))
     | Inl x \<Rightarrow> event_lookup E w' = event_lookup E w
         \<and> (KindOf x = KindForbidden \<longrightarrow> (\<exists>old. event_lookup E w i = Some old \<and> Event_UserID old \<noteq> Actor_UserID actor))
         \<and> (KindOf x = KindNotFound \<longrightarrow> event_lookup E w i = None))"
  using assms unfolding event_svc_defs by (rule pg_events.update_outcome)

definition sample_update :: UpdateEventInput where
  "sample_update = \<lparr>ui_Name = ''dinner'', ui_Description = ''at eight''\<rparr>"

lemma sample_update_run:
  "map_sum KindOf Event_Name (fst (run (EventService_Update sample_env (event_svc sample_env Map.empty)
      ann_actor ''e1'' sample_update) sample_world)) = Inr ''dinner''"
  "map_sum KindOf Event_Name (fst (run (EventService_Update sample_env (event_svc sample_env Map.empty)
      bob_actor ''e1'' sample_update) sample_world)) = Inl KindForbidden"
  by code_simp+

theorem update_event_effect_witness:
  "let (r, w') = run (EventService_Update sample_env (event_svc sample_env Map.empty) ann_actor ''e1'' sample_update) sample_world
   in \<exists>e. r = Inr e \<and> event_lookup sample_env w' ''e1'' = Some (store_event sample_env e) \<and> Event_Name e = ''dinner''"
proof -
  obtain r w' where rw: "run (EventService_Update sample_env (event_svc sample_env Map.empty) ann_actor ''e1''
      sample_update) sample_world = (r, w')" by fastforce
  then obtain e where e: "r = Inr e" "Event_Name e = ''dinner''"
    using sample_update_run(1) by (cases r) auto
  have "event_lookup sample_env sample_world ''e1'' = Some old \<Longrightarrow> same_id sample_env ''e1'' (Event_ID old)" for old
    using lookup_id[OF sample_pg_inv] .
  then show ?thesis using update_event_effect[OF sample_pg_inv rw] rw e by auto
qed

text \<open>
  C17: Deleting an event. A successful delete was made by the owner and removes that one event and
  nothing else; a failed one removes nothing, is answered with forbidden only for someone else's
  event and with not found only if there is no such event.
\<close>

theorem delete_event_effect:
  assumes "pg_inv E w" "run (EventService_Delete (event_svc E limits) actor i) w = (r, w')"
  shows "pg_inv E w' \<and>
    (case r of
       Inr _ \<Rightarrow> (\<exists>old. event_lookup E w i = Some old \<and> Event_UserID old = Actor_UserID actor)
         \<and> event_lookup E w' = (\<lambda>j. if same_id E j i then None else event_lookup E w j)
     | Inl x \<Rightarrow> event_lookup E w' = event_lookup E w
         \<and> (KindOf x = KindForbidden \<longrightarrow> (\<exists>old. event_lookup E w i = Some old \<and> Event_UserID old \<noteq> Actor_UserID actor))
         \<and> (KindOf x = KindNotFound \<longrightarrow> event_lookup E w i = None))"
  using assms unfolding event_svc_defs by (rule pg_events.delete_outcome)

lemma sample_delete_run:
  "map_sum KindOf id (fst (run (EventService_Delete (event_svc sample_env Map.empty) bob_actor ''e1'') sample_world))
     = Inl KindForbidden"
  by code_simp

theorem delete_event_effect_witness:
  "let (r, w') = run (EventService_Delete (event_svc sample_env Map.empty) bob_actor ''e1'') sample_world
   in event_lookup sample_env w' ''e1'' = event_lookup sample_env sample_world ''e1''
      \<and> (\<exists>old. event_lookup sample_env sample_world ''e1'' = Some old \<and> Event_UserID old \<noteq> ''bob'')"
proof -
  obtain r w' where rw: "run (EventService_Delete (event_svc sample_env Map.empty) bob_actor ''e1'') sample_world
      = (r, w')" by fastforce
  then obtain x where "r = Inl x" "KindOf x = KindForbidden"
    using sample_delete_run by (cases r) auto
  then show ?thesis using delete_event_effect[OF sample_pg_inv rw] rw by (auto simp: bob_actor_def)
qed

lemma save_buckets: "buckets (snd (run (EventRepository_Save E e) w)) = buckets w"
  by (auto simp: EventRepository_Save_def run_simps q_InsertEvent_def sql_def with_tick_def
      split: option.splits if_splits sum.splits prod.splits)

lemma create_buckets:
  assumes "run (EventService_Create E (event_svc E limits) actor inp) w = (r, w')"
  shows "buckets w' = (if Actor_UserID actor = '''' then buckets w
    else snd (Allow limits (order_at E (ticks w)) (now_at E (ticks w)) (''user:'' @ Actor_UserID actor) ActionCreateEvent (buckets w)))"
proof -
  have "buckets v' = buckets v" if "run (EventRepository_Save E e) v = (x, v')" for e x v v'
    using save_buckets[of E e v] that by simp
  then show ?thesis
    using assms
    by (auto simp: EventService_Create_def event_svc_defs NewEventRepository_def RateLimiter_Allow_def run_simps with_tick_def
        newID_def Let_def split: if_splits option.splits sum.splits prod.splits)
qed

text \<open>
  C18: Creating an event, on every branch. The limiter is asked for every actor with a user, and its
  counters are charged whatever comes after, also when the event is then refused. A creation succeeds
  only if the limiter allows it and the name is not blank; it belongs to the actor, has the given name
  and description and equal times of creation and change; its identifier was free, and afterwards it is
  exactly the one additional event. A failed one changes no event, and its kind tells why: invalid
  without a user, too many when the limiter refuses, invalid for a blank name, internal otherwise.
\<close>

theorem create_event_effect:
  assumes "pg_inv E w" "run (EventService_Create E (event_svc E limits) actor inp) w = (r, w')"
  shows "let (allowed, counted) = Allow limits (order_at E (ticks w)) (now_at E (ticks w))
            (''user:'' @ Actor_UserID actor) ActionCreateEvent (buckets w)
    in pg_inv E w' \<and> buckets w' = (if Actor_UserID actor = '''' then buckets w else counted) \<and>
    (case r of
       Inr e \<Rightarrow> allowed \<and> Event_UserID e = Actor_UserID actor \<and> Actor_UserID actor \<noteq> ''''
         \<and> Event_Name e = ci_Name inp \<and> TrimSpace (ci_Name inp) \<noteq> ''''
         \<and> Event_Description e = ci_Description inp \<and> Event_CreatedAt e = Event_UpdatedAt e
         \<and> event_lookup E w (Event_ID e) = None
         \<and> event_lookup E w' = (\<lambda>j. if same_id E j (Event_ID e) then Some (store_event E e) else event_lookup E w j)
     | Inl x \<Rightarrow> event_lookup E w' = event_lookup E w
         \<and> KindOf x =
             (if Actor_UserID actor = '''' then KindInvalid
              else if \<not> allowed then KindTooMany
              else if TrimSpace (ci_Name inp) = '''' then KindInvalid
              else KindInternal))"
proof -
  obtain allowed counted where A: "Allow limits (order_at E (ticks w)) (now_at E (ticks w))
      (''user:'' @ Actor_UserID actor) ActionCreateEvent (buckets w) = (allowed, counted)" by fastforce
  then have l: "run (RateLimiter_Allow E limits (''user:'' @ Actor_UserID actor) ActionCreateEvent) w
      = (Inr allowed, w\<lparr>ticks := Suc (ticks w), buckets := counted\<rparr>)"
    by (simp add: RateLimiter_Allow_def with_tick_def)
  show ?thesis
    using pg_events.create_outcome[OF assms(1) assms(2)[unfolded event_svc_defs] l] create_buckets[OF assms(2)] A
    by (auto split: sum.splits if_splits)
qed

definition sample_create :: CreateEventInput where
  "sample_create = \<lparr>ci_Name = ''gig'', ci_Description = ''''\<rparr>"

lemma sample_create_run:
  "map_sum KindOf Event_ID (fst (run (EventService_Create sample_env (event_svc sample_env Map.empty)
      bob_actor sample_create) sample_world)) = Inr ''uxx''"
  by code_simp

theorem create_event_effect_witness:
  "let (r, w') = run (EventService_Create sample_env (event_svc sample_env Map.empty) bob_actor sample_create) sample_world
   in \<exists>e. r = Inr e \<and> Event_ID e = ''uxx'' \<and> Event_UserID e = ''bob''
     \<and> event_lookup sample_env w' ''uxx'' = Some (store_event sample_env e)"
proof -
  obtain r w' where rw: "run (EventService_Create sample_env (event_svc sample_env Map.empty) bob_actor
      sample_create) sample_world = (r, w')" by fastforce
  then obtain e where "r = Inr e" "Event_ID e = ''uxx''"
    using sample_create_run by (cases r) auto
  moreover have "same_id sample_env ''uxx'' ''uxx''" by (simp add: same_id_def sample_env_def)
  ultimately show ?thesis using create_event_effect[OF sample_pg_inv rw] rw by (auto simp: bob_actor_def split: prod.splits)
qed

text \<open>
  C19: Listing. The list holds every event exactly once and nothing else, ordered by the time of
  creation; reading changes nothing but the number of effects.
\<close>

theorem list_events_exact:
  assumes "pg_inv E w" "run (EventService_List (event_svc E limits)) w = (Inr found, w')"
  shows "w' = w\<lparr>ticks := Suc (ticks w)\<rparr> \<and> distinct (map Event_ID found) \<and> sorted (map Event_CreatedAt found)
    \<and> set found = {e. event_lookup E w (Event_ID e) = Some e}"
proof -
  let ?rows = "sort_key (\<lambda>r. created_key (ge_CreatedAt r)) (events w)"
  have I: "events_inv E w" using assms(1) by (simp add: pg_inv_def db_inv_def)
  have f: "found = map eventFromRow ?rows" "w' = w\<lparr>ticks := Suc (ticks w)\<rparr>"
    using assms(2)
    by (auto simp: EventService_List_def event_svc_defs NewEventRepository_def EventRepository_List_def
        run_simps q_ListEvents_def sql_def with_tick_def select_def split: option.splits sum.splits)
  have id: "Event_ID (eventFromRow x) = ge_ID x" for x by (simp add: eventFromRow_def)
  have row: "event_lookup E w (ge_ID x) = Some (eventFromRow x)" if "x \<in> set (events w)" for x
    using I that by (auto simp: event_lookup_def events_inv_def list_all_iff find_key_iff)
  have found_in: "e \<in> eventFromRow ` set (events w)" if "event_lookup E w i = Some e" for i e
    using that by (auto simp: event_lookup_def split: option.splits dest!: find_Some_iff_set)
  have "distinct (map ge_ID ?rows)" using I by (simp add: events_inv_def distinct_map)
  moreover have "map Event_CreatedAt found = map (\<lambda>r. created_key (ge_CreatedAt r)) ?rows"
    by (simp add: f eventFromRow_def timeFromTimestamptz_def created_key_def zero_time_def split: option.split)
  then have "sorted (map Event_CreatedAt found)" by simp
  moreover have "set found = {e. event_lookup E w (Event_ID e) = Some e}"
    using row found_in by (auto simp: f id)
  ultimately show ?thesis using f by (simp add: comp_def id)
qed

theorem list_events_exact_witness:
  "let (r, w') = run (EventService_List (event_svc sample_env Map.empty)) sample_world
   in \<exists>found. r = Inr found \<and> distinct (map Event_ID found)
     \<and> set found = {e. event_lookup sample_env sample_world (Event_ID e) = Some e}"
proof -
  obtain found w' where "run (EventService_List (event_svc sample_env Map.empty)) sample_world = (Inr found, w')"
    by (simp add: EventService_List_def event_svc_defs NewEventRepository_def EventRepository_List_def
        run_simps q_ListEvents_def sql_def with_tick_def select_def sample_env_def)
  then show ?thesis using list_events_exact[OF sample_pg_inv] by simp
qed

end
