(* ===== verification/ServerLaws.thy ===== *)
theory ServerLaws
  imports Responses AuthProperties EventProperties
begin

text \<open>
  Two laws that every action of every use case respects on the model of the code, by the two
  interpretations of the locale \<open>respected\<close>: \<open>safe\<close> (the invariant of the database and the
  evolution of its rows) and \<open>capped\<close> (no user gets more active agents than the configuration
  allows, or than the user had before).
\<close>

section \<open>The invariant and the evolution of rows\<close>

definition assumed :: "Env \<Rightarrow> world port_IdentityVerifier \<Rightarrow> bool" where
  "assumed E verifier \<longleftrightarrow> env_ok E \<and> (\<forall>p t. quiet (verifier p t))"

definition safe_law :: "Env \<Rightarrow> world port_IdentityVerifier \<Rightarrow> world \<Rightarrow> world \<Rightarrow> bool" where
  "safe_law E verifier w w' \<longleftrightarrow> (assumed E verifier \<longrightarrow> safe_step E w w')"

lemma reflp_safe_law: "reflp (safe_law E verifier)"
  by (rule reflpI) (simp add: safe_law_def)

lemma transp_safe_law: "transp (safe_law E verifier)"
  by (rule transpI) (use safe_step_trans in \<open>auto simp: safe_law_def\<close>)

lemma safe_law_when:
  assumes "env_ok E \<Longrightarrow> prog_ok (safe_step E) (\<lambda>_. True) p"
  shows "prog_ok (safe_law E verifier) (\<lambda>_. True) p"
proof -
  have "safe_law E verifier = (\<lambda>w w'. assumed E verifier \<longrightarrow> safe_step E w w')"
    by (simp add: safe_law_def fun_eq_iff)
  then show ?thesis
    using prog_ok_when[of "assumed E verifier" "safe_step E" "\<lambda>_. True" p] assms by (simp add: assumed_def)
qed

lemma untouched_safe: "untouched w w' \<Longrightarrow> safe_step E w w'"
  unfolding safe_step_def untouched_def by (metis db_inv_ticks evolves_ticks)

lemma quiet_safe: "quiet p \<Longrightarrow> prog_ok (safe_step E) (\<lambda>_. True) p"
  unfolding quiet_def by (erule prog_ok_weaken) (auto intro: untouched_safe)

lemma verifier_safe: "prog_ok (safe_law E verifier) (\<lambda>_. True) (verifier p t)"
proof -
  have "safe_law E verifier = (\<lambda>w w'. assumed E verifier \<longrightarrow> safe_step E w w')"
    by (simp add: safe_law_def fun_eq_iff)
  then show ?thesis
    using prog_ok_when[of "assumed E verifier" "safe_step E" "\<lambda>_. True" "verifier p t"]
      quiet_safe[of "verifier p t" E] by (simp add: assumed_def)
qed

lemmas svc_defs = auth_svc_defs event_svc_defs NewUserRepository_def NewUserTokenRepository_def
  NewAgentRepository_def NewEventRepository_def

interpretation safe: respected "safe_law E verifier" E "auth_svc E limits verifier c"
  "\<lambda>t. assumed E verifier \<longrightarrow> 1000 \<le> t" "event_svc E limits" for E verifier limits c
proof (unfold_locales, goal_cases)
  case 1
  have "safe_law E verifier = (\<lambda>w w'. assumed E verifier \<longrightarrow> safe_step E w w')"
    by (simp add: safe_law_def fun_eq_iff)
  then show ?case
    using prog_ok_when[of "assumed E verifier" "safe_step E" "\<lambda>t. 1000 \<le> t" "time_Now E"] ok_time
    by (auto simp: assumed_def)
next
  case (15 a)
  then have "times_ok E (timestamptz_of (Agent_RevokedAt a))"
    by (simp add: Revoked_def timestamptz_of_def)
  then show ?case by (simp add: svc_defs ok_agents safe_law_when)
next
  case (16 at i)
  have "safe_law E verifier = (\<lambda>w w'. assumed E verifier \<longrightarrow> safe_step E w w')"
    by (simp add: safe_law_def fun_eq_iff)
  then show ?case
    using prog_ok_when[of "assumed E verifier" "safe_step E" "\<lambda>_. True" "AgentRepository_Revoke E i at"]
      ok_agent_Revoke[of E at i] 16 by (auto simp: svc_defs assumed_def)
qed (simp_all add: svc_defs ok_uuid ok_rand safe_limiter verifier_safe ok_users ok_tokens ok_agents ok_events safe_law_when)

section \<open>The limit of agents\<close>

definition active_count :: "world \<Rightarrow> string \<Rightarrow> int" where
  "active_count w u = int (length (filter (active_of u) (agents w)))"

definition cap_law :: "int \<Rightarrow> world \<Rightarrow> world \<Rightarrow> bool" where
  "cap_law M w w' \<longleftrightarrow> (\<forall>u. active_count w' u \<le> max (active_count w u) M)"

lemma reflp_cap_law: "reflp (cap_law M)" by (rule reflpI) (simp add: cap_law_def)
lemma transp_cap_law: "transp (cap_law M)" 
proof (rule transpI)
  fix u v w assume *: "cap_law M u v" "cap_law M v w"
  have "active_count w k \<le> max (active_count u k) M" for k
    using *(1)[unfolded cap_law_def, THEN spec[of _ k]] *(2)[unfolded cap_law_def, THEN spec[of _ k]] by linarith
  then show "cap_law M u w" by (simp add: cap_law_def)
qed

lemma cap_frame: "agents w' = agents w \<Longrightarrow> cap_law M w w'"
  by (simp add: cap_law_def active_count_def)

lemma cap_agents_map:
  assumes "agents w' = map f (agents w)" "\<And>u r. active_of u (f r) \<Longrightarrow> active_of u r"
  shows "cap_law M w w'"
proof -
  have "length (filter (active_of u) (map f (agents w))) \<le> length (filter (active_of u) (agents w))" for u
    using assms(2) by (rule Prelude.length_filter_map)
  then show ?thesis using assms(1) by (simp add: cap_law_def active_count_def le_max_iff_disj)
qed

lemma cap_upd: "(\<And>u r. active_of u (f r) \<Longrightarrow> active_of u r) \<Longrightarrow> cap_law M w (w\<lparr>ticks := n, agents := map f (agents w)\<rparr>)"
  by (rule cap_agents_map[where f = f]) simp_all

lemma cap_atomic: "(\<And>w. agents (snd (f w)) = agents w) \<Longrightarrow> prog_ok (cap_law M) (\<lambda>_. True) (atomic f)"
  by (rule prog_ok_atomic) (simp add: cap_frame)

text \<open>The statements and effects that leave the agents alone.\<close>

lemma agents_frame [simp]:
  "agents (snd (q_GetUserByID E i w)) = agents w" "agents (snd (q_UpsertUserIdentity E ua w)) = agents w"
  "agents (snd (q_InsertUserToken E ta w)) = agents w" "agents (snd (q_GetUserTokenByHash E h w)) = agents w"
  "agents (snd (q_DeleteUserTokenByHash E h w)) = agents w" "agents (snd (q_GetAgentByID E i w)) = agents w"
  "agents (snd (q_GetAgentByKeyHash E h w)) = agents w" "agents (snd (q_ListAgentsByUser E i w)) = agents w"
  "agents (snd (q_InsertEvent E ea w)) = agents w" "agents (snd (q_GetEventByID E i w)) = agents w"
  "agents (snd (q_ListEvents E w)) = agents w" "agents (snd (q_UpdateEvent E i n d t w)) = agents w"
  "agents (snd (q_DeleteEvent E i w)) = agents w" "agents (snd (q_DeleteExpiredUserTokens E t w)) = agents w"
  by (simp_all add: q_defs sql_def with_tick_def select_def Let_def split: option.splits)

lemma cap_effects:
  "prog_ok (cap_law M) (\<lambda>_. True) (time_Now E)" "prog_ok (cap_law M) (\<lambda>_. True) (uuid_NewString E)"
  "prog_ok (cap_law M) (\<lambda>_. True) (rand_Read E)" "prog_ok (cap_law M) (\<lambda>_. True) (RateLimiter_Allow E limits k a)"
  unfolding time_Now_def uuid_NewString_def rand_Read_def RateLimiter_Allow_def
  by (rule cap_atomic, simp add: with_tick_def split: prod.splits)+

lemma cap_create: "prog_ok (cap_law M) (\<lambda>_. True) (AgentRepository_CreateIfUnderLimit E a M)"
proof -
  have "cap_law M w (snd (CreateIfUnderLimit_tx E a M w))" for w
  proof -
    obtain r w' where r: "run (AgentRepository_CreateIfUnderLimit E a M) w = (r, w')" by (rule prog_run_cases)
    then have "cap_law M w w'"
      by (cases rule: create_agent_cases)
        (auto simp: cap_law_def active_count_def active_of_def new_agent_row_def intro: cap_frame)
    then show ?thesis using r by (simp add: AgentRepository_CreateIfUnderLimit_def)
  qed
  then show ?thesis unfolding AgentRepository_CreateIfUnderLimit_def by (intro prog_ok_atomic) simp
qed

lemma cap_agent_updates:
  "prog_ok (cap_law M) (\<lambda>_. True) (atomic (q_RevokeAgent E i t))"
  "prog_ok (cap_law M) (\<lambda>_. True) (atomic (q_TouchAgentLastUsed E i t))"
proof -
  have "cap_law M w (snd (q_RevokeAgent E i t w))" "cap_law M w (snd (q_TouchAgentLastUsed E i t w))" for w
    unfolding q_RevokeAgent_def q_TouchAgentLastUsed_def sql_def with_tick_def
    by (auto intro!: cap_frame cap_upd split: option.splits) (auto simp: active_of_def to_revoke_def split: if_splits)
  then show "prog_ok (cap_law M) (\<lambda>_. True) (atomic (q_RevokeAgent E i t))"
    and "prog_ok (cap_law M) (\<lambda>_. True) (atomic (q_TouchAgentLastUsed E i t))"
    by (auto intro: prog_ok_atomic)
qed

lemma cap_users:
  "prog_ok (cap_law M) (\<lambda>_. True) (UserRepository_UpsertByIdentity E p s m)"
  "prog_ok (cap_law M) (\<lambda>_. True) (UserRepository_Get E i)"
  unfolding UserRepository_UpsertByIdentity_def UserRepository_Get_def
  by (intro prog_ok_pbind[OF cap_effects(1)] prog_ok_pbind[OF cap_effects(2)] prog_ok_pbind[OF cap_atomic]
      ok_intros TrueI; simp)+

lemma cap_tokens:
  "prog_ok (cap_law M) (\<lambda>_. True) (UserTokenRepository_Create E t)"
  "prog_ok (cap_law M) (\<lambda>_. True) (UserTokenRepository_GetByHash E h)"
  "prog_ok (cap_law M) (\<lambda>_. True) (UserTokenRepository_DeleteByHash E h)"
  "prog_ok (cap_law M) (\<lambda>_. True) (UserTokenRepository_DeleteExpired E)"
  unfolding UserTokenRepository_Create_def UserTokenRepository_GetByHash_def
    UserTokenRepository_DeleteByHash_def UserTokenRepository_DeleteExpired_def
  by (intro prog_ok_pbind[OF cap_effects(1)] prog_ok_pbind[OF cap_atomic] cap_atomic ok_intros TrueI; simp)+

lemma cap_agent_Get: "prog_ok (cap_law M) (\<lambda>_. True) (AgentRepository_Get E i)"
  unfolding AgentRepository_Get_def by (intro prog_ok_pbind[OF cap_atomic] ok_intros TrueI; simp)

lemma cap_agents:
  "prog_ok (cap_law M) (\<lambda>_. True) (AgentRepository_GetByKeyHash E h)"
  "prog_ok (cap_law M) (\<lambda>_. True) (AgentRepository_ListByUser E i)"
  "prog_ok (cap_law M) (\<lambda>_. True) (AgentRepository_TouchLastUsed E i t)"
  "prog_ok (cap_law M) (\<lambda>_. True) (AgentRepository_Revoke E i t)"
  unfolding AgentRepository_GetByKeyHash_def AgentRepository_ListByUser_def AgentRepository_TouchLastUsed_def
    AgentRepository_Revoke_def
  by (intro prog_ok_pbind[OF cap_atomic] prog_ok_pbind[OF cap_agent_updates(1)] prog_ok_pbind[OF cap_agent_Get]
      cap_agent_updates ok_intros TrueI; simp)+

lemma cap_events:
  "prog_ok (cap_law M) (\<lambda>_. True) (EventRepository_Save E e)"
  "prog_ok (cap_law M) (\<lambda>_. True) (EventRepository_Get E i)"
  "prog_ok (cap_law M) (\<lambda>_. True) (EventRepository_List E)"
  "prog_ok (cap_law M) (\<lambda>_. True) (EventRepository_Update E e)"
  "prog_ok (cap_law M) (\<lambda>_. True) (EventRepository_Delete E i)"
  unfolding EventRepository_Save_def EventRepository_Get_def EventRepository_List_def
    EventRepository_Update_def EventRepository_Delete_def
  by (intro prog_ok_pbind[OF cap_atomic] ok_intros TrueI; simp)+

text \<open>A law under the hypothesis that the verifier leaves the tables and the counters alone.\<close>

definition when_quiet :: "world port_IdentityVerifier \<Rightarrow> (world \<Rightarrow> world \<Rightarrow> bool) \<Rightarrow> world \<Rightarrow> world \<Rightarrow> bool" where
  "when_quiet verifier R w w' \<longleftrightarrow> ((\<forall>p t. quiet (verifier p t)) \<longrightarrow> R w w')"

lemma when_quiet_eq: "when_quiet verifier R = (\<lambda>w w'. (\<forall>p t. quiet (verifier p t)) \<longrightarrow> R w w')"
  by (simp add: when_quiet_def fun_eq_iff)

lemma reflp_when: "reflp R \<Longrightarrow> reflp (when_quiet verifier R)"
  by (auto simp: when_quiet_def reflp_def)

lemma transp_when: "transp R \<Longrightarrow> transp (when_quiet verifier R)"
  unfolding when_quiet_eq transp_def by blast

lemma quiet_when: "prog_ok R (\<lambda>_. True) p \<Longrightarrow> prog_ok (when_quiet verifier R) (\<lambda>_. True) p"
  by (erule prog_ok_weaken) (simp_all add: when_quiet_def)

lemma verifier_when:
  assumes "\<And>w w'. untouched w w' \<Longrightarrow> R w w'"
  shows "prog_ok (when_quiet verifier R) (\<lambda>_. True) (verifier p t)"
proof -
  have "prog_ok R (\<lambda>_. True) (verifier p t)" if "\<forall>p t. quiet (verifier p t)"
    using that unfolding quiet_def by (auto intro: prog_ok_weaken assms)
  from prog_ok_when[OF this] show ?thesis unfolding when_quiet_eq by simp
qed

lemma untouched_frame: "untouched w w' \<Longrightarrow> agents w' = agents w \<and> events w' = events w"
proof -
  assume "untouched w w'"
  then have "w' = w\<lparr>ticks := ticks w'\<rparr>" by (simp add: untouched_def)
  then have "agents w' = agents (w\<lparr>ticks := ticks w'\<rparr>)" "events w' = events (w\<lparr>ticks := ticks w'\<rparr>)"
    by (rule arg_cong)+
  then show ?thesis by simp
qed

lemma verifier_capped: "prog_ok (when_quiet verifier (cap_law M)) (\<lambda>_. True) (verifier p t)"
  by (rule verifier_when) (simp add: cap_frame untouched_frame)

interpretation capped: respected "when_quiet verifier (cap_law (MaxAgentsPerUser c))" E "auth_svc E limits verifier c"
  "\<lambda>_. True" "event_svc E limits" for E verifier limits c
  by unfold_locales
    (simp_all add: svc_defs verifier_capped cap_effects cap_create cap_users cap_tokens cap_agent_Get cap_agents
      cap_events quiet_when)

end
