(* ===== verification/Config.thy ===== *)
theory Config
  imports GoNet Domain
begin

text \<open>
  The configuration of the server (server/pkg/config/config.go). What viper finds for a key, in the
  environment or among the defaults the code sets, is a parameter of the model.
\<close>

section \<open>Texts\<close>

text \<open>
  \<open>strings.ToLower\<close>: the ASCII letters, and the two other characters whose lower case is an ASCII
  letter (U+0130 and U+212A). Other letters are left as they are, which no comparison with an ASCII
  text can tell.
\<close>

fun ToLower :: "string \<Rightarrow> string" where
  "ToLower [] = []"
| "ToLower (c # cs) =
     (if prefix (utf8 [0xC4, 0xB0]) (c # cs) then CHR ''i'' # ToLower (tl cs)
      else if prefix (utf8 [0xE2, 0x84, 0xAA]) (c # cs) then CHR ''k'' # ToLower (tl (tl cs))
      else lower_char c # ToLower cs)"

fun show_nat :: "nat \<Rightarrow> string" where
  "show_nat n = (if n < 10 then [char_of (48 + n)] else show_nat (n div 10) @ [char_of (48 + n mod 10)])"

declare show_nat.simps [simp del]

text \<open>The verb \<open>%d\<close>.\<close>

definition show_int :: "int \<Rightarrow> string" where
  "show_int i = (if i < 0 then ''-'' @ show_nat (nat (- i)) else show_nat (nat i))"

section \<open>The configuration\<close>

record Config =
  cf_Port :: string
  cf_Env :: string
  cf_LogLevel :: string
  cf_DatabaseURL :: string
  cf_GoogleClientID :: string
  cf_AppleClientID :: string
  cf_MicrosoftClientID :: string
  cf_MicrosoftTenant :: string
  cf_UserTokenTTL :: duration
  cf_MaxAgentsPerUser :: int
  cf_RateLimitEventsPerDay :: int
  cf_RateLimitExchangePerHour :: int
  cf_TrustedProxies :: "IPNet list"

definition IsProduction :: "Config \<Rightarrow> bool" where
  "IsProduction c \<longleftrightarrow> cf_Env c = ''production''"

definition IsDevelopment :: "Config \<Rightarrow> bool" where
  "IsDevelopment c \<longleftrightarrow> cf_Env c = ''development''"

definition Validate :: "Config \<Rightarrow> err option" where
  "Validate c =
     (if (case Atoi (cf_Port c) of None \<Rightarrow> True | Some port \<Rightarrow> port < 1 \<or> 65535 < port)
      then Some (Plain (''PORT must be a number between 1 and 65535, got '' @ quoted (cf_Port c)))
      else if \<not> IsDevelopment c
        \<and> cf_GoogleClientID c = '''' \<and> cf_AppleClientID c = '''' \<and> cf_MicrosoftClientID c = ''''
      then Some (Plain ''at least one identity provider client id (GOOGLE_CLIENT_ID, APPLE_CLIENT_ID, MICROSOFT_CLIENT_ID) is required outside development'')
      else if cf_DatabaseURL c = '''' then Some (Plain ''DATABASE_URL is required'')
      else if cf_UserTokenTTL c \<le> 0
      then Some (Plain (''USER_TOKEN_TTL_HOURS must be positive, got '' @ show_int (Quo (cf_UserTokenTTL c) Hour)))
      else if cf_MaxAgentsPerUser c < 1
      then Some (Plain (''MAX_AGENTS_PER_USER must be at least 1, got '' @ show_int (cf_MaxAgentsPerUser c)))
      else if cf_RateLimitEventsPerDay c < 1
      then Some (Plain (''RATE_LIMIT_EVENTS_PER_DAY must be at least 1, got '' @ show_int (cf_RateLimitEventsPerDay c)))
      else if cf_RateLimitExchangePerHour c < 1
      then Some (Plain (''RATE_LIMIT_EXCHANGE_PER_HOUR must be at least 1, got '' @ show_int (cf_RateLimitExchangePerHour c)))
      else None)"

section \<open>Trusted proxies\<close>

definition proxy_error :: "string \<Rightarrow> err" where
  "proxy_error part = Plain (''TRUSTED_PROXIES entry '' @ quoted part @ '' is not a valid IP or CIDR range'')"

text \<open>One entry, and the loop over the entries with the networks found so far.\<close>

definition proxy_entry :: "string \<Rightarrow> err + IPNet" where
  "proxy_entry part =
     (if CHR ''/'' \<notin> set part
      then (case ParseIP part of
              None \<Rightarrow> Inl (proxy_error part)
            | Some ip \<Rightarrow>
                let bits = (if To4 ip = None then 128 else 32)
                in Inr \<lparr>net_IP = ip, net_Mask = CIDRMask bits bits\<rparr>)
      else (case ParseCIDR part of None \<Rightarrow> Inl (proxy_error part) | Some network \<Rightarrow> Inr network))"

fun proxies_loop :: "string list \<Rightarrow> IPNet list \<Rightarrow> err + IPNet list" where
  "proxies_loop [] networks = Inr networks"
| "proxies_loop (part # parts) networks =
     (let part = TrimSpace part in
      if part = '''' then proxies_loop parts networks
      else (case proxy_entry part of
              Inl e \<Rightarrow> Inl e
            | Inr network \<Rightarrow> proxies_loop parts (networks @ [network])))"

definition parseTrustedProxies :: "string \<Rightarrow> err + IPNet list" where
  "parseTrustedProxies raw =
     (let raw = TrimSpace raw in
      if raw = '''' then Inr [] else proxies_loop (Split CHR '','' raw) [])"

section \<open>Loading\<close>

text \<open>The defaults; viper looks a key up in the environment first.\<close>

datatype setting = DefaultString string | DefaultInt int

record viper =
  GetString :: "(string \<times> setting) list \<Rightarrow> string \<Rightarrow> string"
  GetInt :: "(string \<times> setting) list \<Rightarrow> string \<Rightarrow> int"

definition defaults :: "(string \<times> setting) list" where
  "defaults =
     [(''port'', DefaultString ''8080''), (''env'', DefaultString ''development''),
      (''log_level'', DefaultString ''info''), (''microsoft_tenant'', DefaultString ''common''),
      (''user_token_ttl_hours'', DefaultInt 720), (''max_agents_per_user'', DefaultInt 10),
      (''rate_limit_events_per_day'', DefaultInt 20), (''rate_limit_exchange_per_hour'', DefaultInt 30)]"

text \<open>A product of 64-bit durations wraps.\<close>

definition duration_times :: "int \<Rightarrow> duration \<Rightarrow> duration" where
  "duration_times n d = sint (word_of_int n * word_of_int d :: 64 word)"

definition Load :: "viper \<Rightarrow> err + Config" where
  "Load v =
     (let str = GetString v defaults; num = GetInt v defaults in
      case parseTrustedProxies (str ''trusted_proxies'') of
        Inl e \<Rightarrow> Inl e
      | Inr trustedProxies \<Rightarrow>
          let cfg = \<lparr>cf_Port = str ''port'', cf_Env = ToLower (str ''env''), cf_LogLevel = ToLower (str ''log_level''),
                     cf_DatabaseURL = str ''database_url'', cf_GoogleClientID = str ''google_client_id'',
                     cf_AppleClientID = str ''apple_client_id'', cf_MicrosoftClientID = str ''microsoft_client_id'',
                     cf_MicrosoftTenant = str ''microsoft_tenant'',
                     cf_UserTokenTTL = duration_times (num ''user_token_ttl_hours'') Hour,
                     cf_MaxAgentsPerUser = num ''max_agents_per_user'',
                     cf_RateLimitEventsPerDay = num ''rate_limit_events_per_day'',
                     cf_RateLimitExchangePerHour = num ''rate_limit_exchange_per_hour'',
                     cf_TrustedProxies = trustedProxies\<rparr>
          in (case Validate cfg of Some e \<Rightarrow> Inl e | None \<Rightarrow> Inr cfg))"

end
