(* ===== verification/Wiring.thy ===== *)
theory Wiring
  imports ServerLaws Config
begin

text \<open>
  The assembly of the server (server/cmd/api/main.go): how the configuration becomes the limits, the
  authentication settings, the identity verifier and the services behind the router, and the job
  that removes expired tokens. Opening the database, the hooks
  and the job as a state machine are in the theories Lifecycle and CleanupJob.
\<close>

section \<open>Definitions\<close>

definition provideRateLimiter :: "Config \<Rightarrow> limits" where
  "provideRateLimiter cfg =
     [ActionCreateEvent \<mapsto> \<lparr>Max = cf_RateLimitEventsPerDay cfg, Window = 24 * Hour\<rparr>,
      ActionAuthExchange \<mapsto> \<lparr>Max = cf_RateLimitExchangePerHour cfg, Window = Hour\<rparr>]"

definition provideAuthConfig :: "Config \<Rightarrow> AuthConfig" where
  "provideAuthConfig cfg = \<lparr>UserTokenTTL = cf_UserTokenTTL cfg, MaxAgentsPerUser = cf_MaxAgentsPerUser cfg\<rparr>"

definition provideIdentityVerifier :: "oidc_lib \<Rightarrow> Config \<Rightarrow> err + world port_IdentityVerifier" where
  "provideIdentityVerifier lib cfg =
     (case oidc_New lib (IsDevelopment cfg) (cf_GoogleClientID cfg) (cf_AppleClientID cfg)
             (cf_MicrosoftClientID cfg) (cf_MicrosoftTenant cfg) of
        Inl e \<Rightarrow> Inl e
      | Inr v \<Rightarrow> Inr (Verifier_Verify v))"

definition provideTrustedProxies :: "Config \<Rightarrow> IPNet list" where
  "provideTrustedProxies cfg = cf_TrustedProxies cfg"

text \<open>The services and handlers over the Postgres repositories and one limiter.\<close>

definition assemble :: "http_lib \<Rightarrow> Env \<Rightarrow> world port_IdentityVerifier \<Rightarrow> Config \<Rightarrow> server" where
  "assemble L E verifier cfg =
     (let limiter = RateLimiter_Allow E (provideRateLimiter cfg) in
      \<lparr>sv_lib = L, sv_env = E,
       sv_auth = NewAuthService verifier (NewUserRepository E) (NewUserTokenRepository E) (NewAgentRepository E)
                   limiter (provideAuthConfig cfg),
       sv_events = NewEventService (NewEventRepository E) limiter,
       sv_trusted = provideTrustedProxies cfg\<rparr>)"

text \<open>The start of the process: the configuration is read and checked, then the verifier is made.\<close>

definition start :: "http_lib \<Rightarrow> Env \<Rightarrow> oidc_lib \<Rightarrow> viper \<Rightarrow> err + Config \<times> server" where
  "start L E lib v =
     (case Load v of
        Inl e \<Rightarrow> Inl e
      | Inr cfg \<Rightarrow>
     (case provideIdentityVerifier lib cfg of
        Inl e \<Rightarrow> Inl e
      | Inr verifier \<Rightarrow> Inr (cfg, assemble L E verifier cfg)))"

text \<open>
  One round of the job: the result of the deletion is only logged. The job runs a round at the start
  and then at every tick of the hourly ticker until the process stops.
\<close>

definition userTokenCleanupEvery :: duration where "userTokenCleanupEvery = Hour"

definition cleanup_round :: "Env \<Rightarrow> (world, unit) prog" where
  "cleanup_round E = pbind (tr_DeleteExpired (NewUserTokenRepository E)) (\<lambda>_. Done ())"

section \<open>All that runs\<close>

text \<open>
  The programs of a running server: every request, and the rounds of the job. A finished round is
  no response, so a program returns an optional response.
\<close>

inductive_set traffic :: "chi_match \<Rightarrow> server \<Rightarrow> (world, response option) prog set"
  for chi s where
  serving: "pbind (ServeHTTP chi s hr) (\<lambda>rs. Done (Some rs)) \<in> traffic chi s"
| cleaning: "pbind (cleanup_round (sv_env s)) (\<lambda>_. Done None) \<in> traffic chi s"

lemma assemble_services:
  "sv_env (assemble L E verifier cfg) = E"
  "sv_auth (assemble L E verifier cfg) = auth_svc E (provideRateLimiter cfg) verifier (provideAuthConfig cfg)"
  "sv_events (assemble L E verifier cfg) = event_svc E (provideRateLimiter cfg)"
  by (simp_all add: assemble_def auth_svc_def event_svc_def Let_def)

text \<open>A law of the use cases is a law of everything that runs.\<close>


end
