(* ===== verification/SampleServer.thy ===== *)
theory SampleServer
  imports Wiring
begin

text \<open>
  One concrete server, at which the theorems about requests are applied: a matcher of patterns, a
  validator that does what the documentation of the tags says, the bodies of the sample requests, the
  development verifier and the database of theory Sample.
\<close>

section \<open>The libraries\<close>

text \<open>A segment in braces matches any segment; a slash at the end of a pattern is optional.\<close>

fun segments_match :: "string list \<Rightarrow> string list \<Rightarrow> (string \<times> string) list option" where
  "segments_match [] [] = Some []"
| "segments_match [[]] [] = Some []"
| "segments_match (p # ps) (q # qs) =
     (case segments_match ps qs of
        None \<Rightarrow> None
      | Some params \<Rightarrow>
          if p = ''{id}'' then Some ((''id'', q) # params) else if p = q then Some params else None)"
| "segments_match _ _ = None"

fun match_from ::
  "nat \<Rightarrow> (string \<times> string) list \<Rightarrow> string \<Rightarrow> string \<Rightarrow> (nat \<times> (string \<times> string) list) option" where
  "match_from n [] m p = None"
| "match_from n ((m', pat) # rs) m p =
     (case (if m = m' then segments_match (Split CHR ''/'' pat) (Split CHR ''/'' p) else None) of
        Some params \<Rightarrow> Some (n, params)
      | None \<Rightarrow> match_from (Suc n) rs m p)"

text \<open>
  Without a route the answer is 405 for a path of the table, else 404 with a text; it comes from the
  router that is mounted at the beginning of the path.
\<close>

definition under :: "string \<Rightarrow> string \<Rightarrow> bool" where
  "under pre p \<longleftrightarrow> take (length pre) p = pre"

definition sample_chi :: chi_match where
  "sample_chi rs m p =
     (if list_ex (\<lambda>(m', pat). segments_match (Split CHR ''/'' pat) (Split CHR ''/'' p) \<noteq> None) rs
      then \<lparr>rs_status = 405, rs_body = None\<rparr>
      else \<lparr>rs_status = 404, rs_body = Some (Text (''404 page not found'' @ [CHR 0x0A]))\<rparr>,
      if under ''/api/v1/agents'' p then InAgents else if under ''/api/v1/events'' p then InEvents else Nowhere,
      match_from 0 rs m p)"

text \<open>
  What the validator promises for the tags the code uses: the first rule of a field that its value
  breaks is reported; \<open>max\<close> counts characters, that is the bytes of the text that do not continue one.
\<close>

definition runes :: "string \<Rightarrow> nat" where
  "runes s = length (filter (\<lambda>c. \<not> (128 \<le> (of_char c :: nat) \<and> (of_char c :: nat) < 192)) s)"

definition breaks :: "string \<Rightarrow> string \<times> string \<Rightarrow> bool" where
  "breaks value rule \<longleftrightarrow>
     (fst rule = ''required'' \<and> value = '''')
   \<or> (fst rule = ''max'' \<and> dec_val (snd rule) < runes value)
   \<or> (fst rule = ''oneof'' \<and> value \<notin> set (Split CHR '' '' (snd rule)))"

definition field_failures :: "field_rules \<Rightarrow> FieldError list" where
  "field_failures f =
     (case find (breaks (fr_value f)) (fr_rules f) of
        None \<Rightarrow> []
      | Some (tag, param) \<Rightarrow> [\<lparr>fe_Field = fr_Field f, fe_Tag = tag, fe_Param = param\<rparr>])"

definition tag_validator :: "field_rules list \<Rightarrow> validation option" where
  "tag_validator fs =
     (case concat (map field_failures fs) of [] \<Rightarrow> None | failures \<Rightarrow> Some (ValidationErrors failures))"

definition sign_in_body :: string where
  "sign_in_body = ''{\"provider\":\"google\",\"id_token\":\"1\"}''"

definition party_body :: string where
  "party_body = ''{\"name\":\"party\"}''"

definition nameless_body :: string where
  "nameless_body = ''{\"description\":\"x\"}''"

lemma read_text:
  assumes "s = json_text j" "valid_json j = j" "shallow 1 j" "length s \<le> 100"
  shows "first_value maxBodySize s = Some j"
  using first_value_text[of 1 j maxBodySize] assms by (simp add: maxNestingDepth_def maxBodySize_def)

lemma sample_bodies:
  "first_value maxBodySize sign_in_body = Some (JObject [(''provider'', JString ''google''), (''id_token'', JString ''1'')])"
  "first_value maxBodySize party_body = Some (JObject [(''name'', JString ''party'')])"
  "first_value maxBodySize nameless_body = Some (JObject [(''description'', JString ''x'')])"
  by (rule read_text; code_simp)+

definition sample_lib :: http_lib where
  "sample_lib = \<lparr>validate = tag_validator, uuid_Parse = (\<lambda>s. s \<noteq> '''')\<rparr>"

definition sample_cfg :: Config where
  "sample_cfg = \<lparr>cf_Port = ''8080'', cf_Env = ''development'', cf_LogLevel = ''info'', cf_DatabaseURL = ''postgres://db'',
     cf_GoogleClientID = '''', cf_AppleClientID = '''', cf_MicrosoftClientID = '''', cf_MicrosoftTenant = ''common'',
     cf_UserTokenTTL = 720 * Hour, cf_MaxAgentsPerUser = 10, cf_RateLimitEventsPerDay = 20,
     cf_RateLimitExchangePerHour = 30, cf_TrustedProxies = []\<rparr>"

definition sample_server :: server where
  "sample_server = assemble sample_lib sample_env dev_verify sample_cfg"

definition sample_hr :: "string \<Rightarrow> string \<Rightarrow> string \<Rightarrow> string \<Rightarrow> http_request" where
  "sample_hr m p auth body =
     \<lparr>hr_method = m, hr_path = p, hr_headers = (if auth = '''' then [] else [(''Authorization'', ''Bearer '' @ auth)]),
      hr_remoteAddr = ''192.0.2.1:5000'', hr_body = body\<rparr>"

definition serve_sample :: "http_request \<Rightarrow> world \<Rightarrow> response \<times> world" where
  "serve_sample hr w = run (ServeHTTP sample_chi sample_server hr) w"

text \<open>A single request served alone is one of the interleavings of the traffic.\<close>

lemma one_arrives:
  "reaches (traffic chi s) ([], w) ([pbind (ServeHTTP chi s hr) (\<lambda>rs. Done (Some rs))], w)"
  using pool_step.arrive[OF traffic.serving[where chi = chi and s = s and hr = hr], of "[]" w]
  by (auto intro: reaches.intros)

lemma serve_one:
  "reaches (traffic chi s) ([], w)
     ([Done (Some (fst (run (ServeHTTP chi s hr) w)))], snd (run (ServeHTTP chi s hr) w))"
proof -
  let ?p = "pbind (ServeHTTP chi s hr) (\<lambda>rs. Done (Some rs))"
  have "reaches (traffic chi s) ([?p], w) ([Done (fst (run ?p w))], snd (run ?p w))"
    using reaches_run[of 0 "[?p]" "traffic chi s" w] by simp
  then show ?thesis
    using reaches_trans one_arrives by (fastforce simp: run_pbind case_prod_unfold)
qed

end
