(* ===== verification/HttpProperties.thy ===== *)
theory HttpProperties
  imports SampleServer
begin

text \<open>
  Properties of the HTTP layer: which routes need a credential, how a credential travels in the
  Authorization header, and how bodies that break a rule are answered.
\<close>

section \<open>Credentials\<close>

lemma url_alphabet_plain: "c \<in> set url_alphabet \<Longrightarrow> c \<notin> space_bytes"
proof -
  have "set url_alphabet \<inter> space_bytes = {}" by (simp add: url_alphabet_def space_bytes_def space_runes_chars)
  then show "c \<in> set url_alphabet \<Longrightarrow> c \<notin> space_bytes" by blast
qed

lemma capital_B_plain: "CHR ''B'' \<notin> space_bytes" "CHR ''a'' \<notin> space_bytes"
  by (simp_all add: space_bytes_def space_runes_chars)

lemma bearer_of_plain:
  assumes "map_of (rq_headers rq) ''Authorization'' = Some (''Bearer '' @ raw)"
    and "raw \<noteq> []" "hd raw \<notin> space_bytes" "last raw \<notin> space_bytes"
  shows "bearerToken rq = Some raw"
proof -
  have "TrimSpace (''Bearer '' @ raw) = ''Bearer '' @ raw"
    using assms(2-4) capital_B_plain(1) by (intro TrimSpace_plain) simp
  moreover have "TrimSpace raw = raw" using assms(2-4) by (intro TrimSpace_plain) simp
  moreover have "CutPrefix ''Bearer '' (''Bearer '' @ raw) = Some raw" by (simp add: CutPrefix_Some)
  ultimately show ?thesis using assms(1,2) by (simp add: bearerToken_def Header_Get_def Let_def)
qed

lemma newToken_result:
  "run (newToken E pre) w = (Inr (raw, h), w') \<Longrightarrow>
     \<exists>b. rand_at E (ticks w) = Inr b \<and> raw = pre @ RawURLEncode b \<and> h = HashToken raw"
  by (auto simp: newToken_def run_simps Let_def split: sum.splits)

text \<open>
  C26: An issued token arrives as it was issued. The text of a new token or key, sent as the header
  \<open>Authorization: Bearer\<close>, is exactly what the middleware authenticates; it has its prefix and 43
  characters of the URL-safe alphabet, and its hash is the one that was stored. Two tokens with the
  same text were drawn from the same random bytes.
\<close>

theorem issued_token_arrives:
  assumes "env_ok E" "pre \<in> {tokenPrefixUser, tokenPrefixAgent}"
    and "run (newToken E pre) w = (Inr (raw, h), w')"
    and "map_of (rq_headers rq) ''Authorization'' = Some (''Bearer '' @ raw)"
    and "run (newToken E pre) v = (Inr (raw, h'), v')"
  shows "bearerToken rq = Some raw \<and> h = HashToken raw \<and> length raw = 47 \<and> take 4 raw = pre
    \<and> set (drop 4 raw) \<subseteq> set url_alphabet \<and> rand_at E (ticks w) = rand_at E (ticks v)"
proof -
  obtain b where b: "rand_at E (ticks w) = Inr b" "raw = pre @ RawURLEncode b" "h = HashToken raw"
    using newToken_result[OF assms(3)] by blast
  obtain c where c: "rand_at E (ticks v) = Inr c" "raw = pre @ RawURLEncode c"
    using newToken_result[OF assms(5)] by blast
  have pre: "length pre = 4" "hd pre = CHR ''a''" "pre \<noteq> []"
    using assms(2) by (auto simp: tokenPrefixUser_def tokenPrefixAgent_def)
  have "length b = 32" using assms(1) b(1) by (simp add: env_ok_def)
  then have l43: "length (RawURLEncode b) = 43" by (simp add: length_RawURLEncode)
  then have ne: "RawURLEncode b \<noteq> []" by auto
  then have last: "last raw = last (RawURLEncode b)" using b(2) by simp
  then have "last raw \<notin> space_bytes"
    using RawURLEncode_set[of b] url_alphabet_plain last_in_set[OF ne] by auto
  moreover have "raw \<noteq> []" "hd raw \<notin> space_bytes" using pre b(2) capital_B_plain(2) by simp_all
  ultimately have "bearerToken rq = Some raw" using assms(4) by (intro bearer_of_plain)
  moreover have "length raw = 47" "take 4 raw = pre" "drop 4 raw = RawURLEncode b" using b(2) pre(1) l43 by simp_all
  moreover have "b = c" using b(2) c(2) RawURLEncode_inj by simp
  ultimately show ?thesis using b(1,3) c(1) RawURLEncode_set[of b] by simp
qed

definition bearing :: "string \<Rightarrow> request" where
  "bearing raw = \<lparr>rq_headers = [(''Authorization'', ''Bearer '' @ raw)], rq_remoteAddr = '''', rq_body = '''',
     rq_params = [], rq_agent = None, rq_user = None\<rparr>"

theorem issued_token_arrives_witness:
  "\<exists>raw h w'. run (newToken sample_env tokenPrefixUser) sample_world = (Inr (raw, h), w')
     \<and> bearerToken (bearing raw) = Some raw \<and> length raw = 47"
proof -
  obtain raw h w' where r: "run (newToken sample_env tokenPrefixUser) sample_world = (Inr (raw, h), w')"
    by (simp add: newToken_def run_simps sample_env_def Let_def)
  show ?thesis using issued_token_arrives[OF sample_env_ok _ r _ r, of "bearing raw"] r by (simp add: bearing_def)
qed

lemma grouped: "r \<in> set (Route pre (Group_With mw rs)) \<Longrightarrow> \<exists>h. rt_handler r = mw h"
  by (auto simp: Route_def Group_With_def)

text \<open>
  C25: Only the health check and the sign-in are open. Every other route of the table answers a
  request without a bearer credential with 401, without performing a single action.
\<close>

theorem protected_routes:
  assumes "r \<in> set (NewRouter s)"
    and "(rt_method r, rt_pattern r) \<notin> {(''GET'', ''/healthz''), (''POST'', ''/api/v1/auth/exchange'')}"
    and "bearerToken rq = None"
  shows "\<exists>rs. rt_handler r rq = Done rs \<and> rs_status rs = 401"
proof -
  have "r \<notin> set (open_routes s)" using assms(2) by (auto simp: open_routes_def Route_def on_def)
  then have "r \<in> set (user_routes s) \<or> r \<in> set (agent_routes s)" using assms(1) by (auto simp: NewRouter_def)
  then obtain h where "rt_handler r = RequireUser (sv_env s) (sv_auth s) h \<or> rt_handler r = RequireAgent (sv_env s) (sv_auth s) h"
    unfolding user_routes_def agent_routes_def by (blast dest: grouped)
  then show ?thesis
    using assms(3) by (auto simp: RequireUser_def RequireAgent_def WriteError_eq WriteJSON_def marshal_ErrorResponse_def)
qed

theorem protected_routes_witness:
  "\<exists>rs. rt_handler (NewRouter sample_server ! 3) (request_of (sample_hr ''POST'' ''/api/v1/agents'' '''' '''') []) = Done rs
     \<and> rs_status rs = 401"
proof -
  have "NewRouter sample_server ! 3 \<in> set (NewRouter sample_server)"
    by (intro nth_mem) (simp add: NewRouter_def open_routes_def user_routes_def Route_def Group_With_def
        AgentHandler_Register_def)
  moreover have "rt_pattern (NewRouter sample_server ! 3) = ''/api/v1/agents/''"
    by (simp add: NewRouter_def open_routes_def user_routes_def Route_def Group_With_def AgentHandler_Register_def on_def)
  moreover have "bearerToken (request_of (sample_hr ''POST'' ''/api/v1/agents'' '''' '''') []) = None" by code_simp
  ultimately show ?thesis using protected_routes by simp
qed

section \<open>Bodies\<close>

text \<open>
  What the documentation of the validator promises, for the three tags that the transfer objects have:
  nothing is assumed of fields with other tags.
\<close>

definition known_tags :: "field_rules list \<Rightarrow> bool" where
  "known_tags fs \<longleftrightarrow> (\<forall>f \<in> set fs. fst ` set (fr_rules f) \<subseteq> {''required'', ''max'', ''oneof''})"

definition documented :: "http_lib \<Rightarrow> bool" where
  "documented L \<longleftrightarrow> (\<forall>fs. known_tags fs \<longrightarrow> validate L fs = tag_validator fs)"

definition event_failures :: "CreateEventRequest \<Rightarrow> (string \<times> json) list" where
  "event_failures req =
     (if 1024 < runes (cer_Description req) then [(''description'', JString ''must be at most 1024 characters'')] else [])
   @ (if cer_Name req = '''' then [(''name'', JString ''is required'')]
      else if 128 < runes (cer_Name req) then [(''name'', JString ''must be at most 128 characters'')] else [])"

lemma event_rules:
  "tag_validator (rules_CreateEventRequest req) =
     (let ds = (if 1024 < runes (cer_Description req)
                then [\<lparr>fe_Field = ''Description'', fe_Tag = ''max'', fe_Param = ''1024''\<rparr>] else []);
          ns = (if cer_Name req = '''' then [\<lparr>fe_Field = ''Name'', fe_Tag = ''required'', fe_Param = ''''\<rparr>]
                else if 128 < runes (cer_Name req)
                then [\<lparr>fe_Field = ''Name'', fe_Tag = ''max'', fe_Param = ''128''\<rparr>] else [])
      in if ns @ ds = [] then None else Some (ValidationErrors (ns @ ds)))"
proof -
  have v: "dec_val ''128'' = 128" "dec_val ''1024'' = 1024" by (simp_all add: dec_val_def digit_val_def)
  show ?thesis
    by (simp add: tag_validator_def rules_CreateEventRequest_def field_failures_def breaks_def v Let_def)
qed

lemma event_failure_reply:
  "WriteError (validationError (ValidationErrors fs)) = \<lparr>rs_status = 400, rs_body =
     Some (JSON (JObject [(''error'', JObject ([(''code'', JString ''invalid''), (''message'', JString ''request validation failed'')]
       @ (let ds = foldl (\<lambda>ds f. AList.update (jsonName (fe_Field f)) (messageFor f) ds) [] fs in
          if ds = [] then [] else [(''details'', JObject (map (\<lambda>(k, v). (k, JString v)) (sort_key fst ds)))])))]))\<rparr>"
  by (simp add: WriteError_eq validationError_def WriteJSON_def marshal_ErrorResponse_def Let_def)

lemma jsonName_ascii: "lower_char CHR ''N'' = CHR ''n''" "lower_char CHR ''D'' = CHR ''d''" "\<not> ''name'' \<le> ''description''"
  by (simp_all add: lower_char_def char_of_eq_iff)

text \<open>
  C27: A body that breaks a rule. A request to create an event whose body is not JSON, has a field of
  another type, an empty name, a name of more than 128 characters or a description of more than 1024
  is answered with 400 before anything is done; the details name the fields that break a rule,
  and the first rule each of them breaks.
\<close>

theorem invalid_event_rejected:
  assumes "documented L"
  shows "case first_value maxBodySize (rq_body rq) of
      None \<Rightarrow> EventHandler_create L E svc rq = Done (WriteError (Invalid ''request body must be valid JSON''))
    | Some j \<Rightarrow> (case decode_CreateEventRequest j of
        Inl x \<Rightarrow> EventHandler_create L E svc rq = Done (WriteError (Invalid ''request body must be valid JSON''))
      | Inr req \<Rightarrow> event_failures req \<noteq> [] \<longrightarrow> EventHandler_create L E svc rq = Done \<lparr>rs_status = 400, rs_body =
          Some (JSON (JObject [(''error'', JObject [(''code'', JString ''invalid''),
            (''message'', JString ''request validation failed''), (''details'', JObject (event_failures req))])]))\<rparr>)"
proof (cases "first_value maxBodySize (rq_body rq)")
  case None
  then show ?thesis by (simp add: EventHandler_create_def DecodeJSON_def)
next
  case (Some j)
  show ?thesis
  proof (cases "decode_CreateEventRequest j")
    case (Inl x)
    then show ?thesis using Some by (simp add: EventHandler_create_def DecodeJSON_def)
  next
    case (Inr req)
    have v: "validate L (rules_CreateEventRequest req) = tag_validator (rules_CreateEventRequest req)"
      using assms by (simp add: documented_def known_tags_def rules_CreateEventRequest_def)
    show ?thesis using Some Inr
      by (simp add: EventHandler_create_def DecodeJSON_def v event_rules Let_def event_failures_def
          event_failure_reply jsonName_ascii messageFor_def)
  qed
qed

definition post_event :: "string \<Rightarrow> request" where
  "post_event body = \<lparr>rq_headers = [], rq_remoteAddr = '''', rq_body = body, rq_params = [], rq_agent = None, rq_user = None\<rparr>"

theorem invalid_event_rejected_witness:
  "EventHandler_create sample_lib sample_env (event_svc sample_env Map.empty) (post_event nameless_body) = Done \<lparr>rs_status = 400, rs_body =
     Some (JSON (JObject [(''error'', JObject [(''code'', JString ''invalid''),
       (''message'', JString ''request validation failed''), (''details'', JObject [(''name'', JString ''is required'')])])]))\<rparr>"
proof -
  have b: "first_value maxBodySize (rq_body (post_event nameless_body)) = Some (JObject [(''description'', JString ''x'')])"
    by (simp add: sample_bodies post_event_def)
  have "documented sample_lib" by (simp add: documented_def sample_lib_def)
  moreover have "map_sum id event_failures (decode_CreateEventRequest (JObject [(''description'', JString ''x'')]))
      = Inr [(''name'', JString ''is required'')]" by code_simp
  then obtain req where "decode_CreateEventRequest (JObject [(''description'', JString ''x'')]) = Inr req"
    "event_failures req = [(''name'', JString ''is required'')]"
    by (cases "decode_CreateEventRequest (JObject [(''description'', JString ''x'')])") auto
  ultimately show ?thesis using invalid_event_rejected[where L = sample_lib and rq = "post_event nameless_body"] b by simp
qed

end
