(* ===== verification/NetProperties.thy ===== *)
theory NetProperties
  imports ClientIP Config
begin

text \<open>
  Properties of the address a request is attributed to and of the configuration: what a client can
  and cannot do with the X-Forwarded-For header, which addresses an entry of \<open>TRUSTED_PROXIES\<close>
  trusts, and what a configuration that loads satisfies.
\<close>

section \<open>The address of a client\<close>

definition peer_host :: "string \<Rightarrow> string" where
  "peer_host remoteAddr = (case SplitHostPort remoteAddr of Some h \<Rightarrow> h | None \<Rightarrow> remoteAddr)"

definition peer_trusted :: "string \<Rightarrow> IPNet list \<Rightarrow> bool" where
  "peer_trusted remoteAddr trusted \<longleftrightarrow>
     (case ParseIP (peer_host remoteAddr) of None \<Rightarrow> False | Some ip \<Rightarrow> isTrustedProxy ip trusted)"

lemma clientIP_eq:
  "clientIP remoteAddr hs trusted =
     (if \<not> peer_trusted remoteAddr trusted then peer_host remoteAddr
      else case find (\<lambda>p. \<not> skipped trusted p) (rev (Split CHR '','' (Header_Get hs ''X-Forwarded-For''))) of
             None \<Rightarrow> peer_host remoteAddr | Some part \<Rightarrow> TrimSpace part)"
  by (auto simp: clientIP_def peer_host_def[symmetric] peer_trusted_def last_untrusted_eq Let_def skipped_def
      split: option.splits)

definition forwarded :: "string \<Rightarrow> header" where
  "forwarded v = [(''X-Forwarded-For'', v)]"

text \<open>
  C28: A client cannot choose its address. If the peer is no trusted proxy, the header is ignored. If
  it is one, then whatever text the client puts in front of the header, the result is the one of the
  part the proxies added, as soon as that part has an entry that is neither empty nor a trusted
  proxy. And the result is the address of a trusted proxy only if it is the peer itself.
\<close>

theorem forged_prefix_ignored:
  "clientIP peer (forwarded (forged @ CHR '','' # added)) trusted =
     (if \<not> peer_trusted peer trusted then peer_host peer
      else if list_ex (\<lambda>p. \<not> skipped trusted p) (Split CHR '','' added)
      then clientIP peer (forwarded added) trusted
      else clientIP peer (forwarded forged) trusted)
   \<and> (case ParseIP (clientIP peer hs trusted) of None \<Rightarrow> True
      | Some ip \<Rightarrow> isTrustedProxy ip trusted \<longrightarrow> clientIP peer hs trusted = peer_host peer)"
proof (rule conjI)
  have "list_ex P (rev xs) = list_ex P xs" for P :: "string \<Rightarrow> bool" and xs by (auto simp: list_ex_iff)
  moreover have "find P (xs @ ys) = find P ys" if "\<not> list_ex P xs" for P :: "string \<Rightarrow> bool" and xs ys
    using that by (induction xs) auto
  ultimately show "clientIP peer (forwarded (forged @ CHR '','' # added)) trusted =
     (if \<not> peer_trusted peer trusted then peer_host peer
      else if list_ex (\<lambda>p. \<not> skipped trusted p) (Split CHR '','' added)
      then clientIP peer (forwarded added) trusted
      else clientIP peer (forwarded forged) trusted)"
    by (simp add: clientIP_eq forwarded_def Header_Get_def Split_append find_append_hit)
next
  show "case ParseIP (clientIP peer hs trusted) of None \<Rightarrow> True
      | Some ip \<Rightarrow> isTrustedProxy ip trusted \<longrightarrow> clientIP peer hs trusted = peer_host peer"
    by (auto simp: clientIP_eq skipped_def split: option.splits dest!: find_Some_iff_set)
qed

definition ten_net :: "IPNet list" where
  "ten_net = [\<lparr>net_IP = [10, 0, 0, 0], net_Mask = [255, 0, 0, 0]\<rparr>]"

lemma skipped_code [code]: "skipped trusted p \<longleftrightarrow> last_untrusted trusted [p] = None"
  by (simp add: last_untrusted_eq)

lemma ten_net_examples:
  "peer_trusted ''10.0.0.5:443'' ten_net"
  "clientIP ''10.0.0.5:443'' (forwarded ''203.0.113.7, 10.0.0.9'') ten_net = ''203.0.113.7''"
  "list_ex (\<lambda>p. \<not> skipped ten_net p) (Split CHR '','' ''203.0.113.7, 10.0.0.9'')"
  "TrimSpace ''1.2.3.4'' = ''1.2.3.4''" "\<not> skipped ten_net ''1.2.3.4''"
  "ParseIP ''192.0.2.1'' = Some [0, 0, 0, 0, 0, 0, 0, 0, 0, 0, 255, 255, 192, 0, 2, 1]"
  "CIDRMask 32 32 = replicate 4 (- 1)" "CIDRMask 128 128 = replicate 16 (- 1)"
  "parseTrustedProxies ''10.0.0.0/8'' = Inr ten_net"
  by code_simp+

theorem forged_prefix_ignored_witness:
  "clientIP ''10.0.0.5:443'' (forwarded (''1.2.3.4'' @ CHR '','' # ''203.0.113.7, 10.0.0.9'')) ten_net = ''203.0.113.7''"
  using forged_prefix_ignored[of "''10.0.0.5:443''" "''1.2.3.4''" "''203.0.113.7, 10.0.0.9''" ten_net, THEN conjunct1]
  by (simp only: ten_net_examples if_True if_False simp_thms)

text \<open>
  C29: Only the first header line counts. A proxy that adds its own X-Forwarded-For line after the
  client's, instead of appending to it, leaves the choice of the address to the client: every text
  that is no trusted proxy's address and has no comma or surrounding space becomes the address.
\<close>

theorem second_line_ignored:
  assumes "peer_trusted peer trusted" "CHR '','' \<notin> set forged" "\<not> skipped trusted forged"
  shows "clientIP peer ((''X-Forwarded-For'', forged) # (''X-Forwarded-For'', real) # hs) trusted = TrimSpace forged"
proof -
  have "Split CHR '','' forged = [forged]" using assms(2) by (induction forged) auto
  then show ?thesis using assms(1,3) by (simp add: clientIP_eq Header_Get_def)
qed

theorem second_line_ignored_witness:
  "clientIP ''10.0.0.5:443'' [(''X-Forwarded-For'', ''1.2.3.4''), (''X-Forwarded-For'', ''203.0.113.7'')]
     ten_net = ''1.2.3.4''"
  using second_line_ignored[of "''10.0.0.5:443''" ten_net "''1.2.3.4''" "''203.0.113.7''" "[]"]
  by (simp add: ten_net_examples del: last_untrusted.simps)

section \<open>Trusted proxies\<close>

lemma full_masks: "CIDRMask 32 32 = replicate 4 (- 1)" "CIDRMask 128 128 = replicate 16 (- 1)"
  using ten_net_examples by simp_all

lemma map2_full: "length xs \<le> n \<Longrightarrow> map2 (AND) xs (replicate n (- 1 :: byte)) = xs"
proof (induction xs arbitrary: n)
  case (Cons x xs)
  then show ?case by (cases n) simp_all
qed simp

lemma To4_cases:
  assumes "length ip = 16"
  shows "To4 ip = (if take 12 ip = v4InV6Prefix then Some (drop 12 ip) else None)"
  using assms by (simp add: To4_def)

lemma To4_16: "length ip = 16 \<Longrightarrow> length ip2 = 16 \<Longrightarrow> To4 ip = To4 ip2 \<Longrightarrow> To4 ip \<noteq> None \<Longrightarrow> ip = ip2"
  by (metis To4_cases append_take_drop_id option.distinct(1) option.inject)

text \<open>
  C30: A plain address trusts itself only. An entry of \<open>TRUSTED_PROXIES\<close> without a slash is accepted
  exactly if it is an address, and the network made of it contains that address and no other.
\<close>

theorem plain_proxy_exact:
  assumes "CHR ''/'' \<notin> set part" "ParseIP other = Some ip2"
  shows "case proxy_entry part of
      Inl e \<Rightarrow> ParseIP part = None
    | Inr network \<Rightarrow> \<exists>ip. ParseIP part = Some ip \<and> (Contains network ip2 \<longleftrightarrow> ip2 = ip)"
proof (cases "ParseIP part")
  case None
  then show ?thesis using assms(1) by (simp add: proxy_entry_def)
next
  case (Some ip)
  note l = ParseIP_length[OF Some] ParseIP_length[OF assms(2)]
  show ?thesis
  proof (cases "To4 ip")
    case (Some v4)
    then have "length v4 = 4" using l(1) by (auto simp: To4_cases split: if_splits)
    then have "Contains \<lparr>net_IP = ip, net_Mask = CIDRMask 32 32\<rparr> ip2 \<longleftrightarrow> To4 ip2 = Some v4"
      using Some l(2) by (auto simp: Contains_def networkNumberAndMask_def full_masks map2_full To4_cases split: if_splits)
    then have "Contains \<lparr>net_IP = ip, net_Mask = CIDRMask 32 32\<rparr> ip2 \<longleftrightarrow> ip2 = ip"
      using To4_16[OF l] Some by auto
    then show ?thesis using assms(1) \<open>ParseIP part = Some ip\<close> Some by (simp add: proxy_entry_def)
  next
    case None
    then have "Contains \<lparr>net_IP = ip, net_Mask = CIDRMask 128 128\<rparr> ip2 \<longleftrightarrow> ip2 = ip"
      using l by (auto simp: Contains_def networkNumberAndMask_def full_masks map2_full To4_cases split: if_splits)
    then show ?thesis using assms(1) \<open>ParseIP part = Some ip\<close> None by (simp add: proxy_entry_def)
  qed
qed

theorem plain_proxy_exact_witness:
  "\<exists>network. proxy_entry ''192.0.2.1'' = Inr network
     \<and> Contains network [0, 0, 0, 0, 0, 0, 0, 0, 0, 0, 255, 255, 192, 0, 2, 1]"
  using plain_proxy_exact[of "''192.0.2.1''" "''192.0.2.1''"] by (auto simp: ten_net_examples split: sum.splits)

section \<open>Configurations that load\<close>

definition sound_config :: "Config \<Rightarrow> bool" where
  "sound_config c \<longleftrightarrow>
     (\<exists>port. Atoi (cf_Port c) = Some port \<and> 1 \<le> port \<and> port \<le> 65535)
   \<and> (IsDevelopment c \<or> cf_GoogleClientID c \<noteq> '''' \<or> cf_AppleClientID c \<noteq> '''' \<or> cf_MicrosoftClientID c \<noteq> '''')
   \<and> cf_DatabaseURL c \<noteq> '''' \<and> 0 < cf_UserTokenTTL c \<and> 1 \<le> cf_MaxAgentsPerUser c
   \<and> 1 \<le> cf_RateLimitEventsPerDay c \<and> 1 \<le> cf_RateLimitExchangePerHour c"

lemma Validate_iff: "Validate c = None \<longleftrightarrow> sound_config c"
  by (auto simp: Validate_def sound_config_def split: option.splits)

lemma Load_Inr:
  assumes "Load v = Inr cfg"
  shows "sound_config cfg \<and> parseTrustedProxies (GetString v defaults ''trusted_proxies'') = Inr (cf_TrustedProxies cfg)
    \<and> cf_UserTokenTTL cfg = duration_times (GetInt v defaults ''user_token_ttl_hours'') Hour
    \<and> cf_MaxAgentsPerUser cfg = GetInt v defaults ''max_agents_per_user''
    \<and> cf_RateLimitEventsPerDay cfg = GetInt v defaults ''rate_limit_events_per_day''
    \<and> cf_RateLimitExchangePerHour cfg = GetInt v defaults ''rate_limit_exchange_per_hour''
    \<and> cf_Env cfg = ToLower (GetString v defaults ''env'')"
proof -
  have "Validate cfg = None" using assms by (auto simp: Load_def Let_def split: sum.splits option.splits)
  then show ?thesis using assms by (auto simp: Validate_iff[symmetric] Load_def Let_def split: sum.splits option.splits)
qed

text \<open>
  C32: What loading guarantees. A configuration that loads has a port from 1 to 65535, a database,
  at least one agent, event and sign-in allowed, a positive token lifetime, and outside development
  an identity provider; if it does not load, one of these or an entry of the trusted proxies is
  wrong. Comparing the environment's name with \<open>development\<close> ignores case.
\<close>

theorem load_checks:
  "case Load v of
     Inr cfg \<Rightarrow> sound_config cfg
   | Inl e \<Rightarrow> isl (parseTrustedProxies (GetString v defaults ''trusted_proxies''))
       \<or> \<not> (let n = GetInt v defaults; t = GetString v defaults in
             (\<exists>port. Atoi (t ''port'') = Some port \<and> 1 \<le> port \<and> port \<le> 65535)
             \<and> (ToLower (t ''env'') = ''development'' \<or> t ''google_client_id'' \<noteq> '''' \<or> t ''apple_client_id'' \<noteq> ''''
                 \<or> t ''microsoft_client_id'' \<noteq> '''')
             \<and> t ''database_url'' \<noteq> '''' \<and> 0 < duration_times (n ''user_token_ttl_hours'') Hour
             \<and> 1 \<le> n ''max_agents_per_user'' \<and> 1 \<le> n ''rate_limit_events_per_day''
             \<and> 1 \<le> n ''rate_limit_exchange_per_hour'')"
proof (cases "Load v")
  case (Inr cfg)
  then show ?thesis using Load_Inr by simp
next
  case (Inl e)
  show ?thesis
  proof (cases "parseTrustedProxies (GetString v defaults ''trusted_proxies'')")
    case (Inr ps)
    define cfg where "cfg = \<lparr>cf_Port = GetString v defaults ''port'', cf_Env = ToLower (GetString v defaults ''env''),
      cf_LogLevel = ToLower (GetString v defaults ''log_level''), cf_DatabaseURL = GetString v defaults ''database_url'',
      cf_GoogleClientID = GetString v defaults ''google_client_id'', cf_AppleClientID = GetString v defaults ''apple_client_id'',
      cf_MicrosoftClientID = GetString v defaults ''microsoft_client_id'',
      cf_MicrosoftTenant = GetString v defaults ''microsoft_tenant'',
      cf_UserTokenTTL = duration_times (GetInt v defaults ''user_token_ttl_hours'') Hour,
      cf_MaxAgentsPerUser = GetInt v defaults ''max_agents_per_user'',
      cf_RateLimitEventsPerDay = GetInt v defaults ''rate_limit_events_per_day'',
      cf_RateLimitExchangePerHour = GetInt v defaults ''rate_limit_exchange_per_hour'', cf_TrustedProxies = ps\<rparr>"
    have "Validate cfg \<noteq> None" using Inl Inr by (auto simp: Load_def cfg_def Let_def split: option.splits)
    then show ?thesis using Inl by (simp add: Validate_iff sound_config_def IsDevelopment_def cfg_def Let_def)
  qed (use Inl in simp)
qed

definition sample_viper :: viper where
  "sample_viper = \<lparr>GetString = (\<lambda>ds k. case map_of ds k of Some (DefaultString s) \<Rightarrow> s
       | _ \<Rightarrow> if k = ''database_url'' then ''postgres://db'' else ''''),
     GetInt = (\<lambda>ds k. if k = ''user_token_ttl_hours'' then 5124096
       else case map_of ds k of Some (DefaultInt i) \<Rightarrow> i | _ \<Rightarrow> 0)\<rparr>"

lemma sample_load: "\<exists>cfg. Load sample_viper = Inr cfg"
proof -
  have "\<not> isl (Load sample_viper)" by code_simp
  then show ?thesis by (cases "Load sample_viper") auto
qed

theorem load_checks_witness: "\<exists>cfg. Load sample_viper = Inr cfg \<and> sound_config cfg"
  using load_checks[of sample_viper] sample_load by (auto split: sum.splits)

lemma Hour_value: "Hour = 3600000000000" by (simp add: Hour_def Minute_def Second_def)

lemma duration_times_take_bit: "duration_times n d = signed_take_bit 63 (n * d)"
proof -
  have "word_of_int n * word_of_int d = (word_of_int (n * d) :: 64 word)" by simp
  then show ?thesis unfolding duration_times_def by (simp only: sint_sbintrunc') simp
qed

lemma duration_times_exact: "\<bar>h\<bar> \<le> 2562047 \<Longrightarrow> duration_times h Hour = h * Hour"
  unfolding duration_times_take_bit Hour_value by (intro signed_take_bit_int_eq_self) (simp_all add: abs_le_iff)

text \<open>
  C33: The lifetime of tokens in hours. In a configuration that loads with up to 2562047 hours, the
  lifetime is that many hours, at least one. Beyond that the product of 64-bit durations wraps,
  which the check of the sign does not always notice: 5124096 hours (more than 584 years) load as
  less than 26 minutes.
\<close>

theorem token_lifetime:
  assumes "Load v = Inr cfg" "GetInt v defaults ''user_token_ttl_hours'' = h"
  shows "(\<bar>h\<bar> \<le> 2562047 \<longrightarrow> 1 \<le> h \<and> cf_UserTokenTTL cfg = h * Hour)
    \<and> (h = 5124096 \<longrightarrow> cf_UserTokenTTL cfg < 26 * Minute)"
proof -
  have ttl: "0 < cf_UserTokenTTL cfg" "cf_UserTokenTTL cfg = duration_times h Hour"
    using Load_Inr[OF assms(1)] assms(2) by (auto simp: sound_config_def)
  have "duration_times 5124096 Hour < 26 * Minute"
    by (simp add: duration_times_def Hour_value Minute_def Second_def)
  moreover have "\<bar>h\<bar> \<le> 2562047 \<Longrightarrow> 1 \<le> h"
    using ttl duration_times_exact[of h] by (simp add: Hour_value)
  ultimately show ?thesis using ttl duration_times_exact[of h] by simp
qed

theorem token_lifetime_witness:
  "\<exists>cfg. Load sample_viper = Inr cfg \<and> cf_UserTokenTTL cfg < 26 * Minute"
proof -
  obtain cfg where c: "Load sample_viper = Inr cfg" using sample_load by blast
  have "GetInt sample_viper defaults ''user_token_ttl_hours'' = 5124096" by (simp add: sample_viper_def)
  then show ?thesis using token_lifetime[OF c] c by simp
qed

end
