(* ===== verification/LimiterProperties.thy ===== *)
theory LimiterProperties
  imports RateLimiter
begin

text \<open>
  What the rate limiter promises: exactly the first \<open>Max\<close> calls of a window are allowed as long as
  no live counter has to be evicted, the windows partition time, memory is bounded, and what happens
  to the promise when counters are evicted.
\<close>

definition calls_in :: "limits \<Rightarrow> bucketKey \<Rightarrow> call list \<Rightarrow> nat" where
  "calls_in limits b cs = length (filter (in_bucket limits b) cs)"

lemma allowed_calls_exact:
  assumes "limits (bk_action b) = Some l" "0 < Window l" "Second dvd Window l"
    and "list_all (\<lambda>(ord, now, key, action). map_order ord) cs"
    and "sorted (map call_time cs)" and "no_eviction limits c cs"
  shows "allowed_calls limits b c cs = min (nat (Max l - count_of c b)) (calls_in limits b cs)"
  using assms(4-)
proof (induction cs arbitrary: c)
  case Nil
  then show ?case by (simp add: calls_in_def)
next
  case (Cons x cs)
  obtain ord now key action where x: "x = (ord, now, key, action)" by (cases x) auto
  obtain r c' where A: "Allow limits ord now key action c = (r, c')" by fastforce
  have IH: "allowed_calls limits b c' cs = min (nat (Max l - count_of c' b)) (calls_in limits b cs)"
    using Cons.IH[of c'] Cons.prems A x by simp
  have o: "map_order ord" and room:
    "length c < maxTrackedBuckets \<or> length (prune limits ord now c) < maxTrackedBuckets"
    using Cons.prems x by auto
  have later: "now \<le> call_time y" if "y \<in> set cs" for y
    using Cons.prems(2) that by (auto simp: x call_time_def)
  show ?case
  proof (cases "stale limits now b")
    case True
    have "\<not> in_bucket limits b y" if "y \<in> set (x # cs)" for y
      using not_stale_while_used[where limits = limits and b = b, OF assms(1-3)] later[of y] True that
      by (cases y) (auto simp: x call_time_def)
    then have "allowed_calls limits b c (x # cs) = 0" "calls_in limits b (x # cs) = 0"
      using allowed_calls_none[of limits b "x # cs"] unfolding list_all_iff calls_in_def
      by (blast, simp add: filter_empty_conv del: filter.simps)
    then show ?thesis by simp
  next
    case False
    note kept = count_of_make_room[OF o False room]
    show ?thesis
    proof (cases "in_bucket limits b x")
      case True
      then have "limits action = Some l" "bucket_of l now key action = b"
        using assms(1) by (auto simp: x in_bucket_def bucket_of_def split: option.splits)
      then have "c' = AList.update b (count_of c b + 1) (make_room limits ord now c)"
        "r \<longleftrightarrow> count_of c b + 1 \<le> Max l"
        using A kept by (auto simp: Allow_def Let_def)
      then show ?thesis using IH A True by (auto simp: x calls_in_def)
    next
      case False
      then have "count_of c' b = count_of c b"
        using A kept by (auto simp: x in_bucket_def Allow_def Let_def split: option.splits)
      then show ?thesis using IH A False by (auto simp: x calls_in_def)
    qed
  qed
qed

section \<open>Samples\<close>

definition hourly :: limits where
  "hourly = [''auth.exchange'' \<mapsto> \<lparr>Max = 2, Window = Hour\<rparr>]"

definition hour_start :: time where "hour_start = 63900000000 * Second"

definition at_second :: "int \<Rightarrow> string \<Rightarrow> call" where
  "at_second s key = ((\<lambda>ks. ks), hour_start + s * Second, key, ''auth.exchange'')"

definition ip_bucket :: "string \<Rightarrow> bucketKey" where
  "ip_bucket key = \<lparr>bk_action = ''auth.exchange'', bk_key = key, bk_windowStart = Unix hour_start\<rparr>"

definition sample_calls :: "call list" where
  "sample_calls = [at_second 1 ''a'', at_second 2 ''a'', at_second 3 ''b'', at_second 4 ''a'']"

lemma sample_unit [simp]: "0 < Hour" "Second dvd Hour"
  by (simp_all add: Hour_def Minute_def Second_def)

lemma at_second_bucket:
  assumes "0 \<le> s" "s < 3600"
  shows "bucket_of \<lparr>Max = 2, Window = Hour\<rparr> (hour_start + s * Second) key ''auth.exchange'' = ip_bucket key"
proof -
  have "hour_start + s * Second = s * Second + 17750000 * Hour"
    by (simp add: hour_start_def Hour_def Minute_def)
  moreover have "(s * Second + 17750000 * Hour) mod Hour = s * Second"
    unfolding mod_mult_self1 using assms by (intro mod_pos_pos_trivial) (simp_all add: Hour_def Minute_def Second_def)
  ultimately have "(hour_start + s * Second) mod Hour = s * Second" by (simp only:)
  then have "Truncate (hour_start + s * Second) Hour = hour_start"
    using sample_unit(1) by (simp add: Truncate_def del: sample_unit)
  then show ?thesis by (simp add: bucket_of_def ip_bucket_def)
qed

text \<open>With fewer counters than the bound, no call of a short sequence evicts.\<close>

lemma no_eviction_short:
  "length c + length cs \<le> maxTrackedBuckets \<Longrightarrow> no_eviction limits c cs"
proof (induction limits c cs rule: no_eviction.induct)
  case (2 limits c ord now key action cs)
  have "length (snd (Allow limits ord now key action c)) \<le> Suc (length c)"
    using 2(2) length_update_le
    by (auto simp: Allow_def Let_def make_room_def split: option.splits)
  then show ?case using 2 by simp
qed simp

section \<open>Properties\<close>

text \<open>
  C10: The limit. For any sequence of calls in the order of the clock, in which pruning always makes
  enough room, the number of calls of one action and key in one window that are allowed is exactly
  the smaller of the number of such calls and of what the limit leaves: never more than \<open>Max\<close> in a
  window, and none refused before.
\<close>

theorem limit_exact:
  assumes "limits (bk_action b) = Some l" "0 < Window l" "Second dvd Window l"
    and "list_all (\<lambda>(ord, now, key, action). map_order ord) cs"
    and "sorted (map call_time cs)" and "no_eviction limits c cs"
  shows "allowed_calls limits b c cs = min (nat (Max l - count_of c b)) (calls_in limits b cs)"
  using assms by (rule allowed_calls_exact)

theorem limit_exact_witness:
  "allowed_calls hourly (ip_bucket ''a'') [] sample_calls = 2 \<and> calls_in hourly (ip_bucket ''a'') sample_calls = 3"
proof -
  have order: "map_order (\<lambda>ks. ks)" by (simp add: map_order_def)
  have inb: "in_bucket hourly (ip_bucket k') (at_second s k) \<longleftrightarrow> k = k'" if "0 \<le> s" "s < 3600" for s k k'
    using at_second_bucket[OF that] by (auto simp: in_bucket_def at_second_def hourly_def ip_bucket_def)
  have three: "calls_in hourly (ip_bucket ''a'') sample_calls = 3"
    by (simp add: calls_in_def sample_calls_def inb)
  have "no_eviction hourly [] sample_calls"
    by (rule no_eviction_short) (simp add: sample_calls_def maxTrackedBuckets_def)
  moreover have "sorted (map call_time sample_calls)"
    by (simp add: sample_calls_def at_second_def call_time_def Second_def)
  moreover have "list_all (\<lambda>(ord, now, key, action). map_order ord) sample_calls"
    by (simp add: sample_calls_def at_second_def order)
  moreover have "hourly (bk_action (ip_bucket ''a'')) = Some \<lparr>Max = 2, Window = Hour\<rparr>"
    by (simp add: hourly_def ip_bucket_def)
  ultimately have "allowed_calls hourly (ip_bucket ''a'') [] sample_calls = min (nat (2 - count_of [] (ip_bucket ''a''))) 3"
    using limit_exact[of hourly "ip_bucket ''a''" "\<lparr>Max = 2, Window = Hour\<rparr>" sample_calls "[]"] three by simp
  then show ?thesis using three by (simp add: count_of_def)
qed

text \<open>
  C37: Windows partition time. Two calls with the same action and key count against the same limit
  exactly if their clock readings lie in the same window, the windows being the multiples of
  the length since the zero time.
\<close>

theorem windows_partition_time:
  assumes "0 < Window l" "Second dvd Window l"
  shows "bucket_of l t key action = bucket_of l u key action \<longleftrightarrow> t div Window l = u div Window l"
proof -
  obtain k where k: "Window l = Second * k" using assms(2) by (auto elim: dvdE)
  have S: "0 < Second" by (simp add: Second_def)
  have "Truncate t (Window l) = Second * (k * (t div Window l))" for t
    using assms(1) k by (simp add: Truncate_def minus_mod_eq_mult_div mult.assoc)
  then have "Unix (Truncate t (Window l)) = k * (t div Window l) - 62135596800" for t
    using S by (simp add: Unix_def)
  moreover have "k \<noteq> 0" using assms(1) k by auto
  ultimately show ?thesis by (simp add: bucket_of_def)
qed

theorem windows_partition_time_witness:
  "bucket_of \<lparr>Max = 2, Window = Hour\<rparr> (hour_start + Second) ''k'' ''a'' =
     bucket_of \<lparr>Max = 2, Window = Hour\<rparr> (hour_start + 3599 * Second) ''k'' ''a''"
proof -
  have "(hour_start + Second) div Hour = (hour_start + 3599 * Second) div Hour"
    by (simp add: hour_start_def Hour_def Minute_def Second_def)
  then show ?thesis
    using windows_partition_time[of "\<lparr>Max = 2, Window = Hour\<rparr>"] by simp
qed

text \<open>
  C38: Bounded memory. Whatever calls arrive and in whatever order maps are iterated, the limiter
  keeps at most \<open>maxTrackedBuckets\<close> counters, one per bucket, each at least one.
\<close>

fun run_calls :: "limits \<Rightarrow> counts \<Rightarrow> call list \<Rightarrow> counts" where
  "run_calls limits c [] = c"
| "run_calls limits c ((ord, now, key, action) # cs) = run_calls limits (snd (Allow limits ord now key action c)) cs"

theorem limiter_memory_bounded:
  assumes "limiter_inv c" "list_all (\<lambda>(ord, now, key, action). map_order ord) cs"
  shows "limiter_inv (run_calls limits c cs)"
  using assms
proof (induction limits c cs rule: run_calls.induct)
  case (2 limits c ord now key action cs)
  obtain r c' where "Allow limits ord now key action c = (r, c')" by fastforce
  then show ?case using 2 Allow_inv[of c ord limits now key action r c'] by simp
qed simp

theorem limiter_memory_bounded_witness: "limiter_inv (run_calls hourly [] sample_calls)"
  by (rule limiter_memory_bounded)
    (simp_all add: limiter_inv_def sample_calls_def at_second_def map_order_def)

text \<open>
  C39: What eviction forgets. When the limiter is full of live counters and the iteration over the map
  meets the caller's own counter first, that counter is dropped: a caller who has used up the limit
  is allowed again in the same window. So the bound of one window holds only while no live counter
  is evicted.
\<close>

lemma filter_live: "list_all (\<lambda>(k, n). \<not> stale limits now k) c \<Longrightarrow> filter (\<lambda>(k, n). \<not> stale limits now k) c = c"
  by (induction c) auto

lemma evict_first:
  assumes "length c = maxTrackedBuckets" "distinct (map fst c)" "ord (map fst c) = b # bs" "b \<in> set (map fst c)"
  shows "evict ord c = AList.delete b c"
proof -
  have "length (AList.delete b c) = maxTrackedBuckets - 1"
    using length_delete_key[OF assms(2), of b] assms(1,4) by simp
  then have "length (AList.delete b c) < maxTrackedBuckets" by (simp add: maxTrackedBuckets_def)
  then have "evict_loop bs (AList.delete b c) = AList.delete b c" by (cases bs) simp_all
  then show ?thesis using assms(1,3) by (simp add: evict_def)
qed

theorem eviction_resets_limit:
  assumes "limits action = Some l" "1 \<le> Max l" "map_order ord"
    and "distinct (map fst c)" "length c = maxTrackedBuckets"
    and "list_all (\<lambda>(k, n). \<not> stale limits now k) c"
    and "ord (map fst c) = bucket_of l now key action # bs"
    and "count_of c (bucket_of l now key action) = Max l"
  shows "fst (Allow limits ord now key action c)"
proof -
  let ?b = "bucket_of l now key action"
  have pruned: "prune limits ord now c = c"
    using assms(3,6) by (simp add: prune_eq filter_live)
  have "set (ord (map fst c)) = set (map fst c)"
    using assms(3) unfolding map_order_def by (metis set_mset_mset)
  then have "?b \<in> set (map fst c)" using assms(7) by (metis list.set_intros(1))
  then have "make_room limits ord now c = AList.delete ?b c"
    using evict_first[where ord = ord and c = c and b = ?b and bs = bs] assms(4,5,7) pruned
    by (simp add: make_room_def)
  then have "count_of (make_room limits ord now c) ?b = 0"
    by (simp add: count_of_def delete_conv')
  then show ?thesis using assms(1,2) by (simp add: Allow_def Let_def)
qed

definition crowd :: counts where
  "crowd = (ip_bucket ''a'', 2) # map (\<lambda>i. (ip_bucket (replicate (i + 2) CHR ''x''), 1)) [0..<4095]"

lemma crowd_keys: "distinct (map fst crowd) \<and> length crowd = maxTrackedBuckets"
proof -
  have "distinct (map (\<lambda>i. ip_bucket (replicate (i + 2) CHR ''x'')) [0..<4095])"
    by (simp add: distinct_map inj_on_def ip_bucket_def)
  moreover have "ip_bucket ''a'' \<noteq> ip_bucket (replicate (i + 2) CHR ''x'')" for i
    by (simp add: ip_bucket_def)
  ultimately show ?thesis by (auto simp: crowd_def maxTrackedBuckets_def comp_def)
qed

theorem eviction_resets_limit_witness:
  "fst (Allow hourly (\<lambda>ks. ks) (hour_start + 5 * Second) ''a'' ''auth.exchange'' crowd)
     \<and> count_of crowd (ip_bucket ''a'') = 2"
proof -
  have b: "bucket_of \<lparr>Max = 2, Window = Hour\<rparr> (hour_start + 5 * Second) ''a'' ''auth.exchange'' = ip_bucket ''a''"
    by (rule at_second_bucket) simp_all
  have live: "\<not> stale hourly (hour_start + 5 * Second) (ip_bucket k)" for k
    by (simp add: stale_def hourly_def ip_bucket_def Unix_def hour_start_def Hour_def Minute_def Second_def)
  have "fst (Allow hourly (\<lambda>ks. ks) (hour_start + 5 * Second) ''a'' ''auth.exchange'' crowd)"
  proof (rule eviction_resets_limit[of hourly "''auth.exchange''" "\<lparr>Max = 2, Window = Hour\<rparr>" _ _ _ _
        "map (\<lambda>i. ip_bucket (replicate (i + 2) CHR ''x'')) [0..<4095]"])
    show "list_all (\<lambda>(k, n). \<not> stale hourly (hour_start + 5 * Second) k) crowd"
      by (auto simp: crowd_def list_all_iff live)
    show "map fst crowd = bucket_of \<lparr>Max = 2, Window = Hour\<rparr> (hour_start + 5 * Second) ''a'' ''auth.exchange''
        # map (\<lambda>i. ip_bucket (replicate (i + 2) CHR ''x'')) [0..<4095]"
      unfolding b by (simp add: crowd_def comp_def)
  qed (use crowd_keys b in \<open>simp_all add: hourly_def map_order_def crowd_def count_of_def del: upt_rec_numeral\<close>)
  then show ?thesis by (simp add: crowd_def count_of_def)
qed

end
