(* ===== verification/StartProperties.thy ===== *)
theory StartProperties
  imports SampleServer NetProperties LimiterProperties
begin

text \<open>
  Properties of the process as it is started from a configuration: whose identities are accepted,
  how often the limited actions are allowed, what the cleanup job removes.
\<close>

section \<open>Identities\<close>

definition google_identity :: "oidc_lib \<Rightarrow> Config \<Rightarrow> string \<Rightarrow> world \<Rightarrow> Identity \<Rightarrow> bool" where
  "google_identity lib cfg t w i \<longleftrightarrow> cf_GoogleClientID cfg \<noteq> '''' \<and>
     (\<exists>tok c w'. run (provider_Verifier lib ''https://accounts.google.com'' (cf_GoogleClientID cfg) t) w = (Inr tok, w')
        \<and> google_claims (token_claims tok) = Inr c \<and> cl_EmailVerified c \<and> cl_Email c \<noteq> ''''
        \<and> i = \<lparr>Identity_Provider = ''google'', Identity_Subject = Subject tok, Identity_Email = cl_Email c\<rparr>)"

definition apple_identity :: "oidc_lib \<Rightarrow> Config \<Rightarrow> string \<Rightarrow> world \<Rightarrow> Identity \<Rightarrow> bool" where
  "apple_identity lib cfg t w i \<longleftrightarrow> cf_AppleClientID cfg \<noteq> '''' \<and>
     (\<exists>tok c w'. run (provider_Verifier lib ''https://appleid.apple.com'' (cf_AppleClientID cfg) t) w = (Inr tok, w')
        \<and> apple_claims (token_claims tok) = Inr c \<and> cl_EmailVerified c \<and> cl_Email c \<noteq> ''''
        \<and> i = \<lparr>Identity_Provider = ''apple'', Identity_Subject = Subject tok, Identity_Email = cl_Email c\<rparr>)"

definition microsoft_identity :: "oidc_lib \<Rightarrow> Config \<Rightarrow> string \<Rightarrow> world \<Rightarrow> Identity \<Rightarrow> bool" where
  "microsoft_identity lib cfg t w i \<longleftrightarrow> cf_MicrosoftClientID cfg \<noteq> '''' \<and>
     (\<exists>tok tenant w'. run (oidc_NewVerifier lib ''https://login.microsoftonline.com/common/discovery/v2.0/keys''
            (cf_MicrosoftClientID cfg) t) w = (Inr tok, w')
        \<and> Issuer tok = ''https://login.microsoftonline.com/'' @ tenant @ ''/v2.0'' \<and> tenant \<noteq> '''' \<and> CHR ''/'' \<notin> set tenant
        \<and> (cf_MicrosoftTenant cfg \<in> {'''', ''common'', ''consumers'', ''organizations''} \<or> tenant = cf_MicrosoftTenant cfg)
        \<and> Identity_Provider i = ''microsoft'' \<and> Identity_Subject i = Subject tok)"

lemmas provider_names = ProviderGoogle_def ProviderApple_def ProviderMicrosoft_def Providers_def

lemma start_Inr:
  assumes "start L E lib v = Inr (cfg, s)"
  obtains ver where "Load v = Inr cfg" "oidc_New lib (IsDevelopment cfg) (cf_GoogleClientID cfg) (cf_AppleClientID cfg)
      (cf_MicrosoftClientID cfg) (cf_MicrosoftTenant cfg) = Inr ver" "s = assemble L E (Verifier_Verify ver) cfg"
  using assms by (auto simp: start_def provideIdentityVerifier_def split: sum.splits)

text \<open>
  C7: Who can sign in. Once the process has started, an identity is accepted for a provider only if
  go-oidc verified the token with the client id configured for that provider: for Google and Apple
  with an email address the provider calls verified, for Microsoft with an issuer of the configured
  tenant. The one exception is the development environment without any client id.
\<close>

theorem identities_verified:
  assumes "start L E lib v = Inr (cfg, s)" "run (as_verifier (sv_auth s) p t) w = (Inr i, w')"
  shows "Identity_Provider i = p \<and>
    (IsDevelopment cfg \<and> cf_GoogleClientID cfg = '''' \<and> cf_AppleClientID cfg = '''' \<and> cf_MicrosoftClientID cfg = ''''
     \<or> google_identity lib cfg t w i \<or> apple_identity lib cfg t w i \<or> microsoft_identity lib cfg t w i)"
proof -
  obtain ver where ver: "oidc_New lib (IsDevelopment cfg) (cf_GoogleClientID cfg) (cf_AppleClientID cfg)
      (cf_MicrosoftClientID cfg) (cf_MicrosoftTenant cfg) = Inr ver" and s: "s = assemble L E (Verifier_Verify ver) cfg"
    using start_Inr[OF assms(1)] by metis
  have r: "run (Verifier_Verify ver p t) w = (Inr i, w')"
    using assms(2) by (simp add: s assemble_services auth_svc_defs)
  then obtain f where f: "map_of ver p = Some f" "run (f t) w = (Inr i, w')"
    by (auto simp: Verifier_Verify_def split: option.splits)
  note E = newWithOptions_entries[OF ver[unfolded oidc_New_def] map_of_SomeD[OF f(1)]]
  show ?thesis
  proof (cases "cf_GoogleClientID cfg = '''' \<and> cf_AppleClientID cfg = '''' \<and> cf_MicrosoftClientID cfg = ''''")
    case True
    then show ?thesis using E f(2) by (auto simp: no_client_ids_def dev_verify_def)
  next
    case False
    then have "provider_entry lib \<lparr>allowDevVerifier = IsDevelopment cfg, googleClientID = cf_GoogleClientID cfg,
        googleIssuer = ''https://accounts.google.com'', appleClientID = cf_AppleClientID cfg,
        appleIssuer = ''https://appleid.apple.com'', microsoftClientID = cf_MicrosoftClientID cfg,
        microsoftTenant = cf_MicrosoftTenant cfg,
        microsoftJWKSURL = ''https://login.microsoftonline.com/common/discovery/v2.0/keys''\<rparr> (p, f)"
      using E by (auto simp: no_client_ids_def)
    then consider (google) "cf_GoogleClientID cfg \<noteq> ''''" "p = ''google''"
        "f = GoogleVerifier_Verify (provider_Verifier lib ''https://accounts.google.com'' (cf_GoogleClientID cfg))"
      | (apple) "cf_AppleClientID cfg \<noteq> ''''" "p = ''apple''"
        "f = AppleVerifier_Verify (provider_Verifier lib ''https://appleid.apple.com'' (cf_AppleClientID cfg))"
      | (microsoft) "cf_MicrosoftClientID cfg \<noteq> ''''" "p = ''microsoft''"
        "f = MicrosoftVerifier_Verify (if cf_MicrosoftTenant cfg \<in> {'''', ''common'', ''consumers'', ''organizations''}
             then None else Some (cf_MicrosoftTenant cfg))
           (oidc_NewVerifier lib ''https://login.microsoftonline.com/common/discovery/v2.0/keys'' (cf_MicrosoftClientID cfg))"
      by (auto simp: provider_entry_def provider_names)
    then show ?thesis
    proof cases
      case google
      then show ?thesis using google_accepts[OF f(2)[unfolded google(3)]]
        by (auto simp: google_identity_def provider_names)
    next
      case apple
      then show ?thesis using apple_accepts[OF f(2)[unfolded apple(3)]]
        by (auto simp: apple_identity_def provider_names)
    next
      case microsoft
      then show ?thesis using microsoft_accepts[OF f(2)[unfolded microsoft(3)]]
        by (auto simp: microsoft_identity_def provider_names split: if_splits)
    qed
  qed
qed

definition prod_viper :: viper where
  "prod_viper = \<lparr>GetString = (\<lambda>ds k.
       case map_of [(''env'', ''Production''), (''database_url'', ''postgres://db''), (''google_client_id'', ''cid''),
                    (''trusted_proxies'', ''10.0.0.0/8'')] k of
         Some t \<Rightarrow> t
       | None \<Rightarrow> (case map_of ds k of Some (DefaultString t) \<Rightarrow> t | _ \<Rightarrow> '''')),
     GetInt = (\<lambda>ds k. case map_of ds k of Some (DefaultInt i) \<Rightarrow> i | _ \<Rightarrow> 0)\<rparr>"

definition prod_cfg :: Config where
  "prod_cfg = \<lparr>cf_Port = ''8080'', cf_Env = ''production'', cf_LogLevel = ''info'', cf_DatabaseURL = ''postgres://db'',
     cf_GoogleClientID = ''cid'', cf_AppleClientID = '''', cf_MicrosoftClientID = '''', cf_MicrosoftTenant = ''common'',
     cf_UserTokenTTL = 2592000000000000, cf_MaxAgentsPerUser = 10, cf_RateLimitEventsPerDay = 20,
     cf_RateLimitExchangePerHour = 30, cf_TrustedProxies = ten_net\<rparr>"

lemma prod_load: "Load prod_viper = Inr prod_cfg"
proof -
  have "parseTrustedProxies ''10.0.0.0/8'' = Inr ten_net" by (rule ten_net_examples)
  moreover have "Atoi ''8080'' = Some 8080" by (simp add: Atoi_def dec_val_def digit_val_def is_digit_def)
  moreover have "ToLower ''Production'' = ''production''" "ToLower ''info'' = ''info''"
    by code_simp+
  moreover have "duration_times 720 Hour = 2592000000000000" using duration_times_exact[of 720] by (simp add: Hour_value)
  ultimately show ?thesis
    by (simp add: Load_def prod_viper_def defaults_def Validate_def IsDevelopment_def prod_cfg_def Let_def)
qed

text \<open>A library that accepts the text \<open>good\<close> as the token of one Google account.\<close>

definition sample_oidc :: oidc_lib where
  "sample_oidc = \<lparr>oidc_NewProvider = (\<lambda>issuer. None),
     provider_Verifier = (\<lambda>issuer clientID t. Done (if t = ''good''
       then Inr \<lparr>Issuer = issuer, Audience = [clientID], Subject = ''1'',
                 token_claims = JObject [(''email'', JString ''ann@x.org''), (''email_verified'', JBool True)]\<rparr>
       else Inl (Plain ''bad token''))),
     oidc_NewVerifier = (\<lambda>url clientID t. Done (Inl (Plain ''bad token'')))\<rparr>"

definition prod_server :: server where
  "prod_server = assemble sample_lib sample_env
     (Verifier_Verify [(''google'', GoogleVerifier_Verify (provider_Verifier sample_oidc ''https://accounts.google.com'' ''cid''))])
     prod_cfg"

lemma prod_start: "start sample_lib sample_env sample_oidc prod_viper = Inr (prod_cfg, prod_server)"
  by (simp add: start_def prod_load provideIdentityVerifier_def oidc_New_def newWithOptions_def add_provider_def
      NewGoogle_def prod_server_def Let_def)
    (simp add: prod_cfg_def sample_oidc_def provider_names)

theorem identities_verified_witness:
  "\<exists>i. run (as_verifier (sv_auth prod_server) ''google'' ''good'') sample_world = (Inr i, sample_world)
     \<and> google_identity sample_oidc prod_cfg ''good'' sample_world i"
proof -
  have c: "google_claims (JObject [(''email'', JString ''ann@x.org''), (''email_verified'', JBool True)])
      = Inr \<lparr>cl_Email = ''ann@x.org'', cl_EmailVerified = True\<rparr>" by code_simp
  obtain i where i: "run (as_verifier (sv_auth prod_server) ''google'' ''good'') sample_world = (Inr i, sample_world)"
    by (simp add: prod_server_def assemble_services auth_svc_defs Verifier_Verify_def GoogleVerifier_Verify_def
        sample_oidc_def run_simps c)
  show ?thesis using identities_verified[OF prod_start i] i
    by (auto simp: prod_cfg_def IsDevelopment_def apple_identity_def microsoft_identity_def)
qed

section \<open>Limits\<close>

text \<open>
  C34: The configured limits. In any sequence of calls in the order of the clock in which no live
  counter has to be evicted, exactly the first \<open>RATE_LIMIT_EXCHANGE_PER_HOUR\<close> sign-ins of an address
  in an hour and the first \<open>RATE_LIMIT_EVENTS_PER_DAY\<close> creations of a user in a day are allowed.
\<close>

theorem configured_limits:
  assumes "start L E lib v = Inr (cfg, s)"
    and "bk_action b = ''auth.exchange'' \<and> m = GetInt v defaults ''rate_limit_exchange_per_hour''
      \<or> bk_action b = ''event.create'' \<and> m = GetInt v defaults ''rate_limit_events_per_day''"
    and "list_all (\<lambda>(ord, now, key, action). map_order ord) cs"
    and "sorted (map call_time cs)" "no_eviction (provideRateLimiter cfg) [] cs"
  shows "1 \<le> m \<and> allowed_calls (provideRateLimiter cfg) b [] cs = min (nat m) (calls_in (provideRateLimiter cfg) b cs)"
proof -
  have "Load v = Inr cfg" by (rule start_Inr[OF assms(1)])
  from Load_Inr[OF this] have cfg: "sound_config cfg"
    "cf_RateLimitEventsPerDay cfg = GetInt v defaults ''rate_limit_events_per_day''"
    "cf_RateLimitExchangePerHour cfg = GetInt v defaults ''rate_limit_exchange_per_hour''" by simp_all
  have day: "0 < 24 * Hour" "Second dvd 24 * Hour" using sample_unit by (simp_all add: dvd_mult)
  have m: "m = cf_RateLimitExchangePerHour cfg \<or> m = cf_RateLimitEventsPerDay cfg" using assms(2) cfg(2,3) by auto
  have "\<exists>d. provideRateLimiter cfg (bk_action b) = Some \<lparr>Max = m, Window = d\<rparr> \<and> d \<in> {Hour, 24 * Hour}"
    using assms(2)
    by (elim disjE) (simp_all add: cfg(2,3) provideRateLimiter_def ActionCreateEvent_def ActionAuthExchange_def)
  then obtain l where l: "provideRateLimiter cfg (bk_action b) = Some l" "Max l = m" "0 < Window l" "Second dvd Window l"
    using day sample_unit by fastforce
  have "count_of [] b = 0" by (simp add: count_of_def)
  then show ?thesis using allowed_calls_exact[OF l(1,3,4) assms(3-5)] l(2) m cfg(1)
    by (auto simp: sound_config_def)
qed

theorem configured_limits_witness:
  "allowed_calls (provideRateLimiter prod_cfg) (ip_bucket ''a'') [] sample_calls
     = min 30 (calls_in (provideRateLimiter prod_cfg) (ip_bucket ''a'') sample_calls)"
proof -
  have "bk_action (ip_bucket ''a'') = ''auth.exchange''" by (simp add: ip_bucket_def)
  moreover have "GetInt prod_viper defaults ''rate_limit_exchange_per_hour'' = 30"
    by (simp add: prod_viper_def defaults_def)
  moreover have "list_all (\<lambda>(ord, now, key, action). map_order ord) sample_calls" "sorted (map call_time sample_calls)"
    by (simp_all add: sample_calls_def at_second_def map_order_def call_time_def Second_def)
  moreover have "no_eviction (provideRateLimiter prod_cfg) [] sample_calls"
    by (rule no_eviction_short) (simp add: sample_calls_def maxTrackedBuckets_def)
  ultimately show ?thesis using configured_limits[OF prod_start, of "ip_bucket ''a''" 30 sample_calls] by simp
qed

section \<open>The cleanup job\<close>

lemma token_lookup_filter:
  assumes "distinct (map gt_TokenHash (user_tokens w))"
    and "\<And>r. r \<in> set (user_tokens w) \<Longrightarrow> keep r \<longleftrightarrow> P (userTokenFromRow r)"
  shows "token_lookup (w\<lparr>user_tokens := filter keep (user_tokens w)\<rparr>) h =
      (case token_lookup w h of None \<Rightarrow> None | Some t \<Rightarrow> if P t then Some t else None)"
proof (cases "find (\<lambda>r. gt_TokenHash r = h) (user_tokens w)")
  case None
  then have "find (\<lambda>r. gt_TokenHash r = h) (filter keep (user_tokens w)) = None" by (auto simp: find_None_set)
  then show ?thesis using None by (simp add: token_lookup_def)
next
  case (Some r)
  have "find (\<lambda>r. gt_TokenHash r = h) (filter keep (user_tokens w)) = (if keep r then Some r else None)"
  proof (cases "keep r")
    case True
    then show ?thesis
      using find_Some_iff_set[OF Some] find_key_iff[OF distinct_map_filter_key[OF assms(1), of keep], of h r] by simp
  next
    case False
    have "s = r" if "s \<in> set (user_tokens w)" "gt_TokenHash s = h" for s
      using find_key_iff[OF assms(1), of h s] Some that by simp
    then show ?thesis using False by (auto simp: find_None_set)
  qed
  then show ?thesis using Some assms(2)[of r] find_Some_iff_set[OF Some] by (simp add: token_lookup_def)
qed

text \<open>
  C35: The cleanup removes expired tokens and nothing else. A round whose deletion the database
  executes leaves exactly the tokens that do not expire before the stored time of its clock; every
  token it removes would have been rejected from then on. A round changes nothing else.
\<close>

theorem cleanup_exact:
  assumes "auth_inv E verifier w" "run (cleanup_round E) w = (u, w')"
  shows "users w' = users w \<and> agents w' = agents w \<and> events w' = events w \<and> buckets w' = buckets w
    \<and> token_lookup w' = (if fault_at E (Suc (ticks w)) \<noteq> None then token_lookup w
        else (\<lambda>h. case token_lookup w h of None \<Rightarrow> None
                  | Some t \<Rightarrow> if UserToken_ExpiresAt t < pg_time E (now_at E (ticks w)) then None else Some t))
    \<and> (\<forall>h t. token_lookup w h = Some t \<and> token_lookup w' h = None \<longrightarrow> Expired t (now_at E (ticks w)))"
proof -
  let ?now = "now_at E (ticks w)"
  have now: "1000 \<le> ?now" "pg_time E ?now \<le> ?now" using assms(1) by (simp_all add: auth_inv_def pg_inv_def env_ok_def)
  then have st: "stored E (timestamptz_of ?now) = Some (pg_time E ?now)"
    by (simp add: timestamptz_of_def IsZero_def zero_time_def stored_def)
  define keep where "keep r \<longleftrightarrow> \<not> ts_less (gt_ExpiresAt r) (Some (pg_time E ?now))" for r :: gen_UserToken
  have w': "w' = (if fault_at E (Suc (ticks w)) \<noteq> None then w\<lparr>ticks := Suc (Suc (ticks w))\<rparr>
      else w\<lparr>user_tokens := filter keep (user_tokens w), ticks := Suc (Suc (ticks w))\<rparr>)"
    using assms(2) st
    by (auto simp: cleanup_round_def NewUserTokenRepository_def UserTokenRepository_DeleteExpired_def run_simps
        q_DeleteExpiredUserTokens_def sql_def with_tick_def keep_def[abs_def] split: option.splits)
  have inv: "tokens_inv E w" using assms(1) by (simp add: auth_inv_def pg_inv_def db_inv_def)
  then have "keep r \<longleftrightarrow> \<not> UserToken_ExpiresAt (userTokenFromRow r) < pg_time E ?now" if "r \<in> set (user_tokens w)" for r
    using that by (auto simp: keep_def tokens_inv_def list_all_iff userTokenFromRow_def timeFromTimestamptz_def)
  then have look: "token_lookup (w\<lparr>user_tokens := filter keep (user_tokens w)\<rparr>) h =
      (case token_lookup w h of None \<Rightarrow> None
       | Some t \<Rightarrow> if \<not> UserToken_ExpiresAt t < pg_time E ?now then Some t else None)" for h
    using inv by (intro token_lookup_filter) (auto simp: tokens_inv_def)
  show ?thesis
    using now by (auto simp: w' look Expired_iff fun_eq_iff split: option.splits if_splits)
qed

theorem cleanup_exact_witness:
  "token_lookup sample_world ''h0'' \<noteq> None
     \<and> token_lookup (snd (run (cleanup_round sample_env) sample_world)) ''h0'' = None"
proof -
  obtain u w' where r: "run (cleanup_round sample_env) sample_world = (u, w')" by (rule prog_run_cases)
  have f: "fault_at sample_env (Suc (ticks sample_world)) = None" by (simp add: sample_env_def)
  obtain t where t: "token_lookup sample_world ''h0'' = Some t" "UserToken_ExpiresAt t = 63800003600 * Second"
    by (simp add: token_lookup_def sample_world_def userTokenFromRow_def timeFromTimestamptz_def)
  have "63800003600 * Second < pg_time sample_env (now_at sample_env (ticks sample_world))"
    by (simp add: sample_env_def sample_world_def Second_def)
  then show ?thesis using cleanup_exact[OF sample_auth_inv r] f t r by simp
qed

end
