(* ===== verification/AgentLimit.thy ===== *)
theory AgentLimit
  imports ServerLaws Sample
begin

text \<open>
  Inside the transaction of \<open>CreateIfUnderLimit\<close> (server/internal/adapters/postgres/
  agent\_repository.go): its statements as separate steps, any number of transactions under way, and
  the other statements of the server in between. What makes the count good until the commit is the
  lock on the row of the user (SELECT ... FOR UPDATE): the machine here lets a transaction past its
  first statement only when no other holds that row. Shown: every step is one of an atomic creation,
  so taking the transaction as one action, as everywhere else, loses nothing.
\<close>

section \<open>Transactions and the lock of a row\<close>

text \<open>What a transaction has done so far; \<open>Locked\<close> and \<open>Counted\<close> name the row of the user it holds.\<close>

datatype phase = Waiting | Begun | Locked string | Counted string | Finished "err + bool"

text \<open>
  The committed database, the holder of each locked row and the transactions under way, each with
  the agent it is to create. An agent that is inserted but not committed is seen by nobody, so the
  insertion and the commit are one step.
\<close>

record txs =
  db :: world
  row_locks :: "string \<Rightarrow> nat option"
  running :: "(Agent \<times> phase) list"

text \<open>The end of a transaction releases its lock.\<close>

definition finish :: "nat \<Rightarrow> err + bool \<Rightarrow> world \<Rightarrow> txs \<Rightarrow> txs" where
  "finish i r w s = s\<lparr>db := w,
     row_locks := (\<lambda>k. if row_locks s k = Some i then None else row_locks s k),
     running := (running s)[i := (fst (running s ! i), Finished r)]\<rparr>"

definition goes_to :: "nat \<Rightarrow> phase \<Rightarrow> world \<Rightarrow> txs \<Rightarrow> txs" where
  "goes_to i p w s = s\<lparr>db := w, running := (running s)[i := (fst (running s ! i), p)]\<rparr>"

text \<open>The other statements: an agent is revoked or its use noted, or no agent is changed.\<close>

inductive other_action :: "Env \<Rightarrow> world \<Rightarrow> world \<Rightarrow> bool" for E where
  revoke: "other_action E w (snd (q_RevokeAgent E i t w))"
| touch: "other_action E w (snd (q_TouchAgentLastUsed E i t w))"
| elsewhere: "agents w' = agents w \<Longrightarrow> other_action E w w'"

inductive tx_step :: "Env \<Rightarrow> int \<Rightarrow> txs \<Rightarrow> txs \<Rightarrow> bool" for E maxAgents where
  arrives: "tx_step E maxAgents s (s\<lparr>running := running s @ [(a, Waiting)]\<rparr>)"
| begins: "i < length (running s) \<Longrightarrow> running s ! i = (a, Waiting) \<Longrightarrow> tx_Begin E (db s) = (Inr u, w) \<Longrightarrow>
    tx_step E maxAgents s (goes_to i Begun w s)"
| begin_fails: "i < length (running s) \<Longrightarrow> running s ! i = (a, Waiting) \<Longrightarrow> tx_Begin E (db s) = (Inl e, w) \<Longrightarrow>
    tx_step E maxAgents s (finish i (Inl e) w s)"
| locks: "i < length (running s) \<Longrightarrow> running s ! i = (a, Begun) \<Longrightarrow>
    q_LockUserForUpdate E (Agent_UserID a) (db s) = (Inr k, w) \<Longrightarrow> row_locks s k = None \<Longrightarrow>
    tx_step E maxAgents s ((goes_to i (Locked k) w s)\<lparr>row_locks := (row_locks s)(k \<mapsto> i)\<rparr>)"
| lock_fails: "i < length (running s) \<Longrightarrow> running s ! i = (a, Begun) \<Longrightarrow>
    q_LockUserForUpdate E (Agent_UserID a) (db s) = (Inl e, w) \<Longrightarrow>
    tx_step E maxAgents s (finish i (Inl (asNotFound e ErrUserNotFound)) (rollback (db s) w) s)"
| counts: "i < length (running s) \<Longrightarrow> running s ! i = (a, Locked k) \<Longrightarrow>
    q_CountActiveAgentsByUser E (Agent_UserID a) (db s) = (Inr active, w) \<Longrightarrow> active < maxAgents \<Longrightarrow>
    tx_step E maxAgents s (goes_to i (Counted k) w s)"
| refuses: "i < length (running s) \<Longrightarrow> running s ! i = (a, Locked k) \<Longrightarrow>
    q_CountActiveAgentsByUser E (Agent_UserID a) (db s) = (Inr active, w) \<Longrightarrow> maxAgents \<le> active \<Longrightarrow>
    tx_step E maxAgents s (finish i (Inr False) (rollback (db s) w) s)"
| count_fails: "i < length (running s) \<Longrightarrow> running s ! i = (a, Locked k) \<Longrightarrow>
    q_CountActiveAgentsByUser E (Agent_UserID a) (db s) = (Inl e, w) \<Longrightarrow>
    tx_step E maxAgents s (finish i (Inl e) (rollback (db s) w) s)"
| insert_fails: "i < length (running s) \<Longrightarrow> running s ! i = (a, Counted k) \<Longrightarrow>
    q_InsertAgent E (insertAgentParams a) (db s) = (Inl e, w) \<Longrightarrow>
    tx_step E maxAgents s (finish i (Inl e) (rollback (db s) w) s)"
| commit_fails: "i < length (running s) \<Longrightarrow> running s ! i = (a, Counted k) \<Longrightarrow>
    q_InsertAgent E (insertAgentParams a) (db s) = (Inr u, w1) \<Longrightarrow> tx_Commit E w1 = (Inl e, w) \<Longrightarrow>
    tx_step E maxAgents s (finish i (Inl e) (rollback (db s) w) s)"
| commits: "i < length (running s) \<Longrightarrow> running s ! i = (a, Counted k) \<Longrightarrow>
    q_InsertAgent E (insertAgentParams a) (db s) = (Inr u, w1) \<Longrightarrow> tx_Commit E w1 = (Inr v, w) \<Longrightarrow>
    tx_step E maxAgents s (finish i (Inr True) w s)"
| other: "other_action E (db s) w \<Longrightarrow> tx_step E maxAgents s (s\<lparr>db := w\<rparr>)"

inductive tx_reach :: "Env \<Rightarrow> int \<Rightarrow> txs \<Rightarrow> txs \<Rightarrow> bool" for E maxAgents where
  tx_here: "tx_reach E maxAgents s s"
| tx_later: "tx_reach E maxAgents s t \<Longrightarrow> tx_step E maxAgents t u \<Longrightarrow> tx_reach E maxAgents s u"

definition no_transactions :: "world \<Rightarrow> txs" where
  "no_transactions w = \<lparr>db = w, row_locks = Map.empty, running = []\<rparr>"

section \<open>The abstract creation\<close>

text \<open>
  What the repository promises of a creation: a failure changes nothing; it is refused only if the
  user has as many active agents as allowed; otherwise the user has fewer, and one row is added.
\<close>

definition agree :: "world \<Rightarrow> world \<Rightarrow> bool" where
  "agree w w' \<longleftrightarrow> (\<exists>n. w' = w\<lparr>ticks := n\<rparr>)"

definition create_spec :: "Env \<Rightarrow> int \<Rightarrow> Agent \<Rightarrow> world \<Rightarrow> err + bool \<Rightarrow> world \<Rightarrow> bool" where
  "create_spec E maxAgents a w r w' \<longleftrightarrow>
     (case r of
        Inl e \<Rightarrow> agree w w'
      | Inr created \<Rightarrow>
          if created
          then (\<exists>k u. pg_uuid E (Agent_ID a) = Some k \<and> pg_uuid E (Agent_UserID a) = Some u
            \<and> user_exists w u \<and> active_count w u < maxAgents
            \<and> \<not> list_ex (\<lambda>r. ga_ID r = k \<or> ga_KeyHash r = Agent_KeyHash a) (agents w)
            \<and> agree (w\<lparr>agents := agents w @ [new_agent_row E a k u]\<rparr>) w')
          else agree w w' \<and> (\<exists>u. pg_uuid E (Agent_UserID a) = Some u \<and> maxAgents \<le> active_count w u))"

text \<open>The results of the transactions that have ended.\<close>

definition results :: "txs \<Rightarrow> (err + bool) option list" where
  "results s = map (\<lambda>(a, p). case p of Finished r \<Rightarrow> Some r | _ \<Rightarrow> None) (running s)"

section \<open>The statements\<close>

lemma agree_rules [simp]: "agree w w" "agree w (w\<lparr>ticks := n\<rparr>)" "agree w (rollback w v)"
proof -
  have "w = w\<lparr>ticks := ticks w\<rparr>" by simp
  then show "agree w w" unfolding agree_def by metis
qed (auto simp: agree_def rollback_def)

lemma agree_agents: "agree w w' \<Longrightarrow> agents w' = agents w"
  by (auto simp: agree_def)

lemma agree_count: "agree w w' \<Longrightarrow> active_count w' u = active_count w u"
  by (simp add: active_count_def agree_agents)

lemma rollback_count [simp]: "active_count (rollback w v) u = active_count w u"
  by (simp add: active_count_def rollback_def)

lemma statements:
  "tx_Begin E w = (rb, w') \<Longrightarrow> agree w w'"
  "q_LockUserForUpdate E i w = (rl, w') \<Longrightarrow> agree w w' \<and> (case rl of Inr k \<Rightarrow> pg_uuid E i = Some k | _ \<Rightarrow> True)"
  "q_CountActiveAgentsByUser E i w = (rc, w') \<Longrightarrow> agree w w' \<and>
     (case rc of Inr n \<Rightarrow> \<exists>u. pg_uuid E i = Some u \<and> n = active_count w u | _ \<Rightarrow> True)"
  by (auto simp: tx_Begin_def q_LockUserForUpdate_def q_CountActiveAgentsByUser_def sql_def with_tick_def select_def
      active_count_def split: option.splits if_splits)

lemma insert_commit:
  assumes "q_InsertAgent E (insertAgentParams a) w = (Inr u, w1)" "tx_Commit E w1 = (Inr v, w2)"
  shows "\<exists>k u. pg_uuid E (Agent_ID a) = Some k \<and> pg_uuid E (Agent_UserID a) = Some u \<and> user_exists w u
    \<and> \<not> list_ex (\<lambda>r. ga_ID r = k \<or> ga_KeyHash r = Agent_KeyHash a) (agents w)
    \<and> agree (w\<lparr>agents := agents w @ [new_agent_row E a k u]\<rparr>) w2"
  using assms
  by (auto simp: q_InsertAgent_def tx_Commit_def sql_def with_tick_def select_def new_agent_row_def insertAgentParams_def
      agree_def user_exists_def split: option.splits if_splits)

text \<open>Taken as one action, the transaction is an abstract creation.\<close>

lemma transaction_creates: "create_spec E maxAgents a w (fst (CreateIfUnderLimit_tx E a maxAgents w)) (snd (CreateIfUnderLimit_tx E a maxAgents w))"
proof -
  obtain r w' where r: "run (AgentRepository_CreateIfUnderLimit E a maxAgents) w = (r, w')" by (rule prog_run_cases)
  then have e: "CreateIfUnderLimit_tx E a maxAgents w = (r, w')" by (simp add: AgentRepository_CreateIfUnderLimit_def)
  have refused: "\<exists>u. pg_uuid E (Agent_UserID a) = Some u \<and> maxAgents \<le> active_count w u" if "r = Inr False"
    using e that unfolding CreateIfUnderLimit_tx_def tx_Begin_def tx_Commit_def q_LockUserForUpdate_def
      q_CountActiveAgentsByUser_def q_InsertAgent_def sql_def with_tick_def select_def
    by (auto simp: active_count_def split: option.splits if_splits)
  have "create_spec E maxAgents a w r w'"
    using r
  proof (cases rule: create_agent_cases)
    case refused2: (refused m)
    then show ?thesis using refused by (cases r) (auto simp: create_spec_def)
  next
    case (created k u m)
    then show ?thesis by (auto simp: create_spec_def active_count_def agree_def)
  qed
  then show ?thesis by (simp add: e)
qed

lemma other_shrinks: "other_action E w w' \<Longrightarrow> active_count w' u \<le> active_count w u"
proof (induction rule: other_action.induct)
  case (revoke w i t)
  have "cap_law (active_count w u) w (snd (q_RevokeAgent E i t w))"
    using cap_agent_updates(1)[of "active_count w u" E i t] by (simp add: atomic_def prog_ok_Atomic)
  then show ?case by (auto simp: cap_law_def dest: spec[of _ u])
next
  case (touch w i t)
  have "cap_law (active_count w u) w (snd (q_TouchAgentLastUsed E i t w))"
    using cap_agent_updates(2)[of "active_count w u" E i t] by (simp add: atomic_def prog_ok_Atomic)
  then show ?case by (auto simp: cap_law_def dest: spec[of _ u])
qed (simp add: active_count_def)

section \<open>The lock\<close>
section \<open>The lock\<close>

text \<open>
  A transaction past its first statement holds the row of its user, and once it has counted, that
  user still has fewer agents than allowed: nobody else can add one.
\<close>

definition lock_inv :: "Env \<Rightarrow> int \<Rightarrow> txs \<Rightarrow> bool" where
  "lock_inv E maxAgents s \<longleftrightarrow> (\<forall>i a k. i < length (running s) \<longrightarrow>
     (running s ! i = (a, Locked k) \<longrightarrow> row_locks s k = Some i \<and> pg_uuid E (Agent_UserID a) = Some k)
   \<and> (running s ! i = (a, Counted k) \<longrightarrow> row_locks s k = Some i \<and> pg_uuid E (Agent_UserID a) = Some k
        \<and> active_count (db s) k < maxAgents))"

lemma lock_invD:
  "lock_inv E m s \<Longrightarrow> i < length (running s) \<Longrightarrow> running s ! i = (a, Locked k) \<Longrightarrow>
     row_locks s k = Some i \<and> pg_uuid E (Agent_UserID a) = Some k"
  "lock_inv E m s \<Longrightarrow> i < length (running s) \<Longrightarrow> running s ! i = (a, Counted k) \<Longrightarrow>
     row_locks s k = Some i \<and> pg_uuid E (Agent_UserID a) = Some k \<and> active_count (db s) k < m"
  by (auto simp: lock_inv_def)

lemma nth_update: "xs[i := x] ! j = (if i = j \<and> j < length xs then x else xs ! j)"
  by (cases "i < length xs") (auto simp: nth_list_update list_update_beyond)

lemma lock_invI:
  assumes "\<And>i a k. i < length (running s) \<Longrightarrow> running s ! i = (a, Locked k) \<or> running s ! i = (a, Counted k) \<Longrightarrow>
      row_locks s k = Some i \<and> pg_uuid E (Agent_UserID a) = Some k"
    and "\<And>i a k. i < length (running s) \<Longrightarrow> running s ! i = (a, Counted k) \<Longrightarrow> active_count (db s) k < m"
  shows "lock_inv E m s"
  using assms by (auto simp: lock_inv_def)

lemma lock_inv_finish:
  assumes "lock_inv E m s" "\<And>k. active_count w k \<le> active_count (db s) k \<or> row_locks s k = Some i"
  shows "lock_inv E m (finish i r w s)"
proof (rule lock_invI)
  fix j a k assume j: "j < length (running (finish i r w s))"
    and p: "running (finish i r w s) ! j = (a, Locked k) \<or> running (finish i r w s) ! j = (a, Counted k)"
  then have "j \<noteq> i" "running s ! j = (a, Locked k) \<or> running s ! j = (a, Counted k)" "j < length (running s)"
    by (auto simp: finish_def nth_update split: if_splits)
  then show "row_locks (finish i r w s) k = Some j \<and> pg_uuid E (Agent_UserID a) = Some k"
    using lock_invD[OF assms(1)] by (auto simp: finish_def)
next
  fix j a k assume j: "j < length (running (finish i r w s))" and p: "running (finish i r w s) ! j = (a, Counted k)"
  then have c: "j \<noteq> i" "running s ! j = (a, Counted k)" "j < length (running s)"
    by (auto simp: finish_def nth_update split: if_splits)
  then have "row_locks s k = Some j \<and> active_count (db s) k < m" using lock_invD(2)[OF assms(1)] by blast
  then show "active_count (db (finish i r w s)) k < m" using assms(2)[of k] c(1) by (auto simp: finish_def)
qed

lemma lock_inv_goes:
  assumes "lock_inv E m s" "agree (db s) w"
    "p = Begun \<or> (p = Counted k \<and> running s ! i = (a, Locked k) \<and> active_count (db s) k < m)"
  shows "lock_inv E m (goes_to i p w s)"
proof (rule lock_invI)
  fix j b l assume "j < length (running (goes_to i p w s))"
    "running (goes_to i p w s) ! j = (b, Locked l) \<or> running (goes_to i p w s) ! j = (b, Counted l)"
  then show "row_locks (goes_to i p w s) l = Some j \<and> pg_uuid E (Agent_UserID b) = Some l"
    using assms lock_invD[OF assms(1), of j b l] by (auto simp: goes_to_def nth_update split: if_splits)
next
  fix j b l assume "j < length (running (goes_to i p w s))" "running (goes_to i p w s) ! j = (b, Counted l)"
  then show "active_count (db (goes_to i p w s)) l < m"
    using assms lock_invD[OF assms(1), of j b l] by (auto simp: goes_to_def nth_update agree_count split: if_splits)
qed

text \<open>The step of an inserted row: only the owner's count grows, and the inserter holds that row.\<close>

lemma created_count:
  assumes "agree (w\<lparr>agents := agents w @ [new_agent_row E a k u]\<rparr>) w'" "l \<noteq> u"
  shows "active_count w' l \<le> active_count w l"
  using assms by (simp add: agree_count[OF assms(1)]) (simp add: active_count_def active_of_def new_agent_row_def)

lemma lock_inv_step:
  assumes "tx_step E m s t" "lock_inv E m s"
  shows "lock_inv E m t"
  using assms
proof (induction rule: tx_step.induct)
  case (arrives s a)
  then show ?case by (auto simp: lock_inv_def nth_append split: if_splits)
next
  case (begins i s a u w)
  then show ?case using statements(1) by (intro lock_inv_goes) auto
next
  case (begin_fails i s a e w)
  then show ?case using agree_count[OF statements(1)] by (intro lock_inv_finish) auto
next
  case (locks i s a k w)
  note Q = statements(2)[OF locks(3)]
  have other: "row_locks s l = Some j \<Longrightarrow> j \<noteq> i \<or> l \<noteq> k" for l j using locks(4) by auto
  show ?case
  proof (rule lock_invI)
    fix j b l assume "j < length (running ((goes_to i (Locked k) w s)\<lparr>row_locks := (row_locks s)(k \<mapsto> i)\<rparr>))"
      "running ((goes_to i (Locked k) w s)\<lparr>row_locks := (row_locks s)(k \<mapsto> i)\<rparr>) ! j = (b, Locked l)
       \<or> running ((goes_to i (Locked k) w s)\<lparr>row_locks := (row_locks s)(k \<mapsto> i)\<rparr>) ! j = (b, Counted l)"
    then show "row_locks ((goes_to i (Locked k) w s)\<lparr>row_locks := (row_locks s)(k \<mapsto> i)\<rparr>) l = Some j
        \<and> pg_uuid E (Agent_UserID b) = Some l"
      using Q locks(2,4) lock_invD[OF locks(5), of j b l] by (auto simp: goes_to_def nth_update split: if_splits)
  next
    fix j b l assume "j < length (running ((goes_to i (Locked k) w s)\<lparr>row_locks := (row_locks s)(k \<mapsto> i)\<rparr>))"
      "running ((goes_to i (Locked k) w s)\<lparr>row_locks := (row_locks s)(k \<mapsto> i)\<rparr>) ! j = (b, Counted l)"
    then show "active_count (db ((goes_to i (Locked k) w s)\<lparr>row_locks := (row_locks s)(k \<mapsto> i)\<rparr>)) l < m"
      using Q lock_invD(2)[OF locks(5), of j b l] by (auto simp: goes_to_def nth_update agree_count split: if_splits)
  qed
next
  case (counts i s a k active w)
  have "active = active_count (db s) k"
    using statements(3)[OF counts(3)] lock_invD(1)[OF counts(5,1,2)] by auto
  then show ?case using counts statements(3)[OF counts(3)] by (intro lock_inv_goes) auto
next
  case (commits i s a k u w1 v w)
  obtain k' u' where c: "pg_uuid E (Agent_UserID a) = Some u'"
    "agree ((db s)\<lparr>agents := agents (db s) @ [new_agent_row E a k' u']\<rparr>) w"
    using insert_commit[OF commits(3,4)] by blast
  have "row_locks s k = Some i" "u' = k" using lock_invD(2)[OF commits(5,1,2)] c(1) by auto
  then have "active_count w l \<le> active_count (db s) l \<or> row_locks s l = Some i" for l
    using created_count[OF c(2)] by (cases "l = k") auto
  then show ?case by (rule lock_inv_finish[OF commits(5)])
next
  case (other s w)
  then show ?case using other_shrinks by (fastforce simp: lock_inv_def intro: le_less_trans)
qed (auto intro!: lock_inv_finish simp: rollback_count)

lemma lock_inv_reach:
  assumes "tx_reach E m (no_transactions w) s" shows "lock_inv E m s"
  using assms
proof (induction "no_transactions w" s rule: tx_reach.induct)
  case tx_here
  then show ?case by (simp add: lock_inv_def no_transactions_def)
qed (rule lock_inv_step)

section \<open>The refinement\<close>

text \<open>
  What one step of the machine is to somebody who sees only the committed tables and the results:
  nothing, another statement of the server, or the creation of one agent with its result.
\<close>

definition atomic_step :: "Env \<Rightarrow> int \<Rightarrow> txs \<Rightarrow> txs \<Rightarrow> bool" where
  "atomic_step E m s t \<longleftrightarrow>
     (agree (db s) (db t) \<and> (results t = results s \<or> results t = results s @ [None]))
   \<or> (other_action E (db s) (db t) \<and> results t = results s)
   \<or> (\<exists>i a r. i < length (running s) \<and> fst (running s ! i) = a \<and> results s ! i = None
        \<and> results t = (results s)[i := Some r] \<and> create_spec E m a (db s) r (db t))"

lemma results_finish: "results (finish i r w s) = (results s)[i := Some r]"
  by (simp add: results_def finish_def map_update)

lemma atomic_finish:
  assumes "i < length (running s)" "running s ! i = (a, p)" "\<forall>q. p \<noteq> Finished q" "create_spec E m a (db s) r w"
  shows "atomic_step E m s (finish i r w s)"
proof -
  have "results s ! i = None" using assms by (cases p) (auto simp: results_def)
  moreover have "db (finish i r w s) = w" by (simp add: finish_def)
  ultimately show ?thesis unfolding atomic_step_def results_finish
    using assms by (intro disjI2 exI[of _ i] exI[of _ a] exI[of _ r]) simp
qed

lemma atomic_goes:
  assumes "i < length (running s)" "\<forall>q. snd (running s ! i) \<noteq> Finished q" "\<forall>q. p \<noteq> Finished q" "agree (db s) w"
  shows "atomic_step E m s (goes_to i p w s)" "atomic_step E m s ((goes_to i p w s)\<lparr>row_locks := l\<rparr>)"
proof -
  have "(case p of Finished r \<Rightarrow> Some r | _ \<Rightarrow> None) = None" using assms(3) by (cases p) auto
  moreover have "results s ! i = None" using assms(1,2) by (cases "snd (running s ! i)") (auto simp: results_def case_prod_unfold)
  moreover have "results (goes_to i p w s) = (results s)[i := case p of Finished r \<Rightarrow> Some r | _ \<Rightarrow> None]"
    by (simp add: results_def goes_to_def map_update)
  ultimately have "results (goes_to i p w s) = results s" by (metis list_update_id)
  then show "atomic_step E m s (goes_to i p w s)" "atomic_step E m s ((goes_to i p w s)\<lparr>row_locks := l\<rparr>)"
    using assms(4) by (simp_all add: atomic_step_def) (simp_all add: goes_to_def results_def)
qed

lemma create_fails: "create_spec E m a w (Inl e) (rollback w v)" "agree w v \<Longrightarrow> create_spec E m a w (Inl e) v"
  by (simp_all add: create_spec_def)

text \<open>
  C5: The transaction is atomic. With any number of creations under way and the other statements of
  the server in between, every step is, for whoever sees the committed tables and the results, no
  step, another statement, or one complete creation as the repository promises it. The transaction
  taken as one action keeps the same promise.
\<close>

theorem locked_transaction_refines:
  assumes "tx_reach E maxAgents (no_transactions w0) s" "tx_step E maxAgents s t"
  shows "atomic_step E maxAgents s t
    \<and> create_spec E maxAgents a w (fst (CreateIfUnderLimit_tx E a maxAgents w)) (snd (CreateIfUnderLimit_tx E a maxAgents w))"
proof
  show "create_spec E maxAgents a w (fst (CreateIfUnderLimit_tx E a maxAgents w)) (snd (CreateIfUnderLimit_tx E a maxAgents w))"
    by (rule transaction_creates)
  have inv: "lock_inv E maxAgents s" using lock_inv_reach assms(1) .
  show "atomic_step E maxAgents s t"
    using assms(2) inv
  proof (induction rule: tx_step.induct)
    case (arrives s a)
    then show ?case by (simp add: atomic_step_def results_def)
  next
    case (refuses i s a k active w)
    have "active = active_count (db s) k" "pg_uuid E (Agent_UserID a) = Some k"
      using statements(3)[OF refuses(3)] lock_invD(1)[OF refuses(5,1,2)] by auto
    then have "create_spec E maxAgents a (db s) (Inr False) (rollback (db s) w)"
      using refuses(4) by (simp add: create_spec_def)
    then show ?case using refuses by (intro atomic_finish) auto
  next
    case (commits i s a k u w1 v w)
    have "create_spec E maxAgents a (db s) (Inr True) w"
      using insert_commit[OF commits(3,4)] lock_invD(2)[OF commits(5,1,2)] by (auto simp: create_spec_def)
    then show ?case using commits by (intro atomic_finish) auto
  next
    case (other s w)
    then show ?case by (simp add: atomic_step_def results_def)
  qed (auto intro!: atomic_finish atomic_goes create_fails dest: statements)
qed

definition helper :: Agent where
  "helper = \<lparr>Agent_ID = ''h1'', Agent_UserID = ''bob'', Agent_Name = ''helper'', Agent_KeyHash = ''hash'',
     Agent_CreatedAt = 2000, Agent_RevokedAt = 0, Agent_LastUsedAt = 0\<rparr>"

theorem locked_transaction_refines_witness:
  "\<exists>s t. running s = [(helper, Locked ''bob'')] \<and> row_locks s ''bob'' = Some 0
     \<and> tx_step sample_env 10 s t \<and> atomic_step sample_env 10 s t"
proof -
  define w1 where "w1 = sample_world\<lparr>ticks := Suc (ticks sample_world)\<rparr>"
  define w2 where "w2 = sample_world\<lparr>ticks := Suc (Suc (ticks sample_world))\<rparr>"
  define w3 where "w3 = sample_world\<lparr>ticks := Suc (Suc (Suc (ticks sample_world)))\<rparr>"
  define s0 where "s0 = (no_transactions sample_world)\<lparr>running := [(helper, Waiting)]\<rparr>"
  define s1 where "s1 = goes_to 0 Begun w1 s0"
  define s2 where "s2 = (goes_to 0 (Locked ''bob'') w2 s1)\<lparr>row_locks := [''bob'' \<mapsto> 0]\<rparr>"
  have "tx_step sample_env 10 (no_transactions sample_world) s0"
    using tx_step.arrives[of sample_env 10 "no_transactions sample_world" helper] by (simp add: s0_def no_transactions_def)
  moreover have "tx_step sample_env 10 s0 s1" unfolding s1_def
    by (rule tx_step.begins[where a = helper and u = "()"])
      (simp_all add: s0_def no_transactions_def w1_def tx_Begin_def sql_def with_tick_def select_def sample_defs)
  moreover have "tx_step sample_env 10 s1 s2"
    using tx_step.locks[of 0 s1 helper sample_env "''bob''" w2 10]
    by (simp add: s2_def s1_def s0_def goes_to_def no_transactions_def w1_def w2_def q_LockUserForUpdate_def sql_def
        with_tick_def select_def user_exists_def helper_def sample_defs)
  ultimately have reach: "tx_reach sample_env 10 (no_transactions sample_world) s2"
    by (meson tx_reach.intros)
  have "tx_step sample_env 10 s2 (goes_to 0 (Counted ''bob'') w3 s2)"
    by (rule tx_step.counts[where a = helper and active = 0])
      (simp_all add: s2_def s1_def s0_def goes_to_def no_transactions_def w1_def w2_def w3_def q_CountActiveAgentsByUser_def
        sql_def with_tick_def select_def active_of_def helper_def sample_defs)
  moreover from locked_transaction_refines[OF reach this] have "atomic_step sample_env 10 s2 (goes_to 0 (Counted ''bob'') w3 s2)" ..
  moreover have "running s2 = [(helper, Locked ''bob'')]" "row_locks s2 ''bob'' = Some 0"
    by (simp_all add: s2_def s1_def s0_def goes_to_def no_transactions_def)
  ultimately show ?thesis by blast
qed

end
