(* ===== verification/Ownership.thy ===== *)
theory Ownership
  imports SampleServer
begin

text \<open>
  Who can change events, seen from the outside: the effect of one request on the events, from the
  bearer text of its Authorization header to the rows. The authentication use cases leave events
  alone (the interpretation \<open>events_kept\<close>); what the event use cases do follows from \<open>pg_events\<close>,
  and the identity of the actor from \<open>pg_auth\<close>.
\<close>

section \<open>Signing in and managing agents leave events alone\<close>

definition events_same :: "world \<Rightarrow> world \<Rightarrow> bool" where
  "events_same w w' \<longleftrightarrow> events w' = events w"

lemma events_same_pre: "reflp events_same" "transp events_same"
  by (auto simp: events_same_def intro: reflpI transpI)

lemma same_atomic: "(\<And>w. events (snd (f w)) = events w) \<Longrightarrow> prog_ok events_same (\<lambda>_. True) (atomic f)"
  by (rule prog_ok_atomic) (simp add: events_same_def)

lemma events_frame [simp]:
  "events (snd (q_GetUserByID E i w)) = events w" "events (snd (q_UpsertUserIdentity E ua w)) = events w"
  "events (snd (q_InsertUserToken E ta w)) = events w" "events (snd (q_GetUserTokenByHash E h w)) = events w"
  "events (snd (q_DeleteUserTokenByHash E h w)) = events w" "events (snd (q_GetAgentByID E i w)) = events w"
  "events (snd (q_GetAgentByKeyHash E h w)) = events w" "events (snd (q_ListAgentsByUser E i w)) = events w"
  "events (snd (q_RevokeAgent E i t w)) = events w" "events (snd (q_TouchAgentLastUsed E i t w)) = events w"
  by (simp_all add: q_defs sql_def with_tick_def select_def Let_def split: option.splits)

lemma events_create: "prog_ok events_same (\<lambda>_. True) (AgentRepository_CreateIfUnderLimit E a n)"
proof -
  have "events (snd (CreateIfUnderLimit_tx E a n w)) = events w" for w
  proof -
    obtain r w' where r: "run (AgentRepository_CreateIfUnderLimit E a n) w = (r, w')" by (rule prog_run_cases)
    then have "events w' = events w" by (cases rule: create_agent_cases) simp_all
    then show ?thesis using r by (simp add: AgentRepository_CreateIfUnderLimit_def)
  qed
  then show ?thesis unfolding AgentRepository_CreateIfUnderLimit_def by (intro same_atomic)
qed

lemma events_effects:
  "prog_ok events_same (\<lambda>_. True) (time_Now E)" "prog_ok events_same (\<lambda>_. True) (uuid_NewString E)"
  "prog_ok events_same (\<lambda>_. True) (rand_Read E)" "prog_ok events_same (\<lambda>_. True) (RateLimiter_Allow E limits k a)"
  unfolding time_Now_def uuid_NewString_def rand_Read_def RateLimiter_Allow_def
  by (rule same_atomic, simp add: with_tick_def split: prod.splits)+

lemma events_users_tokens:
  "prog_ok events_same (\<lambda>_. True) (UserRepository_UpsertByIdentity E p s m)"
  "prog_ok events_same (\<lambda>_. True) (UserRepository_Get E i)"
  "prog_ok events_same (\<lambda>_. True) (UserTokenRepository_Create E t)"
  "prog_ok events_same (\<lambda>_. True) (UserTokenRepository_GetByHash E h)"
  "prog_ok events_same (\<lambda>_. True) (UserTokenRepository_DeleteByHash E h)"
  unfolding UserRepository_UpsertByIdentity_def UserRepository_Get_def UserTokenRepository_Create_def
    UserTokenRepository_GetByHash_def UserTokenRepository_DeleteByHash_def
  by (intro prog_ok_pbind[OF events_effects(1)] prog_ok_pbind[OF events_effects(2)] prog_ok_pbind[OF same_atomic]
      same_atomic ok_intros TrueI; simp)+

lemma events_agent_Get: "prog_ok events_same (\<lambda>_. True) (AgentRepository_Get E i)"
  unfolding AgentRepository_Get_def by (intro prog_ok_pbind[OF same_atomic] ok_intros TrueI; simp)

lemma events_agents:
  "prog_ok events_same (\<lambda>_. True) (AgentRepository_GetByKeyHash E h)"
  "prog_ok events_same (\<lambda>_. True) (AgentRepository_ListByUser E i)"
  "prog_ok events_same (\<lambda>_. True) (AgentRepository_TouchLastUsed E i t)"
  "prog_ok events_same (\<lambda>_. True) (AgentRepository_Revoke E i t)"
  unfolding AgentRepository_GetByKeyHash_def AgentRepository_ListByUser_def AgentRepository_TouchLastUsed_def
    AgentRepository_Revoke_def
  by (intro prog_ok_pbind[OF same_atomic] prog_ok_pbind[OF events_agent_Get] same_atomic ok_intros TrueI; simp)+

interpretation events_kept: respected_auth "when_quiet verifier events_same" E "auth_svc E limits verifier c"
  "\<lambda>_. True" for E verifier limits c
proof (unfold_locales, goal_cases)
  case (5 p t)
  then show ?case
    by (simp add: svc_defs) (rule verifier_when, simp add: events_same_def untouched_frame)
qed (simp_all add: svc_defs events_effects events_create events_users_tokens events_agent_Get events_agents quiet_when)

section \<open>What one handler does to the events\<close>

text \<open>Every event that existed is still there unchanged, or belonged to \<open>u\<close>.\<close>

definition only_of :: "Env \<Rightarrow> string \<Rightarrow> world \<Rightarrow> world \<Rightarrow> bool" where
  "only_of E u w w' \<longleftrightarrow> (\<forall>j e. event_lookup E w j = Some e \<longrightarrow> event_lookup E w' j = Some e \<or> Event_UserID e = u)"

lemma event_lookup_frame: "events w' = events w \<Longrightarrow> event_lookup E w' = event_lookup E w"
  by (rule ext) (simp add: event_lookup_def split: option.splits)

lemma only_of_frame: "events w' = events w \<Longrightarrow> only_of E u w w'"
  using event_lookup_frame[of w' w E] by (simp add: only_of_def)

lemma only_of_lookup: "event_lookup E w' = event_lookup E w \<Longrightarrow> only_of E u w w'"
  by (simp add: only_of_def)

lemma run_reply [simp]: "run (reply r ok) w = ((case r of Inl e \<Rightarrow> WriteError e | Inr a \<Rightarrow> ok a), w)"
  by (simp add: reply_def)

lemma update_only_of:
  assumes "pg_inv E w" "run (EventService_Update E (event_svc E limits) actor i inp) w = (r, w')"
  shows "only_of E (Actor_UserID actor) w w'"
proof -
  note O = pg_events.update_outcome[OF assms(1) assms(2)[unfolded event_svc_defs]]
  show ?thesis
  proof (cases r)
    case (Inr e)
    then obtain old where old: "event_lookup E w i = Some old" "Event_UserID old = Actor_UserID actor"
      and look: "\<And>j. event_lookup E w' j = (if same_id E j (Event_ID old) then Some (store_event E e) else event_lookup E w j)"
      using O by (auto simp: fun_eq_iff)
    have "event_lookup E w (Event_ID old) = Some old"
      using lookup_same[OF lookup_id[OF assms(1) old(1)]] old(1) by simp
    then show ?thesis using look old(2) lookup_same[of E _ "Event_ID old" w] by (auto simp: only_of_def)
  qed (use O in \<open>auto intro: only_of_lookup\<close>)
qed

lemma delete_only_of:
  assumes "pg_inv E w" "run (EventService_Delete (event_svc E limits) actor i) w = (r, w')"
  shows "only_of E (Actor_UserID actor) w w'"
proof -
  note O = pg_events.delete_outcome[OF assms(1) assms(2)[unfolded event_svc_defs]]
  show ?thesis
  proof (cases r)
    case (Inr _)
    then obtain old where old: "event_lookup E w i = Some old" "Event_UserID old = Actor_UserID actor"
      and look: "\<And>j. event_lookup E w' j = (if same_id E j i then None else event_lookup E w j)"
      using O by (auto simp: fun_eq_iff)
    then show ?thesis using lookup_same[of E _ i w] by (auto simp: only_of_def)
  qed (use O in \<open>auto intro: only_of_lookup\<close>)
qed

lemma create_only_of:
  assumes "pg_inv E w" "run (EventService_Create E (event_svc E limits) actor inp) w = (r, w')"
  shows "only_of E u w w'"
proof -
  note O = pg_events.create_outcome[OF assms(1) assms(2)[unfolded event_svc_defs] prod.collapse[symmetric]]
  show ?thesis
  proof (cases r)
    case (Inr e)
    then show ?thesis using O lookup_same[of E _ "Event_ID e" w] by (auto simp: only_of_def fun_eq_iff)
  qed (use O in \<open>auto intro: only_of_lookup\<close>)
qed

lemma read_only_of:
  "run (EventService_Get (event_svc E limits) i) w = (r, w') \<Longrightarrow> events w' = events w"
  "run (EventService_List (event_svc E limits)) w = (r', w') \<Longrightarrow> events w' = events w"
  by (auto simp: EventService_Get_def EventService_List_def event_svc_defs NewEventRepository_def EventRepository_Get_def
      EventRepository_List_def q_GetEventByID_def q_ListEvents_def sql_def with_tick_def select_def run_simps
      split: option.splits if_splits sum.splits)

lemma event_handlers_only_of:
  assumes "pg_inv E w" "run (h rq) w = (rs, w')" "rq_agent rq = Some actor"
    and "h \<in> {AuthHandler_Whoami, EventHandler_create L E (event_svc E limits), EventHandler_list (event_svc E limits),
           EventHandler_get L (event_svc E limits), EventHandler_update L E (event_svc E limits),
           EventHandler_delete L (event_svc E limits)}"
  shows "only_of E (User_ID (ai_User actor)) w w'"
proof -
  note defs = AgentFrom_def run_simps only_of_frame
  from assms(4) consider "h = AuthHandler_Whoami" | "h = EventHandler_create L E (event_svc E limits)"
    | "h = EventHandler_list (event_svc E limits)" | "h = EventHandler_get L (event_svc E limits)"
    | "h = EventHandler_update L E (event_svc E limits)" | "h = EventHandler_delete L (event_svc E limits)" by blast
  then show ?thesis
  proof cases
    case 1
    then show ?thesis using assms(2,3) by (auto simp: AuthHandler_Whoami_def defs)
  next
    case 2
    then show ?thesis using assms(2,3) create_only_of[OF assms(1)]
      by (auto simp: EventHandler_create_def defs split: sum.splits option.splits prod.splits)
  next
    case 3
    then show ?thesis using assms(2)
      by (auto simp: EventHandler_list_def defs dest: read_only_of split: prod.splits)
  next
    case 4
    then show ?thesis using assms(2)
      by (auto simp: EventHandler_get_def defs dest: read_only_of split: prod.splits sum.splits)
  next
    case 5
    then show ?thesis using assms(2,3) update_only_of[OF assms(1)]
      by (fastforce simp: EventHandler_update_def defs split: sum.splits option.splits prod.splits)
  next
    case 6
    then show ?thesis using assms(2,3) delete_only_of[OF assms(1)]
      by (fastforce simp: EventHandler_delete_def defs split: sum.splits option.splits prod.splits)
  qed
qed

section \<open>What one request does to the events\<close>

lemma bearerToken_request: "bearerToken (request_of hr params) = bearerToken (request_of hr qs)"
  by (simp add: bearerToken_def request_of_def)

lemma kept_run:
  assumes "prog_ok (when_quiet verifier events_same) (\<lambda>_. True) p" "\<forall>p t. quiet (verifier p t)" "run p w = (r, w')"
  shows "events w' = events w"
  using prog_ok_run[OF assms(1) reflp_when[OF events_same_pre(1)] transp_when[OF events_same_pre(2)], of w] assms(2,3)
  by (simp add: when_quiet_def events_same_def)

lemma agent_route_owner:
  assumes inv: "auth_inv E verifier w"
    and r: "run (RequireAgent E (auth_svc E limits verifier c) h rq) w = (rs, w')"
    and h: "\<And>w1 rs w2 rq actor. pg_inv E w1 \<Longrightarrow> run (h rq) w1 = (rs, w2) \<Longrightarrow> rq_agent rq = Some actor \<Longrightarrow>
      only_of E (User_ID (ai_User actor)) w1 w2"
    and e: "event_lookup E w j = Some e" "event_lookup E w' j \<noteq> Some e"
  shows "\<exists>raw a u. bearerToken rq = Some raw \<and> key_lookup w (HashToken raw) = Some a \<and> \<not> Revoked a
    \<and> user_lookup E w (Agent_UserID a) = Some u \<and> User_ID u = Event_UserID e"
proof (cases "bearerToken rq")
  case None
  then show ?thesis using r e by (simp add: RequireAgent_def)
next
  case (Some raw)
  obtain q w1 where q: "run (AuthenticateAgent E (auth_svc E limits verifier c) raw) w = (q, w1)" by fastforce
  note A = pg_auth.authenticate_agent_outcome[OF inv q[unfolded auth_svc_defs]]
  have same: "event_lookup E w1 = event_lookup E w"
    using kept_run[OF events_kept.AuthenticateAgent_ok _ q] inv
    by (intro event_lookup_frame) (simp add: auth_inv_def)
  show ?thesis
  proof (cases q)
    case (Inl x)
    then show ?thesis using r Some q e same by (simp add: RequireAgent_def run_simps)
  next
    case (Inr creds)
    let ?actor = "\<lparr>ai_Agent = ac_Agent creds, ai_User = ac_User creds\<rparr>"
    have "run (h (WithAgent ?actor rq)) w1 = (rs, w')"
      using r Some q Inr by (simp add: RequireAgent_def run_simps)
    moreover have "pg_inv E w1" using A by (simp add: auth_inv_def)
    ultimately have "only_of E (User_ID (ac_User creds)) w1 w'"
      using h[of w1 "WithAgent ?actor rq" rs w' ?actor] by (simp add: WithAgent_def)
    then have "Event_UserID e = User_ID (ac_User creds)" using e same by (auto simp: only_of_def)
    then show ?thesis using A Inr Some by auto
  qed
qed

text \<open>
  C1: Only its owner changes an event. If serving one request changes or removes an event, then the
  request carried the key of an agent that is stored and not revoked and whose user owns the event.
  Whatever else a request says, whatever statements fail, and also for every other route, every
  event stays as it was.
\<close>

theorem only_owner_changes_events:
  assumes "auth_inv E verifier w" "run (ServeHTTP chi (assemble L E verifier cfg) hr) w = (rs, w')"
    and "event_lookup E w j = Some e" "event_lookup E w' j \<noteq> Some e"
  shows "\<exists>raw a u. bearerToken (request_of hr []) = Some raw \<and> key_lookup w (HashToken raw) = Some a \<and> \<not> Revoked a
    \<and> user_lookup E w (Agent_UserID a) = Some u \<and> User_ID u = Event_UserID e"
proof -
  have q: "\<forall>p t. quiet (verifier p t)" using assms(1) by (simp add: auth_inv_def)
  note kept = kept_run[OF _ q, THEN event_lookup_frame]
  show ?thesis
  proof (cases rule: serve_shape[of chi "assemble L E verifier cfg" hr, unfolded assemble_services])
    case (1 rs)
    then show ?thesis using assms(2-4) by simp
  next
    case (2 ps)
    have "event_lookup E w' = event_lookup E w"
      using assms(2) unfolding 2 by (rule kept[OF events_kept.AuthHandlers_ok(1)])
    then show ?thesis using assms(3,4) by simp
  next
    case (3 h ps)
    from 3(2) have "prog_ok (when_quiet verifier events_same) (\<lambda>_. True) (ServeHTTP chi (assemble L E verifier cfg) hr)"
      unfolding 3(1) by (auto simp: events_kept.AuthHandlers_ok events_kept.AgentHandlers_ok intro!: events_kept.Middleware_ok)
    then have "event_lookup E w' = event_lookup E w" using assms(2) by (rule kept)
    then show ?thesis using assms(3,4) by simp
  next
    case (4 h ps)
    have "only_of E (User_ID (ai_User actor)) w1 w2"
      if "pg_inv E w1" "run (h rq) w1 = (rs, w2)" "rq_agent rq = Some actor" for w1 rs w2 rq actor
    proof (cases "h = (\<lambda>_. Done (own_answer chi (assemble L E verifier cfg) hr))")
      case False
      show ?thesis using that by (rule event_handlers_only_of) (use False 4(2) in simp)
    qed (use that in \<open>simp add: only_of_frame\<close>)
    from agent_route_owner[OF assms(1) assms(2)[unfolded 4(1)] this assms(3,4)] show ?thesis
      unfolding bearerToken_request[of hr ps "[]"] .
  qed
qed

definition delete_hr :: http_request where
  "delete_hr = sample_hr ''DELETE'' ''/api/v1/events/e1'' ''aea_bot'' ''''"

lemma sample_chi_delete:
  "snd (snd (sample_chi (map (\<lambda>r. (rt_method r, rt_pattern r)) (NewRouter sample_server)) ''DELETE'' ''/api/v1/events/e1''))
     = Some (11, [(''id'', ''e1'')])"
  by (simp add: sample_chi_def NewRouter_def open_routes_def user_routes_def agent_routes_def Route_def Group_With_def
      EventHandler_Register_def AgentHandler_Register_def on_def)

lemma sample_delete_serves:
  "ServeHTTP sample_chi sample_server delete_hr =
     RequireAgent sample_env (auth_svc sample_env (provideRateLimiter sample_cfg) dev_verify (provideAuthConfig sample_cfg))
       (EventHandler_delete sample_lib (event_svc sample_env (provideRateLimiter sample_cfg)))
       (request_of delete_hr [(''id'', ''e1'')])"
proof -
  have "hr_method delete_hr = ''DELETE''" "hr_path delete_hr = ''/api/v1/events/e1''"
    by (simp_all add: delete_hr_def sample_hr_def)
  moreover have "11 < length (NewRouter sample_server)
    \<and> rt_handler (NewRouter sample_server ! 11) =
       RequireAgent sample_env (auth_svc sample_env (provideRateLimiter sample_cfg) dev_verify (provideAuthConfig sample_cfg))
       (EventHandler_delete sample_lib (event_svc sample_env (provideRateLimiter sample_cfg)))"
    by (simp add: sample_server_def NewRouter_def open_routes_def user_routes_def agent_routes_def Route_def Group_With_def
      EventHandler_Register_def AgentHandler_Register_def on_def assemble_services) (simp add: assemble_def Let_def)
  ultimately show ?thesis by (simp add: ServeHTTP_def routed_def chi_says_def sample_chi_delete)
qed

lemma sample_delete_bearer: "bearerToken (request_of delete_hr ps) = Some ''aea_bot''"
  unfolding bearerToken_request[of delete_hr ps "[]"] by code_simp

lemma request_of_params [simp]: "rq_params (request_of hr ps) = ps"
  by (simp add: request_of_def)

lemma sample_delete_request_run:
  "event_lookup sample_env sample_bot_world ''e1'' \<noteq> None
     \<and> event_lookup sample_env (snd (serve_sample delete_hr sample_bot_world)) ''e1'' = None"
  unfolding serve_sample_def sample_delete_serves
  by (simp add: RequireAgent_def sample_delete_bearer AuthenticateAgent_def auth_run_simps EventHandler_delete_def
      EventService_Delete_def AgentRepository_GetByKeyHash_def q_GetAgentByKeyHash_def UserRepository_Get_def
      q_GetUserByID_def AgentRepository_TouchLastUsed_def q_TouchAgentLastUsed_def event_svc_defs
      NewEventRepository_def EventRepository_Get_def EventRepository_Delete_def q_GetEventByID_def q_DeleteEvent_def
      sample_bot_world_def sample_env_def sample_world_def agentFromRow_def userFromRow_def eventFromRow_def
      Revoked_def timeFromTimestamptz_def IsZero_def zero_time_def WithAgent_def AgentFrom_def eventURLID_def URLParam_def
      sample_lib_def event_lookup_def)

theorem only_owner_changes_events_witness:
  "\<exists>raw a u. bearerToken (request_of delete_hr []) = Some raw
     \<and> key_lookup sample_bot_world (HashToken raw) = Some a \<and> User_ID u = ''ann''
     \<and> user_lookup sample_env sample_bot_world (Agent_UserID a) = Some u"
proof -
  obtain e where e: "event_lookup sample_env sample_bot_world ''e1'' = Some e" "Event_UserID e = ''ann''"
    by (simp add: event_lookup_def sample_bot_world_def sample_world_def sample_env_def eventFromRow_def)
  obtain rs w' where r: "run (ServeHTTP sample_chi sample_server delete_hr) sample_bot_world = (rs, w')" by fastforce
  then have "event_lookup sample_env w' ''e1'' \<noteq> Some e"
    using sample_delete_request_run by (simp add: serve_sample_def)
  then show ?thesis
    using only_owner_changes_events[OF sample_bot_inv r[unfolded sample_server_def] e(1)] e(2) by metis
qed

end
