(* ===== verification/AgentOwnership.thy ===== *)
theory AgentOwnership
  imports Ownership
begin

text \<open>
  Who can create and revoke agents, seen from the outside: the effect of one request on the agents,
  apart from the note of their last use. Everything but creating and revoking an agent leaves them
  alone (the interpretation \<open>agents_kept\<close>); what those two do follows from \<open>pg_auth\<close>.
\<close>

section \<open>What leaves the agents alone\<close>

text \<open>The agents without the times of their last use.\<close>

definition touchless :: "gen_Agent \<Rightarrow> gen_Agent" where
  "touchless r = r\<lparr>ga_LastUsedAt := None\<rparr>"

definition agents_same :: "world \<Rightarrow> world \<Rightarrow> bool" where
  "agents_same w w' \<longleftrightarrow> map touchless (agents w') = map touchless (agents w)"

definition standing :: "Env \<Rightarrow> world \<Rightarrow> string \<Rightarrow> Agent option" where
  "standing E w i = map_option (\<lambda>a. a\<lparr>Agent_LastUsedAt := zero_time\<rparr>) (agent_lookup E w i)"

lemma agents_same_pre: "reflp agents_same" "transp agents_same"
  by (auto simp: agents_same_def intro: reflpI transpI)

lemma standing_rows:
  "standing E w i = (case pg_uuid E i of None \<Rightarrow> None
     | Some k \<Rightarrow> map_option agentFromRow (find (\<lambda>r. ga_ID r = k) (map touchless (agents w))))"
proof -
  have f: "find (\<lambda>r. ga_ID r = k) (map touchless rs) = map_option touchless (find (\<lambda>r. ga_ID r = k) rs)" for k rs
    by (induction rs) (simp_all add: touchless_def)
  have r: "agentFromRow (touchless r) = (agentFromRow r)\<lparr>Agent_LastUsedAt := zero_time\<rparr>" for r
    by (simp add: touchless_def agentFromRow_def timeFromTimestamptz_def)
  show ?thesis
    by (simp add: standing_def agent_lookup_def f option.map_comp comp_def r split: option.split)
qed

lemma standing_frame: "agents_same w w' \<Longrightarrow> standing E w' = standing E w"
  by (rule ext) (simp add: standing_rows agents_same_def cong: option.case_cong)

lemma standing_lookup: "agent_lookup E w' = agent_lookup E w \<Longrightarrow> standing E w' = standing E w"
  by (rule ext) (simp add: standing_def)

lemma agents_same_atomic: "(\<And>w. agents (snd (f w)) = agents w) \<Longrightarrow> prog_ok agents_same (\<lambda>_. True) (atomic f)"
  by (rule prog_ok_atomic) (simp add: agents_same_def)

lemma agents_effects:
  "prog_ok agents_same (\<lambda>_. True) (time_Now E)" "prog_ok agents_same (\<lambda>_. True) (uuid_NewString E)"
  "prog_ok agents_same (\<lambda>_. True) (rand_Read E)" "prog_ok agents_same (\<lambda>_. True) (RateLimiter_Allow E limits k a)"
  unfolding time_Now_def uuid_NewString_def rand_Read_def RateLimiter_Allow_def
  by (rule agents_same_atomic, simp add: with_tick_def split: prod.splits)+

lemma agents_touch: "prog_ok agents_same (\<lambda>_. True) (AgentRepository_TouchLastUsed E i t)"
  unfolding AgentRepository_TouchLastUsed_def
  by (rule prog_ok_atomic) (auto simp: agents_same_def q_TouchAgentLastUsed_def sql_def with_tick_def touchless_def
      split: option.split)

lemma agents_repositories:
  "prog_ok agents_same (\<lambda>_. True) (UserRepository_UpsertByIdentity E p s m)"
  "prog_ok agents_same (\<lambda>_. True) (UserRepository_Get E i)"
  "prog_ok agents_same (\<lambda>_. True) (UserTokenRepository_Create E t)"
  "prog_ok agents_same (\<lambda>_. True) (UserTokenRepository_GetByHash E h)"
  "prog_ok agents_same (\<lambda>_. True) (UserTokenRepository_DeleteByHash E h)"
  "prog_ok agents_same (\<lambda>_. True) (AgentRepository_Get E i)"
  "prog_ok agents_same (\<lambda>_. True) (AgentRepository_GetByKeyHash E h)"
  "prog_ok agents_same (\<lambda>_. True) (AgentRepository_ListByUser E i)"
  "prog_ok agents_same (\<lambda>_. True) (EventRepository_Save E e)"
  "prog_ok agents_same (\<lambda>_. True) (EventRepository_Get E i)"
  "prog_ok agents_same (\<lambda>_. True) (EventRepository_List E)"
  "prog_ok agents_same (\<lambda>_. True) (EventRepository_Update E e)"
  "prog_ok agents_same (\<lambda>_. True) (EventRepository_Delete E i)"
  unfolding UserRepository_UpsertByIdentity_def UserRepository_Get_def UserTokenRepository_Create_def
    UserTokenRepository_GetByHash_def UserTokenRepository_DeleteByHash_def AgentRepository_Get_def
    AgentRepository_GetByKeyHash_def AgentRepository_ListByUser_def EventRepository_Save_def EventRepository_Get_def
    EventRepository_List_def EventRepository_Update_def EventRepository_Delete_def
  by (intro prog_ok_pbind[OF agents_effects(1)] prog_ok_pbind[OF agents_effects(2)] prog_ok_pbind[OF agents_same_atomic]
      agents_same_atomic ok_intros TrueI; simp)+

interpretation agents_kept: respected_use "when_quiet verifier agents_same" E "auth_svc E limits verifier c"
  "\<lambda>_. True" "event_svc E limits" for E verifier limits c
proof (unfold_locales, goal_cases)
  case (5 p t)
  then show ?case
    by (simp add: svc_defs) (rule verifier_when, simp add: agents_same_def untouched_frame)
qed (simp_all add: svc_defs agents_effects agents_touch agents_repositories quiet_when)

lemma agents_kept_run:
  assumes "prog_ok (when_quiet verifier agents_same) (\<lambda>_. True) p" "\<forall>p t. quiet (verifier p t)" "run p w = (r, w')"
  shows "standing E w' = standing E w"
  using prog_ok_run[OF assms(1) reflp_when[OF agents_same_pre(1)] transp_when[OF agents_same_pre(2)], of w] assms(2,3)
  by (intro standing_frame) (simp add: when_quiet_def)

section \<open>What the handlers of agents do\<close>

text \<open>Every agent stands as it did, or is there afterwards and belongs to \<open>u\<close>.\<close>

definition agents_of :: "Env \<Rightarrow> string \<Rightarrow> world \<Rightarrow> world \<Rightarrow> bool" where
  "agents_of E u w w' \<longleftrightarrow> (\<forall>j. standing E w' j = standing E w j
     \<or> (\<exists>a. agent_lookup E w' j = Some a \<and> canon E (Agent_UserID a) = canon E u))"

lemma create_agents_of:
  assumes "auth_inv E verifier w" "run (CreateAgent E (auth_svc E limits verifier c) u name) w = (r, w')"
  shows "agents_of E u w w'"
proof -
  note O = pg_auth.create_agent_outcome[OF assms(1) assms(2)[unfolded auth_svc_defs]]
  show ?thesis
  proof (cases r)
    case (Inl x)
    then show ?thesis using O standing_lookup[of E w' w] by (simp add: agents_of_def)
  next
    case (Inr k)
    have "env_ok E" using assms(1) by (simp add: auth_inv_def pg_inv_def)
    then have "canon E (canon E u) = canon E u" by (auto simp: canon_def env_ok_def split: option.splits)
    moreover have l: "agent_lookup E w' j = (if same_id E j (Agent_ID (ak_Agent k)) then Some (store_agent E (ak_Agent k))
        else agent_lookup E w j)" "Agent_UserID (ak_Agent k) = u" for j
      using O Inr by (auto simp: fun_eq_iff)
    ultimately show ?thesis by (auto simp: agents_of_def standing_def store_agent_def)
  qed
qed

lemma revoke_agents_of:
  assumes "auth_inv E verifier w" "run (RevokeAgent E (auth_svc E limits verifier c) u i) w = (r, w')"
  shows "agents_of E u w w'"
proof -
  note O = pg_auth.revoke_agent_outcome[OF assms(1) assms(2)[unfolded auth_svc_defs]]
  show ?thesis
  proof (cases r)
    case (Inl x)
    then show ?thesis using O standing_lookup[of E w' w] by (simp add: agents_of_def)
  next
    case (Inr v)
    then obtain a where a: "agent_lookup E w i = Some a" "Agent_UserID a = u"
      "agent_lookup E w' = agent_lookup E w \<or> (\<exists>t. agent_lookup E w' =
         (\<lambda>j. if same_id E j i then Some (a\<lparr>Agent_RevokedAt := t\<rparr>) else agent_lookup E w j))"
      using O by (auto split: if_splits)
    then show ?thesis using standing_lookup[of E w' w] by (auto simp: agents_of_def standing_def)
  qed
qed

lemma user_handlers_agents_of:
  assumes "auth_inv E verifier w" "run (h rq) w = (rs, w')" "rq_user rq = Some identity"
    and "h \<in> {AuthHandler_Logout (auth_svc E limits verifier c), AgentHandler_create L E (auth_svc E limits verifier c),
           AgentHandler_list (auth_svc E limits verifier c), AgentHandler_revoke L E (auth_svc E limits verifier c)}"
  shows "agents_of E (User_ID (ui_User identity)) w w'"
proof -
  have q: "\<forall>p t. quiet (verifier p t)" using assms(1) by (simp add: auth_inv_def)
  note kept = agents_kept_run[OF _ q assms(2), of E]
  have same: "standing E w' = standing E w \<Longrightarrow> ?thesis" "w' = w \<Longrightarrow> ?thesis" by (simp_all add: agents_of_def)
  from assms(4) consider "h = AuthHandler_Logout (auth_svc E limits verifier c)"
    | "h = AgentHandler_list (auth_svc E limits verifier c)"
    | "h = AgentHandler_create L E (auth_svc E limits verifier c)"
    | "h = AgentHandler_revoke L E (auth_svc E limits verifier c)" by blast
  then show ?thesis
  proof cases
    case 1
    show ?thesis unfolding 1 by (rule same(1), rule kept) (simp add: 1 agents_kept.AuthHandlers_ok)
  next
    case 2
    show ?thesis unfolding 2 by (rule same(1), rule kept) (simp add: 2 agents_kept.AgentHandler_list_ok)
  next
    case 3
    then show ?thesis using assms(2,3) same(2) create_agents_of[OF assms(1)]
      by (fastforce simp: AgentHandler_create_def UserFrom_def run_simps split: sum.splits option.splits prod.splits)
  next
    case 4
    then show ?thesis using assms(2,3) same(2) revoke_agents_of[OF assms(1)]
      by (fastforce simp: AgentHandler_revoke_def UserFrom_def run_simps Let_def split: if_splits prod.splits)
  qed
qed

section \<open>What one request does to the agents\<close>

lemma user_route_owner:
  assumes inv: "auth_inv E verifier w"
    and r: "run (RequireUser E (auth_svc E limits verifier c) h rq) w = (rs, w')"
    and h: "\<And>w1 rs w2 rq identity. auth_inv E verifier w1 \<Longrightarrow> run (h rq) w1 = (rs, w2) \<Longrightarrow> rq_user rq = Some identity \<Longrightarrow>
      agents_of E (User_ID (ui_User identity)) w1 w2"
    and changed: "standing E w' j \<noteq> standing E w j"
  shows "\<exists>raw t u a. bearerToken rq = Some raw \<and> token_lookup w (HashToken raw) = Some t
    \<and> now_at E (Suc (ticks w)) < UserToken_ExpiresAt t \<and> user_lookup E w (UserToken_UserID t) = Some u
    \<and> agent_lookup E w' j = Some a \<and> canon E (Agent_UserID a) = canon E (User_ID u)"
proof (cases "bearerToken rq")
  case None
  then show ?thesis using r changed by (simp add: RequireUser_def)
next
  case (Some raw)
  obtain q w1 where q: "run (AuthenticateUser E (auth_svc E limits verifier c) raw) w = (q, w1)" by fastforce
  note A = pg_auth.authenticate_user_outcome[OF inv q[unfolded auth_svc_defs]]
  have same: "standing E w1 = standing E w" using A by (intro standing_lookup) simp
  show ?thesis
  proof (cases q)
    case (Inl x)
    then show ?thesis using r Some q changed same by (simp add: RequireUser_def run_simps)
  next
    case (Inr u)
    let ?identity = "\<lparr>ui_User = u, ui_TokenHash = HashToken raw\<rparr>"
    have "run (h (WithUser ?identity rq)) w1 = (rs, w')" using r Some q Inr by (simp add: RequireUser_def run_simps)
    then have "agents_of E (User_ID u) w1 w'"
      using h[of w1 "WithUser ?identity rq" rs w' ?identity] A by (simp add: WithUser_def)
    then show ?thesis using changed same A Inr Some by (auto simp: agents_of_def)
  qed
qed

text \<open>
  C2: Only its owner creates and revokes an agent. If serving one request creates an agent or changes
  one, apart from the time of its last use, then the request carried a user token that is stored and
  has not expired, and the agent, which is there afterwards, belongs to the user of that token. No
  request removes an agent.
\<close>

theorem only_owner_manages_agents:
  assumes "auth_inv E verifier w" "run (ServeHTTP chi (assemble L E verifier cfg) hr) w = (rs, w')"
    and "standing E w' j \<noteq> standing E w j"
  shows "\<exists>raw t u a. bearerToken (request_of hr []) = Some raw \<and> token_lookup w (HashToken raw) = Some t
    \<and> now_at E (Suc (ticks w)) < UserToken_ExpiresAt t \<and> user_lookup E w (UserToken_UserID t) = Some u
    \<and> agent_lookup E w' j = Some a \<and> canon E (Agent_UserID a) = canon E (User_ID u)"
proof -
  have q: "\<forall>p t. quiet (verifier p t)" using assms(1) by (simp add: auth_inv_def)
  note kept = agents_kept_run[OF _ q]
  show ?thesis
  proof (cases rule: serve_shape[of chi "assemble L E verifier cfg" hr, unfolded assemble_services])
    case (1 rs)
    then show ?thesis using assms(2,3) by simp
  next
    case (2 ps)
    have "standing E w' = standing E w"
      using assms(2) unfolding 2 by (rule kept[OF agents_kept.AuthHandlers_ok(1)])
    then show ?thesis using assms(3) by simp
  next
    case (3 h ps)
    have "agents_of E (User_ID (ui_User identity)) w1 w2"
      if "auth_inv E verifier w1" "run (h rq) w1 = (rs, w2)" "rq_user rq = Some identity" for w1 rs w2 rq identity
    proof (cases "h = (\<lambda>_. Done (own_answer chi (assemble L E verifier cfg) hr))")
      case False
      show ?thesis using that by (rule user_handlers_agents_of) (use False 3(2) in simp)
    qed (use that in \<open>simp add: agents_of_def\<close>)
    from user_route_owner[OF assms(1) assms(2)[unfolded 3(1)] this assms(3)] show ?thesis
      unfolding bearerToken_request[of hr ps "[]"] .
  next
    case (4 h ps)
    from 4(2) have "prog_ok (when_quiet verifier agents_same) (\<lambda>_. True) (ServeHTTP chi (assemble L E verifier cfg) hr)"
      unfolding 4(1) by (auto simp: agents_kept.AuthHandlers_ok agents_kept.EventHandlers_ok intro!: agents_kept.Middleware_ok)
    then have "standing E w' = standing E w" using assms(2) by (rule kept)
    then show ?thesis using assms(3) by simp
  qed
qed

text \<open>An instance: ann, signed in with the token \<open>aeu_t\<close>, revokes her agent.\<close>

definition sample_signed_world :: world where
  "sample_signed_world = sample_bot_world\<lparr>user_tokens :=
     [\<lparr>gt_TokenHash = HashToken ''aeu_t'', gt_UserID = ''ann'', gt_ExpiresAt = Some (63900003600 * Second),
       gt_CreatedAt = Some (63800000000 * Second)\<rparr>]\<rparr>"

definition revoke_hr :: http_request where
  "revoke_hr = sample_hr ''DELETE'' ''/api/v1/agents/a1'' ''aeu_t'' ''''"

lemma sample_signed_inv: "auth_inv sample_env dev_verify sample_signed_world"
  using sample_bot_inv
  by (simp add: auth_inv_def pg_inv_def db_inv_def inv_defs sample_signed_world_def sample_env_def zero_time_def)
    (simp add: sample_bot_world_def sample_world_def user_exists_def stored_def Second_def)

lemma sample_revoke_serves:
  "ServeHTTP sample_chi sample_server revoke_hr =
     RequireUser sample_env (auth_svc sample_env (provideRateLimiter sample_cfg) dev_verify (provideAuthConfig sample_cfg))
       (AgentHandler_revoke sample_lib sample_env
         (auth_svc sample_env (provideRateLimiter sample_cfg) dev_verify (provideAuthConfig sample_cfg)))
       (request_of revoke_hr [(''id'', ''a1'')])"
proof -
  have "hr_method revoke_hr = ''DELETE''" "hr_path revoke_hr = ''/api/v1/agents/a1''"
    by (simp_all add: revoke_hr_def sample_hr_def)
  moreover have "snd (snd (sample_chi (map (\<lambda>r. (rt_method r, rt_pattern r)) (NewRouter sample_server)) ''DELETE'' ''/api/v1/agents/a1''))
     = Some (5, [(''id'', ''a1'')])"
    by (simp add: sample_chi_def NewRouter_def open_routes_def user_routes_def agent_routes_def Route_def Group_With_def
      EventHandler_Register_def AgentHandler_Register_def on_def)
  moreover have "5 < length (NewRouter sample_server)
    \<and> rt_handler (NewRouter sample_server ! 5) =
       RequireUser sample_env (auth_svc sample_env (provideRateLimiter sample_cfg) dev_verify (provideAuthConfig sample_cfg))
       (AgentHandler_revoke sample_lib sample_env
         (auth_svc sample_env (provideRateLimiter sample_cfg) dev_verify (provideAuthConfig sample_cfg)))"
    by (simp add: sample_server_def NewRouter_def open_routes_def user_routes_def agent_routes_def Route_def Group_With_def
      EventHandler_Register_def AgentHandler_Register_def on_def assemble_services) (simp add: assemble_def Let_def)
  ultimately show ?thesis by (simp add: ServeHTTP_def routed_def chi_says_def)
qed

lemma sample_revoke_bearer: "bearerToken (request_of revoke_hr ps) = Some ''aeu_t''"
  unfolding bearerToken_request[of revoke_hr ps "[]"] by code_simp

lemma sample_revoke_request_run:
  "standing sample_env (snd (serve_sample revoke_hr sample_signed_world)) ''a1''
     \<noteq> standing sample_env sample_signed_world ''a1''"
  unfolding serve_sample_def sample_revoke_serves
  by (simp add: RequireUser_def sample_revoke_bearer AuthenticateUser_def auth_run_simps AgentHandler_revoke_def
      RevokeAgent_def AgentRepository_Get_def q_GetAgentByID_def AgentRepository_Revoke_def q_RevokeAgent_def to_revoke_def
      UserTokenRepository_GetByHash_def q_GetUserTokenByHash_def UserRepository_Get_def q_GetUserByID_def Expired_def
      sample_signed_world_def sample_bot_world_def sample_env_def sample_world_def agentFromRow_def userFromRow_def
      Revoked_def timeFromTimestamptz_def IsZero_def zero_time_def WithUser_def UserFrom_def URLParam_def
      sample_lib_def agent_lookup_def standing_def Second_def userTokenFromRow_def Before_def stored_def timestamptz_of_def)

theorem only_owner_manages_agents_witness:
  "\<exists>raw t a. bearerToken (request_of revoke_hr []) = Some raw
     \<and> token_lookup sample_signed_world (HashToken raw) = Some t
     \<and> agent_lookup sample_env (snd (serve_sample revoke_hr sample_signed_world)) ''a1'' = Some a"
proof -
  obtain rs w' where r: "run (ServeHTTP sample_chi sample_server revoke_hr) sample_signed_world = (rs, w')" by fastforce
  then have "standing sample_env w' ''a1'' \<noteq> standing sample_env sample_signed_world ''a1''"
    using sample_revoke_request_run by (simp add: serve_sample_def)
  then show ?thesis
    using only_owner_manages_agents[OF sample_signed_inv r[unfolded sample_server_def]] r
    by (simp add: serve_sample_def) blast
qed

end
