(* ===== verification/Networks.thy ===== *)
theory Networks
  imports NetProperties
begin

text \<open>
  Which addresses a network of \<open>TRUSTED_PROXIES\<close> contains, on the bits of addresses: masking and
  comparing bytes, as \<open>net\<close> does, is comparing the first bits.
\<close>

section \<open>Bits of addresses\<close>

text \<open>The bits of a byte and of an address, the highest first.\<close>

definition byte_bits :: "byte \<Rightarrow> bool list" where
  "byte_bits b = map (\<lambda>i. bit b (7 - i)) [0..<8]"

definition bits_of :: "IP \<Rightarrow> bool list" where
  "bits_of ip = concat (map byte_bits ip)"

lemma length_byte_bits [simp]: "length (byte_bits b) = 8"
  by (simp add: byte_bits_def)

lemma length_bits_of [simp]: "length (bits_of ip) = 8 * length ip"
  by (induction ip) (simp_all add: bits_of_def)

lemma bits_of_append: "bits_of (xs @ ys) = bits_of xs @ bits_of ys"
  by (simp add: bits_of_def)

lemma mask_byte_bit:
  assumes "j < 8"
  shows "bit (mask_byte n) j \<longleftrightarrow> 8 \<le> j + min n 8"
proof -
  have "\<forall>k \<in> set [0..<9]. \<forall>j \<in> set [0..<8]. bit (NOT (word_of_nat (255 div 2 ^ k)) :: byte) j \<longleftrightarrow> 8 \<le> j + k"
    by code_simp
  moreover have "min n 8 \<in> set [0..<9]" "j \<in> set [0..<8]" using assms by auto
  ultimately show ?thesis unfolding mask_byte_def by blast
qed

lemma masked_byte_eq:
  fixes b c :: byte
  shows "b AND mask_byte n = c AND mask_byte n \<longleftrightarrow> take n (byte_bits b) = take n (byte_bits c)"
proof -
  have "b AND mask_byte n = c AND mask_byte n \<longleftrightarrow> (\<forall>j<8. 8 \<le> j + min n 8 \<longrightarrow> bit b j = bit c j)"
    by (auto simp: bit_eq_iff bit_and_iff mask_byte_bit)
  also have "\<dots> \<longleftrightarrow> (\<forall>i < min n 8. bit b (7 - i) = bit c (7 - i))"
  proof
    assume a: "\<forall>j<8. 8 \<le> j + min n 8 \<longrightarrow> bit b j = bit c j"
    show "\<forall>i < min n 8. bit b (7 - i) = bit c (7 - i)"
    proof (intro allI impI)
      fix i assume "i < min n 8"
      then have "7 - i < 8" "8 \<le> 7 - i + min n 8" by auto
      then show "bit b (7 - i) = bit c (7 - i)" using a by blast
    qed
  next
    assume a: "\<forall>i < min n 8. bit b (7 - i) = bit c (7 - i)"
    show "\<forall>j<8. 8 \<le> j + min n 8 \<longrightarrow> bit b j = bit c j"
    proof (intro allI impI)
      fix j :: nat assume "j < 8" "8 \<le> j + min n 8"
      then have "7 - j < min n 8" "7 - (7 - j) = j" by auto
      then show "bit b j = bit c j" using a[THEN spec[of _ "7 - j"]] by simp
    qed
  qed
  also have "\<dots> \<longleftrightarrow> take n (byte_bits b) = take n (byte_bits c)"
    by (auto simp: byte_bits_def list_eq_iff_nth_eq)
  finally show ?thesis .
qed

lemma CIDRMask_0 [simp]: "CIDRMask n 0 = []"
  by (simp add: CIDRMask_def)

lemma CIDRMask_Suc: "CIDRMask n (8 * Suc k) = mask_byte n # CIDRMask (n - 8) (8 * k)"
proof -
  have "[0..<Suc k] = 0 # map Suc [0..<k]" using upt_conv_Cons[of 0 "Suc k"] map_Suc_upt[of 0 k] by simp
  then show ?thesis by (simp add: CIDRMask_def)
qed

lemma masked_eq:
  assumes "length xs = length ys"
  shows "map2 (AND) xs (CIDRMask n (8 * length xs)) = map2 (AND) ys (CIDRMask n (8 * length xs))
    \<longleftrightarrow> take n (bits_of xs) = take n (bits_of ys)"
  using assms
proof (induction xs ys arbitrary: n rule: list_induct2)
  case (Cons x xs y ys)
  have "take n (bits_of (z # zs)) = take n (byte_bits z) @ take (n - 8) (bits_of zs)" for z zs
    by (simp add: bits_of_def)
  then show ?case using Cons.IH[of "n - 8"] by (simp add: CIDRMask_Suc[simplified] masked_byte_eq)
qed simp

lemma masked_twice: "map2 (AND) (map2 (AND) xs m) m = map2 (AND) xs (m :: byte list)"
  by (induction xs m rule: list_induct2') (simp_all add: and.assoc)

section \<open>The network of an entry\<close>

lemma CIDRMask_length: "length (CIDRMask n bits) = bits div 8"
  by (simp add: CIDRMask_def)

lemma drop_CIDRMask: "drop k (CIDRMask n (8 * (k + m))) = CIDRMask (n - 8 * k) (8 * m)"
proof (induction k arbitrary: n)
  case (Suc k)
  show ?case using Suc[of "n - 8"] CIDRMask_Suc[of n "k + m"] by (simp add: algebra_simps)
qed simp

lemma take_CIDRMask: "take k (CIDRMask n (8 * (k + m))) = CIDRMask n (8 * k)"
proof (induction k arbitrary: n)
  case (Suc k)
  show ?case using Suc[of "n - 8"] CIDRMask_Suc[of n "k + m"] CIDRMask_Suc[of n k] by (simp add: algebra_simps)
qed simp

lemma CIDRMask_full: "8 * k \<le> n \<Longrightarrow> CIDRMask n (8 * k) = replicate k (- 1)"
proof (induction k arbitrary: n)
  case (Suc k)
  have "mask_byte n = - 1" using Suc.prems by (auto simp: bit_eq_iff mask_byte_bit)
  then show ?case using Suc.IH[of "n - 8"] Suc.prems by (simp add: CIDRMask_Suc[simplified])
qed simp

lemma length_prefix [simp]: "length v4InV6Prefix = 12"
  by (simp add: v4InV6Prefix_def)

text \<open>A masked address is mapped only if the mask covers the prefix of mapped addresses.\<close>

lemma masked_mapped:
  assumes "length ip = 16" "n \<le> 128"
  shows "take 12 (map2 (AND) ip (CIDRMask n 128)) = v4InV6Prefix \<longleftrightarrow> take 12 ip = v4InV6Prefix \<and> 96 \<le> n"
proof -
  have t: "take 12 (map2 (AND) ip (CIDRMask n 128)) = map2 (AND) (take 12 ip) (CIDRMask n 96)"
    using take_CIDRMask[of 12 n 4] by (simp add: take_map take_zip)
  show ?thesis
  proof (cases "96 \<le> n")
    case True
    then have "CIDRMask n 96 = replicate 12 (- 1)" using CIDRMask_full[of 12 n] by simp
    then show ?thesis using True t assms by (simp add: map2_full)
  next
    case False
    have "CIDRMask n 96 ! 11 = mask_byte (n - 88)" by (simp add: CIDRMask_def)
    moreover have "length (take 12 ip) = 12" "length (CIDRMask n 96) = 12" using assms by (simp_all add: CIDRMask_length)
    ultimately have "map2 (AND) (take 12 ip) (CIDRMask n 96) ! 11 = ip ! 11 AND mask_byte (n - 88)"
      by simp
    moreover have "\<not> bit (mask_byte (n - 88)) 0" using False by (simp add: mask_byte_bit)
    ultimately have "\<not> bit (map2 (AND) (take 12 ip) (CIDRMask n 96) ! 11) 0" by (simp add: bit_and_iff)
    moreover have "bit (v4InV6Prefix ! 11) 0" by (simp add: v4InV6Prefix_def nth_append nth_Cons')
    ultimately show ?thesis using t False by metis
  qed
qed

text \<open>The addresses a parsed network contains; the length of an IPv4 prefix counts from the mapped form.\<close>

definition prefix_length :: "nat \<Rightarrow> nat \<Rightarrow> nat" where
  "prefix_length bits n = (if bits = 32 then 96 + n else n)"

definition is_v4 :: "IP \<Rightarrow> bool" where
  "is_v4 ip \<longleftrightarrow> To4 ip \<noteq> None"

lemma is_v4_16: "length ip = 16 \<Longrightarrow> is_v4 ip \<longleftrightarrow> take 12 ip = v4InV6Prefix"
  by (simp add: is_v4_def To4_cases)

lemma bits_mapped:
  assumes "length ip = 16" "take 12 ip = v4InV6Prefix"
  shows "bits_of ip = bits_of v4InV6Prefix @ bits_of (drop 12 ip)"
proof -
  have "ip = v4InV6Prefix @ drop 12 ip" using assms(2) by (metis append_take_drop_id)
  then show ?thesis using bits_of_append[of v4InV6Prefix "drop 12 ip"] by simp
qed

lemma contains_v4:
  assumes "length base = 4 \<or> length base = 16 \<and> take 12 base = v4InV6Prefix" "v4 = (if length base = 4 then base else drop 12 base)"
    and "length m = 4 \<and> m4 = m \<or> length m = 16 \<and> m4 = drop 12 m" "length ip2 = 16"
  shows "Contains \<lparr>net_IP = base, net_Mask = m\<rparr> ip2 \<longleftrightarrow>
    is_v4 ip2 \<and> map2 (AND) v4 m4 = map2 (AND) (drop 12 ip2) m4"
proof -
  have b: "To4 base = Some v4" "length v4 = 4" using assms(1,2) by (auto simp: To4_def)
  then have "networkNumberAndMask \<lparr>net_IP = base, net_Mask = m\<rparr> = Some (v4, m4)"
    using assms(3) by (auto simp: networkNumberAndMask_def)
  then show ?thesis using assms(4) b by (auto simp: Contains_def is_v4_def To4_cases split: if_splits)
qed

lemma contains_v6:
  assumes "length base = 16" "take 12 base \<noteq> v4InV6Prefix" "length m = 16" "length ip2 = 16"
  shows "Contains \<lparr>net_IP = base, net_Mask = m\<rparr> ip2 \<longleftrightarrow> \<not> is_v4 ip2 \<and> map2 (AND) base m = map2 (AND) ip2 m"
  using assms by (auto simp: Contains_def networkNumberAndMask_def is_v4_def To4_cases split: if_splits)

lemma ParseAddr_shape:
  assumes "ParseAddr s = Some (ip, bits)"
  shows "length ip = 16 \<and> (bits = 128 \<or> bits = 32 \<and> take 12 ip = v4InV6Prefix)"
  using assms
  by (auto simp: ParseAddr_def dest: parseIPv4_length parseIPv6_length split: option.splits if_splits)

lemma contains_masked_v4:
  assumes "length ip = 16" "take 12 ip = v4InV6Prefix" "n \<le> 32" "length ip2 = 16"
  shows "Contains \<lparr>net_IP = map2 (AND) (drop 12 ip) (CIDRMask n 32), net_Mask = CIDRMask n 32\<rparr> ip2 \<longleftrightarrow>
    is_v4 ip2 \<and> take (96 + n) (bits_of ip2) = take (96 + n) (bits_of ip)"
proof -
  let ?m = "CIDRMask n 32" and ?v = "drop 12 ip"
  have "Contains \<lparr>net_IP = map2 (AND) ?v ?m, net_Mask = ?m\<rparr> ip2 \<longleftrightarrow>
      is_v4 ip2 \<and> map2 (AND) (map2 (AND) ?v ?m) ?m = map2 (AND) (drop 12 ip2) ?m"
    using assms by (intro contains_v4) (simp_all add: CIDRMask_length)
  also have "\<dots> \<longleftrightarrow> is_v4 ip2 \<and> take n (bits_of ?v) = take n (bits_of (drop 12 ip2))"
    using masked_eq[of ?v "drop 12 ip2" n] assms by (simp add: masked_twice)
  also have "\<dots> \<longleftrightarrow> is_v4 ip2 \<and> take (96 + n) (bits_of ip2) = take (96 + n) (bits_of ip)"
    using bits_mapped[of ip] bits_mapped[of ip2] assms by (auto simp: is_v4_16)
  finally show ?thesis .
qed

lemma contains_masked_v6:
  assumes "length ip = 16" "n \<le> 128" "length ip2 = 16"
  shows "Contains \<lparr>net_IP = map2 (AND) ip (CIDRMask n 128), net_Mask = CIDRMask n 128\<rparr> ip2 \<longleftrightarrow>
    (is_v4 ip2 \<longleftrightarrow> is_v4 ip \<and> 96 \<le> n) \<and> take n (bits_of ip2) = take n (bits_of ip)"
proof (cases "is_v4 ip \<and> 96 \<le> n")
  case True
  let ?m = "CIDRMask n 128" and ?m4 = "CIDRMask (n - 96) 32" and ?v = "drop 12 ip"
  let ?b = "map2 (AND) ip ?m"
  have v4: "take 12 ?b = v4InV6Prefix" using masked_mapped[of ip n] assms True by (simp add: is_v4_16)
  have d: "drop 12 ?m = ?m4" using drop_CIDRMask[of 12 n 4] by simp
  then have "drop 12 ?b = map2 (AND) ?v ?m4" by (simp add: drop_map drop_zip)
  then have "Contains \<lparr>net_IP = ?b, net_Mask = ?m\<rparr> ip2 \<longleftrightarrow>
      is_v4 ip2 \<and> map2 (AND) (map2 (AND) ?v ?m4) ?m4 = map2 (AND) (drop 12 ip2) ?m4"
    using assms v4 d by (intro contains_v4) (simp_all add: CIDRMask_length)
  also have "\<dots> \<longleftrightarrow> is_v4 ip2 \<and> take (n - 96) (bits_of ?v) = take (n - 96) (bits_of (drop 12 ip2))"
    using masked_eq[of ?v "drop 12 ip2" "n - 96"] assms by (simp add: masked_twice)
  also have "\<dots> \<longleftrightarrow> is_v4 ip2 \<and> take n (bits_of ip2) = take n (bits_of ip)"
    using bits_mapped[of ip] bits_mapped[of ip2] assms True by (auto simp: is_v4_16)
  finally show ?thesis using True by simp
next
  case False
  let ?m = "CIDRMask n 128"
  let ?b = "map2 (AND) ip ?m"
  have "take 12 ?b \<noteq> v4InV6Prefix" using masked_mapped[of ip n] assms False by (simp add: is_v4_16)
  then have "Contains \<lparr>net_IP = ?b, net_Mask = ?m\<rparr> ip2 \<longleftrightarrow> \<not> is_v4 ip2 \<and> map2 (AND) ?b ?m = map2 (AND) ip2 ?m"
    using assms by (intro contains_v6) (simp_all add: CIDRMask_length)
  then show ?thesis using masked_eq[of ip ip2 n] assms False by (auto simp: masked_twice)
qed

lemma Cut_slash: "CHR ''/'' \<notin> set addr \<Longrightarrow> Cut CHR ''/'' (addr @ CHR ''/'' # suf) = Some (addr, suf)"
proof -
  assume "CHR ''/'' \<notin> set addr"
  then have "takeWhile (\<lambda>x. x \<noteq> CHR ''/'') (addr @ CHR ''/'' # suf) = addr"
    "dropWhile (\<lambda>x. x \<noteq> CHR ''/'') (addr @ CHR ''/'' # suf) = CHR ''/'' # suf"
    by (induction addr) auto
  then show ?thesis by (simp add: Cut_def)
qed

text \<open>
  C31: The networks of \<open>TRUSTED_PROXIES\<close>. An entry \<open>addr/n\<close> is accepted exactly if the address
  is one and \<open>n\<close> is a number of at most 32 or 128 bits, as the address has; and the network made of it
  contains exactly the addresses of the same kind with the same first bits.
\<close>

theorem cidr_exact:
  assumes "CHR ''/'' \<notin> set addr" "ParseIP other = Some ip2"
  shows "case proxy_entry (addr @ ''/'' @ suf) of
      Inl e \<Rightarrow> (case ParseAddr addr of None \<Rightarrow> True | Some (ip, bits) \<Rightarrow>
        (case mask_bits suf of None \<Rightarrow> True | Some n \<Rightarrow> bits < n))
    | Inr network \<Rightarrow> (\<exists>ip bits n. ParseAddr addr = Some (ip, bits) \<and> mask_bits suf = Some n \<and> n \<le> bits
        \<and> (Contains network ip2 \<longleftrightarrow>
             (is_v4 ip2 \<longleftrightarrow> is_v4 ip \<and> 96 \<le> prefix_length bits n)
           \<and> take (prefix_length bits n) (bits_of ip2) = take (prefix_length bits n) (bits_of ip)))"
proof -
  note cut = Cut_slash[OF assms(1)]
  have entry: "proxy_entry (addr @ CHR ''/'' # suf) =
     (case ParseCIDR (addr @ CHR ''/'' # suf) of None \<Rightarrow> Inl (proxy_error (addr @ CHR ''/'' # suf)) | Some network \<Rightarrow> Inr network)"
    by (simp add: proxy_entry_def cong: option.case_cong)
  show ?thesis
  proof (cases "\<exists>ip bits n. ParseAddr addr = Some (ip, bits) \<and> mask_bits suf = Some n \<and> n \<le> bits")
    case False
    then have "ParseCIDR (addr @ ''/'' @ suf) = None" by (auto simp: ParseCIDR_def cut split: option.splits)
    then show ?thesis using False by (auto simp: entry split: option.splits)
  next
    case True
    then obtain ip bits n where a: "ParseAddr addr = Some (ip, bits)" "mask_bits suf = Some n" "n \<le> bits" by blast
    note s = ParseAddr_shape[OF a(1)] and l2 = ParseIP_length[OF assms(2)]
    then consider (v4) "bits = 32" "take 12 ip = v4InV6Prefix" | (v6) "bits = 128" by blast
    then show ?thesis
    proof cases
      case v4
      have "Mask ip (CIDRMask n 32) = Some (map2 (AND) (drop 12 ip) (CIDRMask n 32))"
        using s v4 by (simp add: Mask_def CIDRMask_length)
      then show ?thesis using a v4 s contains_masked_v4[of ip n ip2] l2
        by (simp add: entry ParseCIDR_def cut is_v4_16 prefix_length_def)
    next
      case v6
      have "Mask ip (CIDRMask n 128) = Some (map2 (AND) ip (CIDRMask n 128))"
        using s v6 by (simp add: Mask_def CIDRMask_length)
      then show ?thesis using a v6 s contains_masked_v6[of ip n ip2] l2
        by (simp add: entry ParseCIDR_def cut prefix_length_def)
    qed
  qed
qed

theorem cidr_exact_witness:
  "\<exists>network. proxy_entry (''10.0.0.0'' @ ''/'' @ ''8'') = Inr network
     \<and> \<not> Contains network [0, 0, 0, 0, 0, 0, 0, 0, 0, 0, 255, 255, 192, 0, 2, 1]"
proof -
  have p: "ParseAddr ''10.0.0.0'' = Some ([0, 0, 0, 0, 0, 0, 0, 0, 0, 0, 255, 255, 10, 0, 0, 0], 32)"
    "mask_bits ''8'' = Some 8" "\<not> isl (proxy_entry (''10.0.0.0'' @ ''/'' @ ''8''))"
    "take 104 (bits_of [0, 0, 0, 0, 0, 0, 0, 0, 0, 0, 255, 255, 192, 0, 2, 1])
       \<noteq> take 104 (bits_of [0, 0, 0, 0, 0, 0, 0, 0, 0, 0, 255, 255, 10, 0, 0, 0])"
    by code_simp+
  then show ?thesis
    using cidr_exact[of "''10.0.0.0''" "''192.0.2.1''" "[0, 0, 0, 0, 0, 0, 0, 0, 0, 0, 255, 255, 192, 0, 2, 1]" "''8''"]
    by (cases "proxy_entry (''10.0.0.0'' @ ''/'' @ ''8'')") (auto simp: ten_net_examples(6) prefix_length_def)
qed

end
