(* ===== verification/Logging.thy ===== *)
theory Logging
  imports Responses Config
begin

text \<open>
  The log of the server: the fields of server/internal/core/port/logger.go, the adapter to zap
  (server/internal/adapters/logger/zap\_adapter.go), the lines that \<open>WriteError\<close> writes
  (server/internal/transport/http/handler/response.go) and the middleware \<open>RequestLogger\<close>
  (server/internal/transport/http/controller/controller.go). No result of the use cases depends on
  the log, so their own lines are left out of the programs; here are the lines that say what happened
  to a request.
\<close>

section \<open>Fields\<close>

text \<open>
  A value in a field of type \<open>any\<close>: its dynamic type, and what its methods \<open>Error\<close> and
  \<open>String\<close> are, if it has them. The nil interface is \<open>None\<close>.
\<close>

datatype dynamic =
  Go_string string | Go_int int | Go_int64 int | Go_bool bool | Go_Duration duration | Go_Time time | Go_other

record go_value =
  dyn :: dynamic
  as_error :: "err option"
  as_Stringer :: "string option"

record Field =
  Key :: string
  Value :: "go_value option"

definition value_of :: "dynamic \<Rightarrow> go_value" where
  "value_of d = \<lparr>dyn = d, as_error = None, as_Stringer = None\<rparr>"

definition port_Str :: "string \<Rightarrow> string \<Rightarrow> Field" where
  "port_Str k v = \<lparr>Key = k, Value = Some (value_of (Go_string v))\<rparr>"

definition port_Int :: "string \<Rightarrow> int \<Rightarrow> Field" where
  "port_Int k v = \<lparr>Key = k, Value = Some (value_of (Go_int v))\<rparr>"

definition port_Int64 :: "string \<Rightarrow> int \<Rightarrow> Field" where
  "port_Int64 k v = \<lparr>Key = k, Value = Some (value_of (Go_int64 v))\<rparr>"

definition port_Bool :: "string \<Rightarrow> bool \<Rightarrow> Field" where
  "port_Bool k v = \<lparr>Key = k, Value = Some (value_of (Go_bool v))\<rparr>"

text \<open>A duration has a method \<open>String\<close> too; its text is \<open>t\<close>.\<close>

definition port_Duration :: "string \<Rightarrow> duration \<Rightarrow> string \<Rightarrow> Field" where
  "port_Duration k v t = \<lparr>Key = k, Value = Some \<lparr>dyn = Go_Duration v, as_error = None, as_Stringer = Some t\<rparr>\<rparr>"

definition port_Err :: "err option \<Rightarrow> Field" where
  "port_Err e = \<lparr>Key = ''error'',
     Value = map_option (\<lambda>e. \<lparr>dyn = Go_other, as_error = Some e, as_Stringer = None\<rparr>) e\<rparr>"

definition port_Any :: "string \<Rightarrow> go_value option \<Rightarrow> Field" where
  "port_Any k v = \<lparr>Key = k, Value = v\<rparr>"

section \<open>The adapter\<close>

text \<open>The constructors of fields that zap has, each with the arguments it is called with.\<close>

datatype zap_field =
    zap_Any string "go_value option"
  | zap_NamedError string err
  | zap_String string string
  | zap_Int string int
  | zap_Int64 string int
  | zap_Bool string bool
  | zap_Duration string duration
  | zap_Time string time
  | zap_Stringer string string

text \<open>The cases of the type switch, in their order: an error first, the interface \<open>Stringer\<close> last.\<close>

definition zapField :: "Field \<Rightarrow> zap_field" where
  "zapField f =
     (case Value f of
        None \<Rightarrow> zap_Any (Key f) None
      | Some v \<Rightarrow>
     (case as_error v of
        Some e \<Rightarrow> zap_NamedError (Key f) e
      | None \<Rightarrow>
     (case dyn v of
        Go_string s \<Rightarrow> zap_String (Key f) s
      | Go_int i \<Rightarrow> zap_Int (Key f) i
      | Go_int64 i \<Rightarrow> zap_Int64 (Key f) i
      | Go_bool b \<Rightarrow> zap_Bool (Key f) b
      | Go_Duration d \<Rightarrow> zap_Duration (Key f) d
      | Go_Time t \<Rightarrow> zap_Time (Key f) t
      | Go_other \<Rightarrow>
     (case as_Stringer v of
        Some s \<Rightarrow> zap_Stringer (Key f) s
      | None \<Rightarrow> zap_Any (Key f) (Some v)))))"

fun zapFields_loop :: "Field list \<Rightarrow> zap_field list \<Rightarrow> zap_field list" where
  "zapFields_loop [] out = out"
| "zapFields_loop (f # fs) out = zapFields_loop fs (out @ [zapField f])"

definition zapFields :: "Field list \<Rightarrow> zap_field list" where
  "zapFields fs = zapFields_loop fs []"

text \<open>A call of the logger of zap: the method, the message and the fields.\<close>

datatype level = Debug | Info | Warn | ErrorLevel

text \<open>From the least severe to the most.\<close>

instantiation level :: linorder
begin

primrec severity :: "level \<Rightarrow> nat" where
  "severity Debug = 0"
| "severity Info = 1"
| "severity Warn = 2"
| "severity ErrorLevel = 3"

definition less_eq_level :: "level \<Rightarrow> level \<Rightarrow> bool" where
  "less_eq_level a b \<longleftrightarrow> severity a \<le> severity b"

definition less_level :: "level \<Rightarrow> level \<Rightarrow> bool" where
  "less_level a b \<longleftrightarrow> severity a < severity b"

instance
proof
  show "a \<le> b \<Longrightarrow> b \<le> a \<Longrightarrow> a = b" for a b :: level
    by (cases a; cases b) (simp_all add: less_eq_level_def)
qed (auto simp: less_eq_level_def less_level_def)

end

record line =
  ln_level :: level
  ln_msg :: string
  ln_fields :: "zap_field list"

record port_Logger =
  lg_Debug :: "string \<Rightarrow> Field list \<Rightarrow> line"
  lg_Info :: "string \<Rightarrow> Field list \<Rightarrow> line"
  lg_Warn :: "string \<Rightarrow> Field list \<Rightarrow> line"
  lg_Error :: "string \<Rightarrow> Field list \<Rightarrow> line"

definition Adapter_log :: "level \<Rightarrow> string \<Rightarrow> Field list \<Rightarrow> line" where
  "Adapter_log l msg fs = \<lparr>ln_level = l, ln_msg = msg, ln_fields = zapFields fs\<rparr>"

definition logger_New :: port_Logger where
  "logger_New = \<lparr>lg_Debug = Adapter_log Debug, lg_Info = Adapter_log Info, lg_Warn = Adapter_log Warn,
     lg_Error = Adapter_log ErrorLevel\<rparr>"

definition provideLogger :: port_Logger where
  "provideLogger = logger_New"

text \<open>
  The logger that is built from the configuration. What zap does is a parameter: reading the name of
  a level, and building a logger from its own configuration, of which the code chooses the preset and
  the level.
\<close>

record 'lvl zap_config =
  zc_production :: bool
  zc_Level :: 'lvl
  zc_Stacktrace :: level

record ('lvl, 'z) zap_lib =
  ParseLevel :: "string \<Rightarrow> err + 'lvl"
  Build :: "'lvl zap_config \<Rightarrow> err + 'z"

definition NewZapLogger :: "('lvl, 'z) zap_lib \<Rightarrow> Config \<Rightarrow> err + 'z" where
  "NewZapLogger lib cfg =
     (case ParseLevel lib (cf_LogLevel cfg) of
        Inl e \<Rightarrow> Inl (Wrapf (''invalid LOG_LEVEL '' @ quoted (cf_LogLevel cfg) @ '': '') e '''')
      | Inr lvl \<Rightarrow>
     (case Build lib \<lparr>zc_production = IsProduction cfg, zc_Level = lvl, zc_Stacktrace = ErrorLevel\<rparr> of
        Inl e \<Rightarrow> Inl (Wrapf ''build zap logger: '' e '''')
      | Inr z \<Rightarrow> Inr z))"

section \<open>The lines about requests\<close>

text \<open>The line that \<open>WriteError\<close> writes before it answers.\<close>

definition WriteError_line :: "port_Logger \<Rightarrow> err \<Rightarrow> line" where
  "WriteError_line log e =
     (let status = StatusCode e in
      if 500 \<le> status then lg_Error log ''request failed'' [port_Err (Some e), port_Int ''status'' (int status)]
      else lg_Warn log ''request rejected'' [port_Err (Some e), port_Int ''status'' (int status)])"

text \<open>
  The middleware around the router: the clock is read before and after the request. The identifier
  of the request is the one chi put into its context, and \<open>text_of\<close> is \<open>Duration.String\<close>.
\<close>

definition RequestLogger ::
  "Env \<Rightarrow> port_Logger \<Rightarrow> (duration \<Rightarrow> string) \<Rightarrow> string \<Rightarrow> (http_request \<Rightarrow> (world, response) prog) \<Rightarrow>
    http_request \<Rightarrow> (world, response \<times> line) prog" where
  "RequestLogger E log text_of request_id next_handler hr =
     pbind (time_Now E) (\<lambda>start.
     pbind (next_handler hr) (\<lambda>rs.
     pbind (time_Now E) (\<lambda>now.
       let since = Sub now start in
       Done (rs, lg_Info log ''http request''
         [port_Str ''method'' (hr_method hr), port_Str ''path'' (hr_path hr),
          port_Int ''status'' (int (rs_status rs)), port_Duration ''duration'' since (text_of since),
          port_Str ''request_id'' request_id]))))"

section \<open>What the lines say\<close>

lemma zapFields_eq: "zapFields fs = map zapField fs"
proof -
  have "zapFields_loop fs out = out @ map zapField fs" for out
    by (induction fs arbitrary: out) simp_all
  then show ?thesis by (simp add: zapFields_def)
qed

lemmas port_fields = port_Str_def port_Int_def port_Int64_def port_Bool_def port_Duration_def port_Err_def
  value_of_def zapField_def

text \<open>The helpers of the port keep the type of what they are given, and an error stays an error.\<close>

lemma zapField_port [simp]:
  "zapField (port_Str k s) = zap_String k s"
  "zapField (port_Int k i) = zap_Int k i"
  "zapField (port_Int64 k i) = zap_Int64 k i"
  "zapField (port_Bool k b) = zap_Bool k b"
  "zapField (port_Duration k d t) = zap_Duration k d"
  "zapField (port_Err (Some e)) = zap_NamedError ''error'' e"
  "zapField (port_Err None) = zap_Any ''error'' None"
  by (simp_all add: port_fields)

lemma adapter_lines [simp]:
  "lg_Debug logger_New m fs = \<lparr>ln_level = Debug, ln_msg = m, ln_fields = map zapField fs\<rparr>"
  "lg_Info logger_New m fs = \<lparr>ln_level = Info, ln_msg = m, ln_fields = map zapField fs\<rparr>"
  "lg_Warn logger_New m fs = \<lparr>ln_level = Warn, ln_msg = m, ln_fields = map zapField fs\<rparr>"
  "lg_Error logger_New m fs = \<lparr>ln_level = ErrorLevel, ln_msg = m, ln_fields = map zapField fs\<rparr>"
  by (simp_all add: logger_New_def Adapter_log_def zapFields_eq)

text \<open>The logger adds a stack trace to the lines of errors and to no others.\<close>

lemma NewZapLogger_config:
  assumes "NewZapLogger lib cfg = Inr z"
  shows "\<exists>lvl. ParseLevel lib (cf_LogLevel cfg) = Inr lvl
    \<and> (\<exists>zc. Build lib zc = Inr z \<and> zc_Level zc = lvl \<and> (zc_production zc \<longleftrightarrow> cf_Env cfg = ''production'')
         \<and> (\<forall>l. zc_Stacktrace zc \<le> ln_level l \<longleftrightarrow> ln_level l = ErrorLevel))"
proof -
  have "ErrorLevel \<le> a \<longleftrightarrow> a = ErrorLevel" for a by (cases a) (simp_all add: less_eq_level_def)
  then show ?thesis using assms by (fastforce simp: NewZapLogger_def IsProduction_def split: sum.splits)
qed

text \<open>The middleware only watches: the response is the one of the router, and the line tells its status.\<close>

lemma RequestLogger_run:
  assumes "run (RequestLogger E logger_New text_of request_id (ServeHTTP chi s) hr) w = ((rs, l), w')"
  shows "\<exists>w1. run (ServeHTTP chi s hr) (w\<lparr>ticks := Suc (ticks w)\<rparr>) = (rs, w1) \<and> w' = w1\<lparr>ticks := Suc (ticks w1)\<rparr>
    \<and> l = \<lparr>ln_level = Info, ln_msg = ''http request'', ln_fields =
        [zap_String ''method'' (hr_method hr), zap_String ''path'' (hr_path hr), zap_Int ''status'' (int (rs_status rs)),
         zap_Duration ''duration'' (Sub (now_at E (ticks w1)) (now_at E (ticks w))), zap_String ''request_id'' request_id]\<rparr>"
  using assms by (auto simp: RequestLogger_def run_simps Let_def split: prod.splits)

text \<open>
  C15: What the client is not told, the log is. For every error, \<open>WriteError\<close> logs one line with the
  error itself, its whole chain of causes included, and the status it answers with; the line has the
  level of errors exactly for internal errors, and to those the response is one fixed text.
\<close>

theorem errors_logged:
  "let l = WriteError_line logger_New e; rs = WriteError e in
     ln_fields l = [zap_NamedError ''error'' e, zap_Int ''status'' (int (rs_status rs))]
     \<and> ln_level l = (if KindOf e = KindInternal then ErrorLevel else Warn)
     \<and> (KindOf e = KindInternal \<longleftrightarrow> rs_status rs = 500)
     \<and> (KindOf e = KindInternal \<and> DetailsOf e = [] \<longrightarrow> rs = internal_error)"
  by (cases "KindOf e")
    (simp_all add: WriteError_line_def WriteError_def StatusCode_def StatusText_def Let_def marshal_ErrorResponse_def
      WriteJSON_def internal_error_def)

theorem errors_logged_witness:
  "let e = Wrap (PgError ''40001'' ''serialization failure'') ''could not store agent'' in
     zap_NamedError ''error'' e \<in> set (ln_fields (WriteError_line logger_New e)) \<and> WriteError e = internal_error"
  using errors_logged[of "Wrap (PgError ''40001'' ''serialization failure'') ''could not store agent''"] by (simp add: Let_def)

end
