(* ===== verification/Lifecycle.thy ===== *)
theory Lifecycle
  imports Logging SampleServer
begin

text \<open>
  The life of the process (server/cmd/api/main.go): opening the database and running the migrations
  (server/internal/adapters/postgres/db.go), the hooks that the constructors leave for the start and
  the stop, and the job that removes expired tokens, as a state machine beside the requests. The
  libraries (pgx, goose, zap, the listener of \<open>net/http\<close>) are parameters that say which of their
  calls fail; fx, which calls the constructors and the hooks, is outside.
\<close>

section \<open>Resources\<close>

text \<open>What the code sets of the configuration of a pool, and the connection string it came from.\<close>

record pool_config =
  ConnString :: string
  MaxConns :: int
  MaxConnLifetime :: duration

datatype hook = LoggerHook | PoolHook nat | ServerHook string string | CleanupHook

text \<open>
  The pools that were made and the handles of \<open>database/sql\<close>, each open or closed; the hooks
  appended so far; the lines logged; the address listened on; whether the job runs and was cancelled.
\<close>

record resources =
  pools :: "(pool_config \<times> bool) list"
  sql_dbs :: "bool list"
  hooks :: "hook list"
  logged :: "line list"
  serving :: "string option"
  job_started :: bool
  job_cancelled :: bool

record process_lib =
  ParseConfig :: "string \<Rightarrow> err + pool_config"
  NewWithConfig :: "pool_config \<Rightarrow> err option"
  Ping :: "pool_config \<Rightarrow> err option"
  SetDialect :: "string \<Rightarrow> err option"
  UpContext :: "pool_config \<Rightarrow> string \<Rightarrow> err option"
  Listen :: "string \<Rightarrow> err option"
  Shutdown :: "string option \<Rightarrow> err option"

definition poolMaxConns :: int where "poolMaxConns = 25"

definition connMaxLifetime :: duration where "connMaxLifetime = 30 * Minute"

definition close_pool :: "nat \<Rightarrow> resources \<Rightarrow> resources" where
  "close_pool i st = st\<lparr>pools := (pools st)[i := (fst (pools st ! i), False)]\<rparr>"

definition append_hook :: "hook \<Rightarrow> resources \<Rightarrow> resources" where
  "append_hook h st = st\<lparr>hooks := hooks st @ [h]\<rparr>"

definition write_line :: "line \<Rightarrow> resources \<Rightarrow> resources" where
  "write_line l st = st\<lparr>logged := logged st @ [l]\<rparr>"

section \<open>The database\<close>

text \<open>The result names the pool by its position among those made.\<close>

definition Open :: "process_lib \<Rightarrow> string \<Rightarrow> resources \<Rightarrow> (err + nat) \<times> resources" where
  "Open lib databaseURL st =
     (case ParseConfig lib databaseURL of
        Inl e \<Rightarrow> (Inl (Wrapf ''parse postgres url: '' e ''''), st)
      | Inr cfg \<Rightarrow>
     let cfg = cfg\<lparr>MaxConns := poolMaxConns, MaxConnLifetime := connMaxLifetime\<rparr> in
     case NewWithConfig lib cfg of
        Some e \<Rightarrow> (Inl (Wrapf ''open postgres: '' e ''''), st)
      | None \<Rightarrow>
     let pool = length (pools st); st = st\<lparr>pools := pools st @ [(cfg, True)]\<rparr> in
     case Ping lib cfg of
        Some e \<Rightarrow> (Inl (Wrapf ''ping postgres: '' e ''''), close_pool pool st)
      | None \<Rightarrow> (Inr pool, st))"

text \<open>The handle on the pool is closed again on every path.\<close>

definition Migrate :: "process_lib \<Rightarrow> nat \<Rightarrow> resources \<Rightarrow> err option \<times> resources" where
  "Migrate lib pool st =
     (let db = length (sql_dbs st);
          opened = st\<lparr>sql_dbs := sql_dbs st @ [True]\<rparr>;
          result = (case SetDialect lib ''postgres'' of
             Some e \<Rightarrow> Some (Wrapf ''set goose dialect: '' e '''')
           | None \<Rightarrow>
          case UpContext lib (fst (pools st ! pool)) ''migrations'' of
             Some e \<Rightarrow> Some (Wrapf ''apply migrations: '' e '''')
           | None \<Rightarrow> None)
      in (result, opened\<lparr>sql_dbs := (sql_dbs opened)[db := False]\<rparr>))"

section \<open>Constructors and hooks\<close>

definition newZapLogger :: "('lvl, 'z) zap_lib \<Rightarrow> Config \<Rightarrow> resources \<Rightarrow> (err + 'z) \<times> resources" where
  "newZapLogger zl cfg st =
     (case NewZapLogger zl cfg of Inl e \<Rightarrow> (Inl e, st) | Inr z \<Rightarrow> (Inr z, append_hook LoggerHook st))"

text \<open>The repositories are named by their pool.\<close>

definition provideRepositories ::
  "process_lib \<Rightarrow> port_Logger \<Rightarrow> Config \<Rightarrow> resources \<Rightarrow> (err + nat) \<times> resources" where
  "provideRepositories lib log cfg st =
     (case Open lib (cf_DatabaseURL cfg) st of
        (Inl e, st) \<Rightarrow> (Inl e, st)
      | (Inr pool, st) \<Rightarrow>
     case Migrate lib pool (append_hook (PoolHook pool) st) of
        (Some e, st) \<Rightarrow> (Inl e, st)
      | (None, st) \<Rightarrow> (Inr pool, write_line (lg_Info log ''postgres storage ready'' []) st))"

definition newHTTPServer :: "Config \<Rightarrow> resources \<Rightarrow> resources" where
  "newHTTPServer cfg st = append_hook (ServerHook ('':'' @ cf_Port cfg) (cf_Env cfg)) st"

definition provideUserTokenCleanup :: "resources \<Rightarrow> resources" where
  "provideUserTokenCleanup st = append_hook CleanupHook st"

text \<open>What the hooks do; the goroutines they start are the requests and the job below.\<close>

fun OnStart :: "process_lib \<Rightarrow> port_Logger \<Rightarrow> hook \<Rightarrow> resources \<Rightarrow> err option \<times> resources" where
  "OnStart lib log LoggerHook st = (None, st)"
| "OnStart lib log (PoolHook pool) st = (None, st)"
| "OnStart lib log (ServerHook addr env) st =
     (case Listen lib addr of
        Some e \<Rightarrow> (Some (Wrapf (''listen on '' @ addr @ '': '') e ''''), st)
      | None \<Rightarrow>
          (None, write_line (lg_Info log ''http server listening'' [port_Str ''address'' addr, port_Str ''env'' env])
             (st\<lparr>serving := Some addr\<rparr>)))"
| "OnStart lib log CleanupHook st = (None, st\<lparr>job_started := True\<rparr>)"

fun OnStop :: "process_lib \<Rightarrow> port_Logger \<Rightarrow> hook \<Rightarrow> resources \<Rightarrow> err option \<times> resources" where
  "OnStop lib log LoggerHook st = (None, st)"
| "OnStop lib log (PoolHook pool) st = (None, close_pool pool st)"
| "OnStop lib log (ServerHook addr env) st =
     (map_option (\<lambda>e. Wrapf ''shutdown http server: '' e '''') (Shutdown lib (serving st)),
      (write_line (lg_Info log ''shutting down http server'' []) st)\<lparr>serving := None\<rparr>)"
| "OnStop lib log CleanupHook st = (None, st\<lparr>job_cancelled := True\<rparr>)"

text \<open>
  The constructors with hooks in the order of their dependencies: the repositories need the logger,
  the server needs the repositories, and the job is invoked last.
\<close>

definition boot :: "('lvl, 'z) zap_lib \<Rightarrow> process_lib \<Rightarrow> Config \<Rightarrow> resources \<Rightarrow> err option \<times> resources" where
  "boot zl lib cfg st =
     (case newZapLogger zl cfg st of
        (Inl e, st) \<Rightarrow> (Some e, st)
      | (Inr z, st) \<Rightarrow>
     case provideRepositories lib provideLogger cfg st of
        (Inl e, st) \<Rightarrow> (Some e, st)
      | (Inr pool, st) \<Rightarrow> (None, provideUserTokenCleanup (newHTTPServer cfg st)))"

section \<open>What is open\<close>

definition open_pools :: "resources \<Rightarrow> nat list" where
  "open_pools st = filter (\<lambda>i. snd (pools st ! i)) [0..<length (pools st)]"

text \<open>The hooks run one after another; a failing hook does not keep the others from running.\<close>

definition run_stop :: "process_lib \<Rightarrow> port_Logger \<Rightarrow> hook list \<Rightarrow> resources \<Rightarrow> resources" where
  "run_stop lib log hs st = foldl (\<lambda>st h. snd (OnStop lib log h st)) st hs"

lemma open_pools_iff: "i \<in> set (open_pools st) \<longleftrightarrow> i < length (pools st) \<and> snd (pools st ! i)"
  by (auto simp: open_pools_def)

lemma resources_simps [simp]:
  "pools (append_hook h st) = pools st" "pools (write_line l st) = pools st"
  "hooks (append_hook h st) = hooks st @ [h]" "hooks (write_line l st) = hooks st" "hooks (close_pool i st) = hooks st"
  "sql_dbs (append_hook h st) = sql_dbs st" "sql_dbs (write_line l st) = sql_dbs st" "sql_dbs (close_pool i st) = sql_dbs st"
  "serving (append_hook h st) = serving st" "serving (write_line l st) = serving st" "serving (close_pool i st) = serving st"
  "length (pools (close_pool i st)) = length (pools st)"
  by (simp_all add: append_hook_def write_line_def close_pool_def)

lemma close_pool_nth [simp]:
  "j < length (pools st) \<Longrightarrow> pools (close_pool i st) ! j = (if j = i then (fst (pools st ! i), False) else pools st ! j)"
  by (simp add: close_pool_def nth_list_update)

lemma open_pools_congs [simp]:
  "open_pools (append_hook h st) = open_pools st" "open_pools (write_line l st) = open_pools st"
  "open_pools (st\<lparr>serving := a\<rparr>) = open_pools st" "open_pools (st\<lparr>job_cancelled := b\<rparr>) = open_pools st"
  "open_pools (st\<lparr>sql_dbs := d\<rparr>) = open_pools st"
  by (simp_all add: open_pools_def)

lemma stop_pools:
  "length (pools (snd (OnStop lib log h st))) = length (pools st)"
  "set (open_pools (snd (OnStop lib log h st))) = {i \<in> set (open_pools st). h \<noteq> PoolHook i}"
  by (cases h; auto simp: open_pools_iff split: if_splits)+

lemma run_stop_pools: "set (open_pools (run_stop lib log hs st)) = {i \<in> set (open_pools st). PoolHook i \<notin> set hs}"
proof (induction hs arbitrary: st)
  case (Cons h hs)
  then show ?case by (auto simp: run_stop_def stop_pools(2))
qed (simp add: run_stop_def)

text \<open>Opening: one pool more that is open, with the limits of the code, or none.\<close>

lemma Open_outcome:
  assumes "Open lib url st = (r, st')"
  shows "hooks st' = hooks st \<and> sql_dbs st' = sql_dbs st \<and> serving st' = serving st \<and>
    (case r of
       Inl e \<Rightarrow> set (open_pools st') = set (open_pools st)
     | Inr pool \<Rightarrow> pool \<notin> set (open_pools st) \<and> set (open_pools st') = insert pool (set (open_pools st))
         \<and> (\<exists>cfg. ParseConfig lib url = Inr cfg
              \<and> fst (pools st' ! pool) = cfg\<lparr>MaxConns := 25, MaxConnLifetime := 30 * Minute\<rparr>
              \<and> Ping lib (fst (pools st' ! pool)) = None))"
proof (cases "ParseConfig lib url")
  case (Inr cfg)
  let ?cfg = "cfg\<lparr>MaxConns := 25, MaxConnLifetime := 30 * Minute\<rparr>"
  have grown: "set (open_pools (st\<lparr>pools := pools st @ [(c, True)]\<rparr>)) = insert (length (pools st)) (set (open_pools st))"
    and shut: "set (open_pools (close_pool (length (pools st)) (st\<lparr>pools := pools st @ [(c, True)]\<rparr>))) = set (open_pools st)"
    for c by (auto simp: open_pools_iff nth_append less_Suc_eq split: if_splits)
  have "length (pools st) \<notin> set (open_pools st)" by (simp add: open_pools_iff)
  then show ?thesis
    using assms Inr grown shut
    by (auto simp: Open_def Let_def poolMaxConns_def connMaxLifetime_def split: option.splits)
qed (use assms in \<open>auto simp: Open_def\<close>)

lemma Migrate_outcome:
  assumes "Migrate lib pool st = (r, st')"
  shows "open_pools st' = open_pools st \<and> hooks st' = hooks st \<and> sql_dbs st' = sql_dbs st @ [False]
    \<and> serving st' = serving st \<and> (r = None \<longleftrightarrow> SetDialect lib ''postgres'' = None
        \<and> UpContext lib (fst (pools st ! pool)) ''migrations'' = None)"
proof -
  have "(sql_dbs st @ [True])[length (sql_dbs st) := False] = sql_dbs st @ [False]" by simp
  then show ?thesis using assms by (auto simp: Migrate_def Let_def split: option.splits)
qed

section \<open>Properties\<close>

text \<open>
  C36: No database pool outlives the process. However the opening of the database and the migrations
  end, once the stop hooks that were appended have run, in any order and among any others, every pool
  the code made is closed, and every handle it made for the migrations is closed at once. A success
  means an open pool for the configured address with the limits of the code, which answered the ping,
  and that the migrations were applied.
\<close>

theorem pools_closed_at_stop:
  assumes "provideRepositories lib log cfg st = (r, st')" "set (hooks st') \<subseteq> set hs"
  shows "set (open_pools (run_stop lib log hs st')) \<subseteq> set (open_pools st)
    \<and> (\<exists>closed. sql_dbs st' = sql_dbs st @ closed \<and> True \<notin> set closed)
    \<and> (case r of
         Inl e \<Rightarrow> True
       | Inr pool \<Rightarrow> pool \<in> set (open_pools st')
           \<and> (\<exists>pc. ParseConfig lib (cf_DatabaseURL cfg) = Inr pc
             \<and> (let c = pc\<lparr>MaxConns := 25, MaxConnLifetime := 30 * Minute\<rparr> in
                 Ping lib c = None \<and> SetDialect lib ''postgres'' = None \<and> UpContext lib c ''migrations'' = None)))"
proof -
  obtain ro st1 where o: "Open lib (cf_DatabaseURL cfg) st = (ro, st1)" by fastforce
  note O = Open_outcome[OF o]
  show ?thesis
  proof (cases ro)
    case (Inl e)
    then show ?thesis using O o assms(1) by (auto simp: provideRepositories_def run_stop_pools)
  next
    case (Inr pool)
    obtain rm st2 where m: "Migrate lib pool (append_hook (PoolHook pool) st1) = (rm, st2)" by fastforce
    note M = Migrate_outcome[OF m]
    have st': "hooks st' = hooks st2" "sql_dbs st' = sql_dbs st2" "open_pools st' = open_pools st2" "isl r \<longleftrightarrow> rm \<noteq> None"
      "r = Inr p \<Longrightarrow> p = pool" for p
      using assms(1) o Inr m by (auto simp: provideRepositories_def split: option.splits)
    have "PoolHook pool \<in> set hs" using st'(1) M assms(2) by auto
    then have "set (open_pools (run_stop lib log hs st')) \<subseteq> set (open_pools st)"
      using O Inr M st'(3) by (auto simp: run_stop_pools)
    moreover have "\<exists>closed. sql_dbs st' = sql_dbs st @ closed \<and> True \<notin> set closed" using O M st'(2) by auto
    ultimately show ?thesis using O Inr M st' by (cases r) (auto simp: Let_def)
  qed
qed

text \<open>An instance: a library whose migrations fail, and the hook that closes the pool.\<close>

definition failing_lib :: process_lib where
  "failing_lib = \<lparr>ParseConfig = (\<lambda>url. Inr \<lparr>ConnString = url, MaxConns = 4, MaxConnLifetime = Hour\<rparr>),
     NewWithConfig = (\<lambda>c. None), Ping = (\<lambda>c. None), SetDialect = (\<lambda>d. None),
     UpContext = (\<lambda>c dir. Some (Plain ''syntax error'')), Listen = (\<lambda>a. None), Shutdown = (\<lambda>a. None)\<rparr>"

definition no_resources :: resources where
  "no_resources = \<lparr>pools = [], sql_dbs = [], hooks = [], logged = [], serving = None, job_started = False,
     job_cancelled = False\<rparr>"

theorem pools_closed_at_stop_witness:
  "\<exists>e st'. provideRepositories failing_lib logger_New sample_cfg no_resources = (Inl e, st')
     \<and> open_pools st' = [0] \<and> open_pools (run_stop failing_lib logger_New [PoolHook 0] st') = []"
proof -
  obtain e st' where r: "provideRepositories failing_lib logger_New sample_cfg no_resources = (Inl e, st')"
    and p: "open_pools st' = [0]" "hooks st' = [PoolHook 0]"
    by (simp add: provideRepositories_def Open_def Migrate_def failing_lib_def no_resources_def append_hook_def Let_def
        open_pools_def)
  then show ?thesis
    using pools_closed_at_stop[OF r, of "[PoolHook 0]"] by (simp add: no_resources_def open_pools_def)
qed

end
