(* ===== verification/ServerProperties.thy ===== *)
theory ServerProperties
  imports SampleServer LimiterProperties
begin

text \<open>
  Properties of the running server: any number of requests and rounds of the cleanup job,
  interleaved action by action in any order.
\<close>

section \<open>Laws of the traffic\<close>

lemma traffic_ok:
  assumes "p \<in> traffic chi s"
    and "\<And>hr. prog_ok R Q (ServeHTTP chi s hr)" and "prog_ok R (\<lambda>_. True) (UserTokenRepository_DeleteExpired (sv_env s))"
  shows "prog_ok R (\<lambda>out. case out of None \<Rightarrow> True | Some rs \<Rightarrow> Q rs) p"
  using assms(1)
proof cases
  case (serving hr)
  then show ?thesis by (auto intro: prog_ok_pbind[OF assms(2)])
next
  case cleaning
  have "prog_ok R (\<lambda>_. True) (cleanup_round (sv_env s))"
    by (auto simp: cleanup_round_def NewUserTokenRepository_def intro: prog_ok_pbind[OF assms(3)])
  then show ?thesis using cleaning by (auto intro: prog_ok_pbind)
qed

lemma traffic_trivial:
  assumes "prog_ok R (\<lambda>_. True) p" shows "prog_ok R (\<lambda>out. case out of None \<Rightarrow> True | Some rs \<Rightarrow> True) p"
  using assms by (rule prog_ok_mono) (simp split: option.splits)

lemma traffic_safe:
  assumes "env_ok E" "\<And>p t. quiet (verifier p t)"
  shows "p \<in> traffic chi (assemble L E verifier cfg) \<Longrightarrow>
    prog_ok (safe_law E verifier) (\<lambda>out. case out of None \<Rightarrow> True | Some rs \<Rightarrow> True) p"
proof (erule traffic_ok)
  show "prog_ok (safe_law E verifier) (\<lambda>_. True) (ServeHTTP chi (assemble L E verifier cfg) hr)" for hr
    by (rule safe.server_ok) (rule assemble_services)+
  show "prog_ok (safe_law E verifier) (\<lambda>_. True)
      (UserTokenRepository_DeleteExpired (sv_env (assemble L E verifier cfg)))"
    using ok_tokens(4)[OF assms(1)] by (simp add: assemble_services safe_law_when)
qed

lemma traffic_capped:
  "p \<in> traffic chi (assemble L E verifier cfg) \<Longrightarrow>
    prog_ok (when_quiet verifier (cap_law (cf_MaxAgentsPerUser cfg))) (\<lambda>out. case out of None \<Rightarrow> True | Some rs \<Rightarrow> True) p"
proof (erule traffic_ok)
  have c: "MaxAgentsPerUser (provideAuthConfig cfg) = cf_MaxAgentsPerUser cfg" by (simp add: provideAuthConfig_def)
  show "prog_ok (when_quiet verifier (cap_law (cf_MaxAgentsPerUser cfg))) (\<lambda>_. True)
      (ServeHTTP chi (assemble L E verifier cfg) hr)" for hr
    unfolding c[symmetric] by (rule capped.server_ok) (rule assemble_services)+
  show "prog_ok (when_quiet verifier (cap_law (cf_MaxAgentsPerUser cfg))) (\<lambda>_. True)
      (UserTokenRepository_DeleteExpired (sv_env (assemble L E verifier cfg)))"
    by (simp add: assemble_services quiet_when cap_tokens)
qed

lemma traffic_decent:
  "p \<in> traffic chi s \<Longrightarrow> prog_ok anyw (\<lambda>out. case out of None \<Rightarrow> True | Some rs \<Rightarrow> served chi s rs) p"
  by (rule traffic_ok) (auto simp: decent_serve prog_ok_trivial)

section \<open>Properties\<close>

text \<open>
  C3: The database stays consistent. Whatever requests arrive, in whatever order their actions and
  those of the cleanup job interleave, and whatever statements fail: the invariant of the database
  (unique keys, foreign keys, canonical identifiers, stored times) is kept, users are never removed
  or change identity, and agents keep their owner, name and key hash and stay revoked once revoked.
\<close>

theorem server_keeps_database:
  assumes "env_ok E" "\<forall>p t. quiet (verifier p t)" "db_inv E w"
    and "reaches (traffic chi (assemble L E verifier cfg)) ([], w) (ps, w')"
  shows "db_inv E w' \<and> evolves w w'"
proof -
  have "safe_law E verifier w w'"
    using reaches_results[OF assms(4) traffic_safe[OF assms(1)] reflp_safe_law transp_safe_law] assms(2) by simp
  then show ?thesis using assms(1-3) by (simp add: safe_law_def assumed_def safe_step_def)
qed

text \<open>
  C4: The limit of agents holds under concurrency. However requests interleave, no user ever has
  more active agents than the configured maximum, or than the user had to begin with.
\<close>

theorem agent_limit_under_concurrency:
  assumes "\<forall>p t. quiet (verifier p t)"
    and "reaches (traffic chi (assemble L E verifier cfg)) ([], w) (ps, w')"
  shows "active_count w' u \<le> max (active_count w u) (cf_MaxAgentsPerUser cfg)"
proof -
  have "when_quiet verifier (cap_law (cf_MaxAgentsPerUser cfg)) w w'"
    using reaches_results[OF assms(2) traffic_capped reflp_when[OF reflp_cap_law] transp_when[OF transp_cap_law]] by simp
  then show ?thesis using assms(1) by (simp add: when_quiet_def cap_law_def)
qed

text \<open>
  C13: What clients see. Every response is one of the handlers, or chi's own to a request for which it
  has no route. Whatever the services do, one of the handlers has one of nine statuses; a response of
  status 500 is one of two fixed texts, so nothing of an internal error is ever sent; one of status 204
  has no body; and a body is JSON, nested at most four deep.
\<close>

theorem responses_decent:
  assumes "reaches (traffic chi s) ([], w) (ps, w')" "Done (Some rs) \<in> set ps"
  shows "decent rs \<or> (\<exists>hr. routed chi s hr = None \<and> rs = own_answer chi s hr)"
proof -
  have "reflp anyw" "transp anyw" by (auto intro: reflpI transpI)
  from reaches_results[OF assms(1) traffic_decent[of _ chi s] this] assms(2) have "served chi s rs" by fastforce
  then show ?thesis by (simp add: served_def)
qed

section \<open>Witnesses\<close>

lemma sample_quiet: "\<forall>p t. quiet (dev_verify p t)"
  by (simp add: dev_verify_def)

definition whoami_hr :: http_request where
  "whoami_hr = sample_hr ''GET'' ''/api/v1/auth/whoami'' '''' ''''"

definition sign_in_hr :: http_request where
  "sign_in_hr = sample_hr ''POST'' ''/api/v1/auth/exchange'' '''' sign_in_body"

lemma whoami_unauthorized: "rs_status (fst (serve_sample whoami_hr sample_world)) = 401
   \<and> rs_body (fst (serve_sample whoami_hr sample_world)) \<noteq> None"
  by code_simp

theorem server_keeps_database_witness:
  "db_inv sample_env (snd (serve_sample sign_in_hr sample_world))"
  unfolding serve_sample_def sample_server_def
  using server_keeps_database[OF sample_env_ok sample_quiet sample_db_inv serve_one] by blast

theorem agent_limit_under_concurrency_witness:
  "active_count (snd (serve_sample sign_in_hr sample_world)) ''ann'' \<le> 10"
proof -
  have "active_count sample_world ''ann'' = 1"
    by (simp add: active_count_def sample_world_def active_of_def)
  then show ?thesis
    unfolding serve_sample_def sample_server_def
    using agent_limit_under_concurrency[OF sample_quiet serve_one, of sample_chi sample_lib sample_env sample_cfg
        sign_in_hr sample_world "''ann''"] by (simp add: sample_cfg_def)
qed

theorem responses_decent_witness:
  "rs_status (fst (serve_sample whoami_hr sample_world)) = 401 \<and> decent (fst (serve_sample whoami_hr sample_world))"
proof -
  have "rs_status (own_answer sample_chi sample_server hr) \<noteq> 401" for hr
    by (simp add: own_answer_def chi_says_def sample_chi_def)
  then have "\<not> (\<exists>hr. routed sample_chi sample_server hr = None \<and> fst (serve_sample whoami_hr sample_world) = own_answer sample_chi sample_server hr)"
    using whoami_unauthorized by auto
  moreover have "decent (fst (serve_sample whoami_hr sample_world))
      \<or> (\<exists>hr. routed sample_chi sample_server hr = None \<and> fst (serve_sample whoami_hr sample_world) = own_answer sample_chi sample_server hr)"
    unfolding serve_sample_def by (rule responses_decent[OF serve_one]) simp
  ultimately show ?thesis using whoami_unauthorized by blast
qed

end
