(* ===== verification/Termination.thy ===== *)
theory Termination
  imports ServerProperties
begin

text \<open>
  Every request ends after a bounded number of actions, whatever other requests and the database do:
  the use cases and handlers have no loop over actions, so the number is read off their definitions.
  The identity verifier is a parameter; a token is checked by one call of go-oidc.
\<close>

section \<open>The actions of the use cases\<close>

lemma repository_actions [at_most_intros]:
  "at_most (UserRepository_UpsertByIdentity E p s m) (Suc (Suc (Suc n)))"
  "at_most (AgentRepository_Get E i) (Suc n)"
  by (auto simp: UserRepository_UpsertByIdentity_def AgentRepository_Get_def uuid_NewString_def time_Now_def
      intro!: at_most_intros)

lemmas flat_defs = svc_defs RateLimiter_Allow_def newToken_def newID_def rand_Read_def uuid_NewString_def time_Now_def
  UserRepository_UpsertByIdentity_def UserRepository_Get_def
  UserTokenRepository_Create_def UserTokenRepository_GetByHash_def UserTokenRepository_DeleteByHash_def
  AgentRepository_Get_def AgentRepository_GetByKeyHash_def AgentRepository_ListByUser_def
  AgentRepository_Revoke_def AgentRepository_TouchLastUsed_def AgentRepository_CreateIfUnderLimit_def
  EventRepository_Save_def EventRepository_Get_def EventRepository_List_def EventRepository_Update_def
  EventRepository_Delete_def

lemma auth_actions:
  "at_most (AuthenticateUser E (auth_svc E limits verifier c) raw) (Suc (Suc (Suc n)))"
  "at_most (AuthenticateAgent E (auth_svc E limits verifier c) raw) (Suc (Suc (Suc (Suc n))))"
  by (auto simp: AuthenticateUser_def AuthenticateAgent_def flat_defs intro!: at_most_intros)

lemma at_most_verified:
  "at_most p 1 \<Longrightarrow> (\<And>a. at_most (f a) n) \<Longrightarrow> at_most (pbind p f) (Suc n)"
  using at_most_pbind[of p 1 f n] by simp

lemma use_case_actions:
  "at_most (RevokeUserToken (auth_svc E limits verifier c) h) 4"
  "at_most (CreateAgent E (auth_svc E limits verifier c) u name) 4"
  "at_most (ListAgents (auth_svc E limits verifier c) u) 4"
  "at_most (RevokeAgent E (auth_svc E limits verifier c) u i) 4"
  "at_most (EventService_Create E (event_svc E limits) a ci) 4"
  "at_most (EventService_Get (event_svc E limits) i) 4"
  "at_most (EventService_List (event_svc E limits)) 4"
  "at_most (EventService_Update E (event_svc E limits) a i ui) 4"
  "at_most (EventService_Delete (event_svc E limits) a i) 4"
  by (auto simp: RevokeUserToken_def CreateAgent_def ListAgents_def RevokeAgent_def EventService_Create_def
      EventService_Get_def EventService_List_def EventService_Update_def EventService_Delete_def flat_defs eval_nat_numeral
      intro!: at_most_intros)

lemma exchange_actions:
  assumes "\<And>p t. at_most (verifier p t) 1"
  shows "at_most (Exchange E (auth_svc E limits verifier c) inp) 8"
  by (auto simp: Exchange_def flat_defs eval_nat_numeral intro!: at_most_intros at_most_verified[OF assms])

lemma cleanup_actions: "at_most (cleanup_round E) 8"
  by (auto simp: cleanup_round_def NewUserTokenRepository_def UserTokenRepository_DeleteExpired_def time_Now_def
      eval_nat_numeral intro!: at_most_intros)

section \<open>The actions of the handlers\<close>

lemma at_most_reply [at_most_intros]: "at_most (reply r ok) n"
  by (simp add: reply_def)

lemmas then_reply = at_most_pbind[where m = 0, simplified]

lemma handler_actions:
  "at_most (EventHandler_create L E (event_svc E limits) rq) 4" "at_most (EventHandler_get L (event_svc E limits) rq) 4"
  "at_most (EventHandler_list (event_svc E limits) rq) 4" "at_most (EventHandler_update L E (event_svc E limits) rq) 4"
  "at_most (EventHandler_delete L (event_svc E limits) rq) 4" "at_most (AuthHandler_Whoami rq) 4"
  "at_most (AgentHandler_create L E (auth_svc E limits verifier c) rq) 4"
  "at_most (AgentHandler_list (auth_svc E limits verifier c) rq) 4"
  "at_most (AgentHandler_revoke L E (auth_svc E limits verifier c) rq) 4"
  "at_most (AuthHandler_Logout (auth_svc E limits verifier c) rq) 4"
  unfolding EventHandler_create_def EventHandler_list_def EventHandler_get_def EventHandler_update_def
    EventHandler_delete_def AuthHandler_Whoami_def AgentHandler_create_def AgentHandler_list_def
    AgentHandler_revoke_def AuthHandler_Logout_def
  by (intro at_most_intros then_reply use_case_actions)+

lemma exchange_handler_actions:
  assumes "\<And>p t. at_most (verifier p t) 1"
  shows "at_most (AuthHandler_Exchange L E (auth_svc E limits verifier c) trusted rq) 8"
  unfolding AuthHandler_Exchange_def by (intro at_most_intros then_reply exchange_actions assms)

lemma middleware_actions:
  assumes "\<And>rq. at_most (h rq) 4"
  shows "at_most (RequireAgent E (auth_svc E limits verifier c) h rq) 8"
    "at_most (RequireUser E (auth_svc E limits verifier c) h rq) 8"
proof -
  have a: "at_most (pbind (AuthenticateAgent E (auth_svc E limits verifier c) raw) f) 8" if "\<And>r. at_most (f r) 4" for raw f
    using at_most_pbind[OF auth_actions(2)[where n = 0] that] by simp
  have u: "at_most (pbind (AuthenticateUser E (auth_svc E limits verifier c) raw) f) 8" if "\<And>r. at_most (f r) 4" for raw f
    using at_most_mono[OF at_most_pbind[OF auth_actions(1)[where n = 0] that], of 8] by simp
  show "at_most (RequireAgent E (auth_svc E limits verifier c) h rq) 8"
    "at_most (RequireUser E (auth_svc E limits verifier c) h rq) 8"
    unfolding RequireAgent_def RequireUser_def by (intro at_most_intros a u assms)+
qed

lemma serve_actions:
  assumes "\<And>p t. at_most (verifier p t) 1"
  shows "at_most (ServeHTTP chi (assemble L E verifier cfg) hr) 8"
proof (cases rule: serve_shape[of chi "assemble L E verifier cfg" hr, unfolded assemble_services])
  case (3 h ps)
  then have "at_most (h rq) 4" for rq by (auto simp: handler_actions)
  then show ?thesis using middleware_actions(2) 3(1) by simp
next
  case (4 h ps)
  then have "at_most (h rq) 4" for rq by (auto simp: handler_actions)
  then show ?thesis using middleware_actions(1) 4(1) by simp
qed (simp_all add: exchange_handler_actions[OF assms])

lemma traffic_actions:
  assumes "\<And>p t. at_most (verifier p t) 1" "p \<in> traffic chi (assemble L E verifier cfg)"
  shows "at_most p 8"
  using assms(2)
proof cases
  case (serving hr)
  show ?thesis unfolding serving(1) by (rule then_reply[OF serve_actions[OF assms(1)]]) simp
next
  case cleaning
  show ?thesis unfolding cleaning(1) by (rule then_reply[OF cleanup_actions]) simp
qed

section \<open>Properties\<close>

text \<open>
  C11: Every request ends. If each token is checked by at most one action of the verifier, then from any state the
  server can be in, when no more requests arrive, there are at most eight further actions for each
  request that arrived, in whatever order they come; and the server stops only when every request
  has its response.
\<close>

theorem requests_terminate:
  assumes "\<forall>p t. at_most (verifier p t) 1"
    and "reaches (traffic chi (assemble L E verifier cfg)) ([], w) (ps, w1)"
    and "(pool_step {} ^^ k) (ps, w1) (qs, w2)"
  shows "k \<le> 8 * length ps \<and> ((\<nexists>d. pool_step {} (qs, w2) d) \<longrightarrow> (\<forall>p \<in> set qs. \<exists>out. p = Done out))"
proof -
  have "at_most p 8" if "p \<in> traffic chi (assemble L E verifier cfg)" for p
    using traffic_actions[OF _ that] assms(1) by blast
  then show ?thesis using pool_terminates[OF assms(2) _ assms(3)] pool_rests[of qs w2] by blast
qed

theorem requests_terminate_witness:
  "\<nexists>c. (pool_step {} ^^ 9) ([pbind (ServeHTTP sample_chi sample_server sign_in_hr) (\<lambda>rs. Done (Some rs))], sample_world) c"
proof
  let ?ps = "[pbind (ServeHTTP sample_chi sample_server sign_in_hr) (\<lambda>rs. Done (Some rs))]"
  assume "\<exists>c. (pool_step {} ^^ 9) (?ps, sample_world) c"
  then obtain qs w2 where steps: "(pool_step {} ^^ 9) (?ps, sample_world) (qs, w2)" by (auto simp del: relpowp.simps)
  have "\<forall>p t. at_most (dev_verify p t) 1" by (simp add: dev_verify_def)
  from requests_terminate[OF this one_arrives[of sample_chi sample_server, unfolded sample_server_def]
      steps[unfolded sample_server_def]]
  show False by simp
qed

end
