(* ===== verification/CleanupJob.thy ===== *)
theory CleanupJob
  imports Lifecycle Termination
begin

text \<open>
  The job that removes expired tokens (\<open>cleanupExpiredTokens\<close> in server/cmd/api/main.go) as a
  state machine beside the requests: it deletes, waits in its \<open>select\<close> for the ticker or the
  cancellation, and starts again or returns. Shown: it ends after the cancellation, and what is proved
  of the traffic, where rounds come at any time, holds of the server with this job.
\<close>

section \<open>The job\<close>

text \<open>
  Where the job is: in the deletion, of which the program is what is still to be done, in the
  \<open>select\<close>, or returned. The channel of the ticker holds one tick.
\<close>

datatype job_phase = Deleting "(world, err + unit) prog" | Selecting | Returned

record job =
  job_at :: job_phase
  ctx_done :: bool
  tick_ready :: bool
  job_log :: "line list"
  job_world :: world

definition deletion :: "Env \<Rightarrow> (world, err + unit) prog" where
  "deletion E = tr_DeleteExpired (NewUserTokenRepository E)"

definition job_start :: "Env \<Rightarrow> world \<Rightarrow> job" where
  "job_start E w = \<lparr>job_at = Deleting (deletion E), ctx_done = False, tick_ready = False, job_log = [], job_world = w\<rparr>"

text \<open>The line of a round: an error is logged unless the context was cancelled.\<close>

definition round_lines :: "port_Logger \<Rightarrow> bool \<Rightarrow> err + unit \<Rightarrow> line list" where
  "round_lines log cancelled r =
     (case r of
        Inl e \<Rightarrow> if cancelled then [] else [lg_Error log ''expired user token cleanup failed'' [port_Err (Some e)]]
      | Inr _ \<Rightarrow> [])"

text \<open>The steps of the job. With a tick and the cancellation both there, \<open>select\<close> takes either.\<close>

inductive job_step :: "Env \<Rightarrow> port_Logger \<Rightarrow> job \<Rightarrow> job \<Rightarrow> bool" for E log where
  deletes: "job_at j = Deleting (Atomic g) \<Longrightarrow> g (job_world j) = (p, w) \<Longrightarrow>
    job_step E log j (j\<lparr>job_at := Deleting p, job_world := w\<rparr>)"
| reports: "job_at j = Deleting (Done r) \<Longrightarrow>
    job_step E log j (j\<lparr>job_at := Selecting, job_log := job_log j @ round_lines log (ctx_done j) r\<rparr>)"
| wakes: "job_at j = Selecting \<Longrightarrow> tick_ready j \<Longrightarrow>
    job_step E log j (j\<lparr>job_at := Deleting (deletion E), tick_ready := False\<rparr>)"
| returns: "job_at j = Selecting \<Longrightarrow> ctx_done j \<Longrightarrow> job_step E log j (j\<lparr>job_at := Returned\<rparr>)"

inductive_cases job_stepE: "job_step E log j j'"

section \<open>The process\<close>

text \<open>
  The requests under way and the job, which share the world: a request arrives or performs its next
  action, the job makes a step, the ticker ticks, or the stop hook cancels the context.
\<close>

datatype happening = Arrival | Work | JobStep | Tick | Cancel

inductive process_step ::
  "chi_match \<Rightarrow> server \<Rightarrow> port_Logger \<Rightarrow> happening \<Rightarrow> (world, response) prog list \<times> job \<Rightarrow>
    (world, response) prog list \<times> job \<Rightarrow> bool"
  for chi s log where
  arrives: "process_step chi s log Arrival (ps, j) (ps @ [ServeHTTP chi s hr], j)"
| works: "i < length ps \<Longrightarrow> ps ! i = Atomic g \<Longrightarrow> g (job_world j) = (p, w) \<Longrightarrow>
    process_step chi s log Work (ps, j) (ps[i := p], j\<lparr>job_world := w\<rparr>)"
| cleans: "job_step (sv_env s) log j j' \<Longrightarrow> process_step chi s log JobStep (ps, j) (ps, j')"
| ticks: "process_step chi s log Tick (ps, j) (ps, j\<lparr>tick_ready := True\<rparr>)"
| cancels: "process_step chi s log Cancel (ps, j) (ps, j\<lparr>ctx_done := True\<rparr>)"

text \<open>A run from the start of the job, with what happened in it.\<close>

inductive process_run ::
  "chi_match \<Rightarrow> server \<Rightarrow> port_Logger \<Rightarrow> world \<Rightarrow> happening list \<Rightarrow> (world, response) prog list \<times> job \<Rightarrow> bool"
  for chi s log w where
  starts: "process_run chi s log w [] ([], job_start (sv_env s) w)"
| goes_on: "process_run chi s log w es c \<Longrightarrow> process_step chi s log e c d \<Longrightarrow> process_run chi s log w (es @ [e]) d"

section \<open>The job ends\<close>

text \<open>
  \<open>within j m\<close>: without another tick the job makes at most \<open>m\<close> more steps. A round takes two
  actions and its end, the return one step, and a waiting tick means one more wake-up and round.
\<close>

definition within :: "job \<Rightarrow> nat \<Rightarrow> bool" where
  "within j m \<longleftrightarrow>
     (let extra = (if tick_ready j then 4 else 0) in
      case job_at j of
        Returned \<Rightarrow> True
      | Selecting \<Rightarrow> 1 + extra \<le> m
      | Deleting p \<Rightarrow> (\<exists>k. at_most p k \<and> k + 2 + extra \<le> m))"

lemma deletion_actions: "at_most (deletion E) 2"
  by (auto simp: deletion_def NewUserTokenRepository_def UserTokenRepository_DeleteExpired_def time_Now_def
      eval_nat_numeral intro!: at_most_intros)

lemma within_step:
  assumes "job_step E log j j'" "within j m"
  shows "\<exists>m'. m = Suc m' \<and> within j' m'"
  using assms
proof (cases rule: job_step.cases)
  case (deletes g p w)
  then obtain k where k: "at_most (Atomic g) k" "k + 2 + (if tick_ready j then 4 else 0) \<le> m"
    using assms(2) by (auto simp: within_def Let_def)
  then have "0 < k" "at_most p (k - 1)" using deletes(3) by (auto simp: at_most_Atomic dest: spec[of _ "job_world j"])
  then have "within j' (m - 1)" using deletes k(2)
    by (auto simp: within_def Let_def split: if_splits intro!: exI[of _ "k - 1"])
  then show ?thesis using \<open>0 < k\<close> k(2) by (intro exI[of _ "m - 1"]) auto
next
  case (reports r)
  then show ?thesis using assms(2) by (intro exI[of _ "m - 1"]) (auto simp: within_def Let_def split: if_splits)
next
  case wakes
  then show ?thesis using assms(2)
    by (intro exI[of _ "m - 1"]) (auto simp: within_def Let_def intro!: exI[of _ 2] deletion_actions)
next
  case returns
  then show ?thesis using assms(2) by (intro exI[of _ "m - 1"]) (auto simp: within_def Let_def split: if_splits)
qed

lemma within_same:
  "within (j\<lparr>job_world := w\<rparr>) m \<longleftrightarrow> within j m" "within (j\<lparr>ctx_done := True\<rparr>) m \<longleftrightarrow> within j m"
  by (simp_all add: within_def)

lemma within_tick: "within j m \<Longrightarrow> within (j\<lparr>tick_ready := True\<rparr>) (m + 4)"
  by (auto simp: within_def Let_def split: job_phase.splits if_splits intro: exI)

lemma run_within:
  assumes "process_run chi s log w es c"
  shows "\<exists>m. within (snd c) m \<and> count_list es JobStep + m = 4 + 4 * count_list es Tick"
  using assms
proof (induction rule: process_run.induct)
  case starts
  show ?case
    by (intro exI[of _ 4]) (auto simp: job_start_def within_def intro!: exI[of _ 2] deletion_actions)
next
  case (goes_on es c e d)
  then obtain m where m: "within (snd c) m" "count_list es JobStep + m = 4 + 4 * count_list es Tick" by blast
  from goes_on(2) show ?case
  proof (cases rule: process_step.cases)
    case (cleans j j' ps)
    then show ?thesis using within_step[of "sv_env s" log j j' m] m by auto
  next
    case (ticks ps j)
    then show ?thesis using within_tick[of j m] m by (intro exI[of _ "m + 4"]) auto
  qed (use m in \<open>auto simp: within_same\<close>)
qed

lemma returned_cancelled:
  assumes "process_run chi s log w es c" "job_at (snd c) = Returned"
  shows "ctx_done (snd c)"
  using assms
proof (induction rule: process_run.induct)
  case (goes_on es c e d)
  from goes_on(2) show ?case
    by (cases rule: process_step.cases) (use goes_on in \<open>auto elim: job_step.cases\<close>)
qed (simp add: job_start_def)

lemma job_rests:
  assumes "ctx_done j" "\<nexists>j'. job_step E log j j'"
  shows "job_at j = Returned"
proof (cases "job_at j")
  case (Deleting p)
  then show ?thesis
    using assms(2) by (cases p) (metis job_step.reports, metis job_step.deletes prod.collapse)
qed (use assms in \<open>auto intro: job_step.returns\<close>)

section \<open>The job is part of the traffic\<close>

text \<open>A program of the pool that is about to act, whatever its place.\<close>

lemma pool_act:
  assumes "reaches P c (qs, w)" "add_mset (Atomic g) A \<subseteq># mset qs" "g w = (p, w')"
  shows "\<exists>qs'. reaches P c (qs', w') \<and> add_mset p A \<subseteq># mset qs'"
proof -
  have "Atomic g \<in> set qs" using assms(2) by (metis mset_subset_eqD set_mset_mset union_single_eq_member)
  then obtain i where i: "i < length qs" "qs ! i = Atomic g" by (auto simp: in_set_conv_nth)
  have "reaches P c (qs[i := p], w')" using assms(1) pool_step.act[OF i assms(3)] by (rule reaches.later)
  moreover have "add_mset p A \<subseteq># mset (qs[i := p])"
    using assms(2) i by (simp add: mset_update insert_subset_eq_iff)
  ultimately show ?thesis by blast
qed

definition as_reply :: "(world, response) prog \<Rightarrow> (world, response option) prog" where
  "as_reply p = pbind p (\<lambda>rs. Done (Some rs))"

definition as_round :: "(world, err + unit) prog \<Rightarrow> (world, response option) prog" where
  "as_round p = pbind (pbind p (\<lambda>_. Done ())) (\<lambda>_. Done None)"

lemma as_simps [simp]:
  "as_reply (Atomic g) = Atomic (\<lambda>w. map_prod as_reply id (g w))" "as_reply (Done rs) = Done (Some rs)"
  "as_round (Atomic h) = Atomic (\<lambda>w. map_prod as_round id (h w))"
  by (auto simp: as_reply_def as_round_def fun_eq_iff map_prod_def split: prod.splits)

text \<open>The programs of the process, seen as programs of the traffic.\<close>

definition under_way :: "(world, response) prog list \<times> job \<Rightarrow> (world, response option) prog multiset" where
  "under_way c = image_mset as_reply (mset (fst c))
     + (case job_at (snd c) of Deleting p \<Rightarrow> {#as_round p#} | _ \<Rightarrow> {#})"

definition covered :: "chi_match \<Rightarrow> server \<Rightarrow> world \<Rightarrow> (world, response) prog list \<times> job \<Rightarrow> bool" where
  "covered chi s w c \<longleftrightarrow> (\<exists>qs. reaches (traffic chi s) ([], w) (qs, job_world (snd c)) \<and> under_way c \<subseteq># mset qs)"

lemma round_arrives: "as_round (deletion (sv_env s)) \<in> traffic chi s"
  using traffic.cleaning[of s chi] by (simp add: as_round_def deletion_def cleanup_round_def)

lemma covered_arrival:
  assumes "covered chi s w c" "p \<in> traffic chi s" "job_world (snd d) = job_world (snd c)"
    "under_way d \<subseteq># add_mset p (under_way c)"
  shows "covered chi s w d"
proof -
  obtain qs where "reaches (traffic chi s) ([], w) (qs, job_world (snd d))" "under_way c \<subseteq># mset qs"
    using assms(1,3) by (auto simp: covered_def)
  then have "reaches (traffic chi s) ([], w) (qs @ [p], job_world (snd d))" "add_mset p (under_way c) \<subseteq># mset (qs @ [p])"
    using assms(2) by (auto intro: reaches.later pool_step.arrive)
  then show ?thesis using assms(4) unfolding covered_def by (meson subset_mset.order_trans)
qed

lemma covered_act:
  assumes "covered chi s w c" "under_way c = add_mset (Atomic g) A" "g (job_world (snd c)) = (p, job_world (snd d))"
    "under_way d = add_mset p A"
  shows "covered chi s w d"
  using assms pool_act[of "traffic chi s" "([], w)" _ "job_world (snd c)" g A p "job_world (snd d)"]
  by (auto simp: covered_def)

lemma covered_same:
  assumes "covered chi s w c" "job_world (snd d) = job_world (snd c)" "under_way d \<subseteq># under_way c"
  shows "covered chi s w d"
  using assms by (auto simp: covered_def intro: subset_mset.order_trans)

lemma covered_step:
  assumes "process_step chi s log e c d" "covered chi s w c"
  shows "covered chi s w d"
  using assms(1)
proof (cases rule: process_step.cases)
  case (arrives ps j hr)
  have "as_reply (ServeHTTP chi s hr) \<in> traffic chi s" unfolding as_reply_def by (rule traffic.serving)
  from covered_arrival[OF assms(2) this, of d] show ?thesis using arrives by (simp add: under_way_def)
next
  case (works i ps g j p w')
  let ?rest = "image_mset as_reply (mset ps - {#ps ! i#}) + (case job_at j of Deleting p \<Rightarrow> {#as_round p#} | _ \<Rightarrow> {#})"
  have "mset ps = add_mset (ps ! i) (mset ps - {#ps ! i#})" using works(4) by simp
  from arg_cong[OF this, of "image_mset as_reply"]
  have "image_mset as_reply (mset ps) = add_mset (as_reply (ps ! i)) (image_mset as_reply (mset ps - {#ps ! i#}))"
    by (simp only: image_mset_add_mset)
  then have "under_way c = add_mset (as_reply (ps ! i)) ?rest"
    unfolding under_way_def works(2) fst_conv snd_conv by (simp only: union_mset_add_mset_left)
  then have c: "under_way c = add_mset (Atomic (\<lambda>w. map_prod as_reply id (g w))) ?rest" by (simp only: works(5) as_simps)
  have "under_way d = add_mset (as_reply p) ?rest" unfolding works(3) by (simp add: under_way_def mset_update works(4))
  moreover have "map_prod as_reply id (g (job_world (snd c))) = (as_reply p, job_world (snd d))"
    unfolding works(2,3) by (simp add: works(6))
  ultimately show ?thesis using covered_act[OF assms(2) c] by blast
next
  case (cleans j j' ps)
  from cleans(4) show ?thesis
  proof (cases rule: job_step.cases)
    case (deletes g p w')
    then show ?thesis using cleans
      by (intro covered_act[OF assms(2), of "\<lambda>w. map_prod as_round id (g w)" "image_mset as_reply (mset ps)" "as_round p"])
        (simp_all add: under_way_def)
  next
    case (reports r)
    then show ?thesis using cleans by (intro covered_same[OF assms(2)]) (simp_all add: under_way_def)
  next
    case wakes
    then show ?thesis using cleans
      by (intro covered_arrival[OF assms(2) round_arrives]) (simp_all add: under_way_def)
  next
    case returns
    then show ?thesis using cleans by (intro covered_same[OF assms(2)]) (simp_all add: under_way_def)
  qed
qed (intro covered_same[OF assms(2)]; simp add: under_way_def)+

lemma covered_run: "process_run chi s log w es c \<Longrightarrow> covered chi s w c"
proof (induction rule: process_run.induct)
  case starts
  have "reaches (traffic chi s) ([], w) ([] @ [as_round (deletion (sv_env s))], w)"
    by (intro reaches.later[OF reaches.here] pool_step.arrive round_arrives)
  then show ?case by (auto simp: covered_def under_way_def job_start_def intro!: exI[of _ "[_]"])
qed (rule covered_step)

section \<open>Properties\<close>

text \<open>
  C12: The cleanup job ends when the process stops, and not before. In every run of the process the job
  makes at most four steps and four more per tick of its ticker; it returns only after the
  cancellation; once cancelled it logs nothing any more, and it stands still only when it has returned.
\<close>

theorem cleanup_job_ends:
  assumes "process_run chi s log w es (ps, j)"
  shows "count_list es JobStep \<le> 4 + 4 * count_list es Tick
    \<and> (job_at j = Returned \<longrightarrow> ctx_done j)
    \<and> (ctx_done j \<longrightarrow> (\<forall>j'. job_step (sv_env s) log j j' \<longrightarrow> job_log j' = job_log j)
         \<and> ((\<nexists>j'. job_step (sv_env s) log j j') \<longrightarrow> job_at j = Returned))"
proof -
  have "job_log j' = job_log j" if "ctx_done j" "job_step (sv_env s) log j j'" for j'
    using that(2,1) by cases (simp_all add: round_lines_def split: sum.splits)
  then show ?thesis
    using run_within[OF assms] returned_cancelled[OF assms] job_rests[of j "sv_env s" log] by auto
qed

text \<open>
  C6: The process refines the traffic. Every state of the process, with its one job, is a state that
  the traffic reaches, in which a round of the cleanup may come at any time: the database is the same,
  and every request of the process is a request of the traffic with the same response.
\<close>

theorem process_refines_traffic:
  assumes "process_run chi s log w es (ps, j)"
  shows "\<exists>qs. reaches (traffic chi s) ([], w) (qs, job_world j)
    \<and> image_mset (\<lambda>p. pbind p (\<lambda>rs. Done (Some rs))) (mset ps) \<subseteq># mset qs"
proof -
  from covered_run[OF assms] obtain qs
    where "reaches (traffic chi s) ([], w) (qs, job_world j)" "under_way (ps, j) \<subseteq># mset qs"
    by (auto simp: covered_def)
  moreover have "image_mset as_reply (mset ps) \<subseteq># under_way (ps, j)" by (simp add: under_way_def)
  ultimately show ?thesis unfolding as_reply_def by (meson subset_mset.order_trans)
qed

text \<open>An instance: a request arrives, the first round is run, the process is told to stop, the job returns.\<close>

lemma round_finishes:
  assumes "process_run chi s log w es (ps, j)" "job_at j = Deleting p"
  shows "\<exists>n j'. process_run chi s log w (es @ replicate n JobStep) (ps, j') \<and> job_at j' = Selecting"
  using assms
proof (induction p arbitrary: es j rule: prog_induct)
  case (Done r)
  from process_run.goes_on[OF Done(1) process_step.cleans[OF job_step.reports[OF Done(2)]]]
  show ?case by (intro exI[of _ 1]) (auto intro!: exI)
next
  case (Atomic g)
  obtain p w1 where g: "g (job_world j) = (p, w1)" by fastforce
  from process_run.goes_on[OF Atomic(2) process_step.cleans[OF job_step.deletes[OF Atomic(3) g]]]
  obtain n j' where "process_run chi s log w ((es @ [JobStep]) @ replicate n JobStep) (ps, j')" "job_at j' = Selecting"
    using Atomic(1)[where w = "job_world j"] g by fastforce
  then show ?case by (intro exI[of _ "Suc n"]) auto
qed

lemma sample_process_ends:
  "\<exists>n j. process_run sample_chi sample_server logger_New sample_world ([Arrival] @ replicate n JobStep @ [Cancel, JobStep])
     ([ServeHTTP sample_chi sample_server sign_in_hr], j) \<and> job_at j = Returned"
proof -
  let ?run = "process_run sample_chi sample_server logger_New sample_world"
  let ?ps = "[ServeHTTP sample_chi sample_server sign_in_hr]"
  have "?run [Arrival] (?ps, job_start (sv_env sample_server) sample_world)"
    using process_run.goes_on[OF process_run.starts process_step.arrives, of sample_chi sample_server logger_New
        sample_world sign_in_hr] by simp
  from round_finishes[OF this] obtain n j where j: "?run ([Arrival] @ replicate n JobStep) (?ps, j)" "job_at j = Selecting"
    by (auto simp: job_start_def)
  from process_run.goes_on[OF this(1) process_step.cancels]
  have "?run (([Arrival] @ replicate n JobStep) @ [Cancel]) (?ps, j\<lparr>ctx_done := True\<rparr>)" .
  from process_run.goes_on[OF this process_step.cleans[OF job_step.returns]] j(2)
  show ?thesis by fastforce
qed

theorem cleanup_job_ends_witness:
  "\<exists>n ps j. process_run sample_chi sample_server logger_New sample_world
     ([Arrival] @ replicate n JobStep @ [Cancel, JobStep]) (ps, j) \<and> n \<le> 3 \<and> ctx_done j"
proof -
  obtain n ps j where r: "process_run sample_chi sample_server logger_New sample_world
      ([Arrival] @ replicate n JobStep @ [Cancel, JobStep]) (ps, j)" "job_at j = Returned"
    using sample_process_ends by blast
  have "count_list (replicate n JobStep) JobStep = n" "count_list (replicate n JobStep) Tick = 0"
    by (induction n) simp_all
  then show ?thesis using cleanup_job_ends[OF r(1)] r by auto
qed

theorem process_refines_traffic_witness:
  "\<exists>qs (j :: job). job_at j = Returned \<and> reaches (traffic sample_chi sample_server) ([], sample_world) (qs, job_world j)
     \<and> pbind (ServeHTTP sample_chi sample_server sign_in_hr) (\<lambda>rs. Done (Some rs)) \<in> set qs"
proof -
  obtain n j where r: "process_run sample_chi sample_server logger_New sample_world
      ([Arrival] @ replicate n JobStep @ [Cancel, JobStep]) ([ServeHTTP sample_chi sample_server sign_in_hr], j)"
    "job_at j = Returned"
    using sample_process_ends by blast
  from process_refines_traffic[OF r(1)] obtain qs
    where "reaches (traffic sample_chi sample_server) ([], sample_world) (qs, job_world j)"
      "pbind (ServeHTTP sample_chi sample_server sign_in_hr) (\<lambda>rs. Done (Some rs)) \<in> set qs" by auto
  then show ?thesis using r(2) by blast
qed

end
