(* ===== verification/Revocation.thy ===== *)
theory Revocation
  imports ServerProperties AuthProperties
begin

text \<open>
  Revocation lasts: nothing the server does afterwards, in whatever order, makes a revoked key good
  again. The database evolves under the traffic (\<open>traffic_evolves\<close>), and a row that has evolved from
  a revoked one is revoked.
\<close>

section \<open>The traffic and the database\<close>

lemma traffic_under_way:
  assumes "env_ok E" "\<forall>p t. quiet (verifier p t)"
    and "reaches (traffic chi (assemble L E verifier cfg)) ([], w0) (ps, w)"
  shows "list_all (prog_ok (safe_law E verifier) (\<lambda>out. case out of None \<Rightarrow> True | Some rs \<Rightarrow> True)) ps"
  using reaches_ok[OF assms(3) traffic_safe[OF assms(1)] reflp_safe_law transp_safe_law] assms(2) by simp

lemma traffic_evolves:
  assumes "env_ok E" "\<forall>p t. quiet (verifier p t)"
    and "reaches (traffic chi (assemble L E verifier cfg)) (ps, w) (qs, w')"
    and "list_all (prog_ok (safe_law E verifier) (\<lambda>out. case out of None \<Rightarrow> True | Some rs \<Rightarrow> True)) ps"
    and "auth_inv E verifier w"
  shows "auth_inv E verifier w' \<and> evolves w w'"
proof -
  have "safe_law E verifier w w'"
    using reaches_ok[OF assms(3) traffic_safe[OF assms(1)] reflp_safe_law transp_safe_law] assms(2,4) by simp
  then show ?thesis
    using assms(1,2,5) by (simp add: safe_law_def assumed_def safe_step_def auth_inv_def pg_inv_def)
qed

lemma revoked_stays:
  assumes "auth_inv E verifier w" "auth_inv E verifier w'" "evolves w w'" "agent_lookup E w i = Some a" "Revoked a"
  shows "\<exists>a'. key_lookup w' (Agent_KeyHash a) = Some a' \<and> Revoked a'"
proof -
  obtain a' where a': "agent_lookup E w' i = Some a'" "Agent_KeyHash a' = Agent_KeyHash a" "Revoked a'"
    using evolved_agent[OF assms(1-4)] assms(5) by (auto simp: Revoked_def)
  then have "agent_lookup E w' (Agent_ID a') = Some a'"
    using pg_agents.a_id[OF assms(2) a'(1)] pg_agents.a_same[OF assms(2)] by metis
  then show ?thesis using pg_agents.key_iff[OF assms(2)] a' by metis
qed

lemma revoke_revokes:
  assumes "auth_inv E verifier w" "agent_lookup E w i = Some a"
    and "run (RevokeAgent E (auth_svc E limits verifier c) userID i) w = (Inr u, w1)"
  shows "auth_inv E verifier w1 \<and> (\<exists>t. \<not> IsZero t \<and> agent_lookup E w1 i = Some (a\<lparr>Agent_RevokedAt := t\<rparr>))"
proof -
  have O: "auth_inv E verifier w1" "if Revoked a then agent_lookup E w1 = agent_lookup E w
      else \<exists>t. \<not> IsZero t \<and> agent_lookup E w1 = (\<lambda>j. if same_id E j i then Some (a\<lparr>Agent_RevokedAt := t\<rparr>) else agent_lookup E w j)"
    using pg_auth.revoke_agent_outcome[of E verifier w limits c userID i "Inr u" w1] assms
    unfolding auth_svc_defs by auto
  have "same_id E i i" using pg_agents.a_id[OF assms(1,2)] unfolding same_id_def by metis
  with O assms(2) show ?thesis
    by (cases "Revoked a"; force simp: Revoked_def intro: exI[of _ "Agent_RevokedAt a"])
qed

section \<open>Property\<close>

text \<open>
  C9: Revocation is permanent. In any state the server reaches, once the owner has revoked an agent,
  whatever requests are under way or arrive afterwards and however their actions and the cleanup
  interleave, the key of the agent is rejected; with a database that answers, as unauthorized.
\<close>

theorem revoked_key_never_accepted:
  assumes "env_ok E" "\<forall>p t. quiet (verifier p t)" "db_inv E w0"
    and "reaches (traffic chi (assemble L E verifier cfg)) ([], w0) (ps, w)"
    and "agent_lookup E w i = Some a"
    and "run (RevokeAgent E (sv_auth (assemble L E verifier cfg)) userID i) w = (Inr u, w1)"
    and "reaches (traffic chi (assemble L E verifier cfg)) (ps, w1) (qs, w2)"
    and "HashToken raw = Agent_KeyHash a"
    and "run (AuthenticateAgent E (sv_auth (assemble L E verifier cfg)) raw) w2 = (r, w3)"
  shows "\<exists>x. r = Inl x \<and> (reliable E \<longrightarrow> KindOf x = KindUnauthorized)"
proof -
  note ok = traffic_under_way[OF assms(1,2,4)]
  have inv: "auth_inv E verifier w"
    using traffic_evolves[OF assms(1,2,4)] assms(1-3) by (simp add: auth_inv_def pg_inv_def)
  obtain t where w1: "auth_inv E verifier w1" and t: "\<not> IsZero t" "agent_lookup E w1 i = Some (a\<lparr>Agent_RevokedAt := t\<rparr>)"
    using revoke_revokes[OF inv assms(5) assms(6)[unfolded assemble_services]] by blast
  note w2 = traffic_evolves[OF assms(1,2,7) ok w1]
  obtain a' where "key_lookup w2 (HashToken raw) = Some a'" "Revoked a'"
    using revoked_stays[OF w1 _ _ t(2)] w2 t(1) assms(8) by (auto simp: Revoked_def)
  then show ?thesis
    using pg_auth.authenticate_agent_outcome[of E verifier w2] w2 assms(9)
    unfolding assemble_services auth_svc_defs by (fastforce split: sum.splits)
qed

text \<open>An instance: ann's agent is revoked, somebody signs in, and then the key is tried.\<close>

theorem revoked_key_never_accepted_witness:
  "\<exists>w1 x. run (RevokeAgent sample_env (sv_auth sample_server) ''ann'' ''a1'') sample_bot_world = (Inr (), w1)
     \<and> fst (run (AuthenticateAgent sample_env (sv_auth sample_server) ''aea_bot'') (snd (serve_sample sign_in_hr w1))) = Inl x
     \<and> KindOf x = KindUnauthorized"
proof -
  obtain a where a: "agent_lookup sample_env sample_bot_world ''a1'' = Some a" "Agent_KeyHash a = HashToken ''aea_bot''"
    using sample_bot by blast
  obtain w1 where w1: "run (RevokeAgent sample_env (sv_auth sample_server) ''ann'' ''a1'') sample_bot_world = (Inr (), w1)"
    using sample_revoke_run unfolding sample_server_def assemble_services by blast
  obtain r w3 where r: "run (AuthenticateAgent sample_env (sv_auth sample_server) ''aea_bot'') (snd (serve_sample sign_in_hr w1)) = (r, w3)"
    by fastforce
  have "db_inv sample_env sample_bot_world" using sample_bot_inv by (simp add: auth_inv_def pg_inv_def)
  from revoked_key_never_accepted[OF sample_env_ok sample_quiet this reaches.here a(1) w1[unfolded sample_server_def]
      serve_one[where chi = sample_chi and hr = sign_in_hr] a(2)[symmetric] r[unfolded serve_sample_def sample_server_def]]
  show ?thesis using w1 r sample_reliable by auto
qed

end
