(* ===== verification/EventRequests.thy ===== *)
theory EventRequests
  imports Ownership Revocation
begin

text \<open>
  Requests about events from end to end: what a client reads of an event is the stored event, in a
  form it can send back, and the owner's agent can always remove an event.
\<close>

section \<open>Reading an event and sending it back\<close>

text \<open>The texts of the names of the fields are read as they are, and two of them select a field.\<close>

lemma event_field_names:
  "to_valid ''id'' = ''id''" "to_valid ''user_id'' = ''user_id''" "to_valid ''name'' = ''name''"
  "to_valid ''description'' = ''description''" "to_valid ''created_at'' = ''created_at''" "to_valid ''updated_at'' = ''updated_at''"
  "field_for [''name'', ''description''] ''id'' = None" "field_for [''name'', ''description''] ''user_id'' = None"
  "field_for [''name'', ''description''] ''name'' = Some ''name''"
  "field_for [''name'', ''description''] ''description'' = Some ''description''"
  "field_for [''name'', ''description''] ''created_at'' = None" "field_for [''name'', ''description''] ''updated_at'' = None"
  by code_simp+

lemma WriteError_not_200: "rs_status (WriteError e) \<noteq> 200"
  by (cases "KindOf e") (simp_all add: WriteError_eq WriteJSON_def marshal_ErrorResponse_def)

lemma get_event_reply:
  assumes "pg_inv E w" "run (EventHandler_get L (event_svc E limits) rq) w = (rs, w')" "rs_status rs = 200"
  shows "\<exists>e. event_lookup E w (URLParam rq ''id'') = Some e \<and> rs = WriteJSON 200 (marshal_EventResponse (NewEventResponse e))"
proof -
  obtain r w1 where g: "run (EventRepository_Get E (URLParam rq ''id'')) w = (r, w1)" by fastforce
  from get_law[OF assms(1) g] assms(2,3) g show ?thesis
    by (auto simp: EventHandler_get_def EventService_Get_def eventURLID_def event_svc_defs NewEventRepository_def run_simps
        reply_def WriteError_not_200 Let_def split: sum.splits if_splits)
qed

text \<open>
  C14: A client reads the stored event, and can send it back. When a request for an event is answered
  with 200, the text of the body is read as one object with the six documented fields, which hold the
  identifiers, the name, the description and the times of the stored event; and the same text, sent as
  the body of an update, is decoded to the name and the description of that event, so that what is read
  and sent back unchanged changes neither. (\<open>to_valid\<close> replaces bytes that are no UTF-8.)
\<close>

theorem event_read_and_sent_back:
  assumes "pg_inv E w" "run (EventHandler_get L (event_svc E limits) rq) w = (rs, w')" "rs_status rs = 200"
    and "rq_body rq2 = written rs" "length (written rs) \<le> maxBodySize"
  shows "\<exists>e created updated. event_lookup E w (URLParam rq ''id'') = Some e
    \<and> Time_MarshalJSON (Event_CreatedAt e) = Inr created \<and> Time_MarshalJSON (Event_UpdatedAt e) = Inr updated
    \<and> first_value maxBodySize (written rs) = Some (JObject
        [(''id'', JString (to_valid (Event_ID e))), (''user_id'', JString (to_valid (Event_UserID e))),
         (''name'', JString (to_valid (Event_Name e))), (''description'', JString (to_valid (Event_Description e))),
         (''created_at'', valid_json created), (''updated_at'', valid_json updated)])
    \<and> DecodeJSON rq2 decode_UpdateEventRequest
        = Inr \<lparr>uer_Name = to_valid (Event_Name e), uer_Description = to_valid (Event_Description e)\<rparr>"
proof -
  obtain e where e: "event_lookup E w (URLParam rq ''id'') = Some e"
    "rs = WriteJSON 200 (marshal_EventResponse (NewEventResponse e))"
    using get_event_reply[OF assms(1-3)] by blast
  then obtain c u where cu: "Time_MarshalJSON (Event_CreatedAt e) = Inr c" "Time_MarshalJSON (Event_UpdatedAt e) = Inr u"
    using assms(3)
    by (cases "Time_MarshalJSON (Event_CreatedAt e)"; cases "Time_MarshalJSON (Event_UpdatedAt e)")
      (auto simp: marshal_EventResponse_def NewEventResponse_def json_string_def marshal_struct_def WriteJSON_def)
  let ?j = "JObject [(''id'', JString (Event_ID e)), (''user_id'', JString (Event_UserID e)), (''name'', JString (Event_Name e)),
    (''description'', JString (Event_Description e)), (''created_at'', c), (''updated_at'', u)]"
  have m: "marshal_EventResponse (NewEventResponse e) = Inr ?j"
    using cu by (simp add: marshal_EventResponse_def NewEventResponse_def json_string_def marshal_struct_def)
  have "sendable 4 (marshal_EventResponse (NewEventResponse e))" by simp
  then have "first_value maxBodySize (json_text ?j) = Some (valid_json ?j)"
    using assms(5) e(2) m by (intro first_value_text[of 4]) (simp_all add: sendable_def maxNestingDepth_def written_def WriteJSON_def)
  then have "first_value maxBodySize (written rs) = Some (valid_json ?j)" using e(2) m by (simp add: written_def WriteJSON_def)
  then show ?thesis using e(1) cu assms(4)
    by (auto simp: DecodeJSON_def decode_UpdateEventRequest_def set_UpdateEventRequest_def store_with_def event_field_names)
qed

text \<open>The sample event, read by anybody, and what is read sent back.\<close>

definition read_rq :: request where
  "read_rq = \<lparr>rq_headers = [], rq_remoteAddr = '''', rq_body = '''', rq_params = [(''id'', ''e1'')], rq_agent = None,
     rq_user = None\<rparr>"

theorem event_read_and_sent_back_witness:
  "\<exists>rs. fst (run (EventHandler_get sample_lib (event_svc sample_env Map.empty) read_rq) sample_world) = rs
     \<and> map_option uer_Name (case DecodeJSON (read_rq\<lparr>rq_body := written rs\<rparr>) decode_UpdateEventRequest of Inl _ \<Rightarrow> None | Inr v \<Rightarrow> Some v)
         = Some ''party''"
proof -
  obtain rs w' where r: "run (EventHandler_get sample_lib (event_svc sample_env Map.empty) read_rq) sample_world = (rs, w')" by fastforce
  have rs: "rs = fst (run (EventHandler_get sample_lib (event_svc sample_env Map.empty) read_rq) sample_world)" using r by simp
  have s: "rs_status rs = 200" unfolding rs by code_simp
  have "length (written rs) \<le> 1000" unfolding rs by code_simp
  then have l: "length (written rs) \<le> maxBodySize" by (simp add: maxBodySize_def)
  have inv: "pg_inv sample_env sample_world" using sample_ok by (simp add: pg_inv_def)
  have "rq_body (read_rq\<lparr>rq_body := written rs\<rparr>) = written rs" by simp
  from event_read_and_sent_back[OF inv r s this l]
  obtain e where "event_lookup sample_env sample_world ''e1'' = Some e"
    "DecodeJSON (read_rq\<lparr>rq_body := written rs\<rparr>) decode_UpdateEventRequest
        = Inr \<lparr>uer_Name = to_valid (Event_Name e), uer_Description = to_valid (Event_Description e)\<rparr>"
    by (auto simp: URLParam_def read_rq_def)
  moreover have "to_valid ''party'' = ''party''" by code_simp
  ultimately show ?thesis
    using rs by (auto simp: event_lookup_def sample_env_def sample_world_def eventFromRow_def)
qed

section \<open>Removing an event\<close>

lemma delete_route:
  assumes "r \<in> set (NewRouter s)" "rt_method r = ''DELETE''" "rt_pattern r = ''/api/v1/events/{id}''"
  shows "rt_handler r = RequireAgent (sv_env s) (sv_auth s) (EventHandler_delete (sv_lib s) (sv_events s))"
  using assms
  by (auto simp: NewRouter_def open_routes_def user_routes_def agent_routes_def Route_def Group_With_def
      EventHandler_Register_def AgentHandler_Register_def on_def)

text \<open>Every agent in the table has its user.\<close>

lemma agent_has_user:
  assumes "auth_inv E verifier w" "key_lookup w h = Some a"
  shows "\<exists>u. user_lookup E w (Agent_UserID a) = Some u \<and> User_ID u = Agent_UserID a"
proof -
  obtain x where x: "x \<in> set (agents w)" "a = agentFromRow x"
    using assms(2) by (auto simp: key_lookup_def dest!: find_Some_iff_set)
  have inv: "agents_inv E w" "users_inv E w" using assms(1) by (auto simp: auth_inv_def pg_inv_def db_inv_def)
  then obtain y where y: "y \<in> set (users w)" "gu_ID y = ga_UserID x"
    using x(1) by (auto simp: agents_inv_def list_all_iff user_exists_def list_ex_iff)
  then show ?thesis using user_lookup_row[OF inv(2) y(1)] y(2) x(2) by (auto simp: userFromRow_def)
qed

text \<open>With a database that answers, a live key is let in.\<close>

lemma live_key_authenticates:
  assumes "auth_inv E verifier w" "reliable E" "key_lookup w (HashToken raw) = Some a" "\<not> Revoked a"
    and "run (AuthenticateAgent E (auth_svc E limits verifier c) raw) w = (r, w')"
  shows "\<exists>creds. r = Inr creds \<and> User_ID (ac_User creds) = Agent_UserID a \<and> auth_inv E verifier w'
    \<and> event_lookup E w' = event_lookup E w"
proof -
  note A = pg_auth.authenticate_agent_outcome[OF assms(1) assms(5)[unfolded auth_svc_defs]]
  obtain u where u: "user_lookup E w (Agent_UserID a) = Some u" "User_ID u = Agent_UserID a"
    using agent_has_user[OF assms(1,3)] by blast
  have "event_lookup E w' = event_lookup E w"
    using kept_run[OF events_kept.AuthenticateAgent_ok _ assms(5)] assms(1)
    by (intro event_lookup_frame) (simp add: auth_inv_def)
  then show ?thesis using A assms(2-4) u by (cases r) auto
qed

text \<open>
  C40: The owner can always get rid of an event. In every state the server reaches, with whatever
  requests under way, a request DELETE of an event of a user, with a well formed identifier and a live
  key of an agent of this user, is answered with 204 when the database answers, and then exactly this
  event is gone.
\<close>

theorem owner_can_delete:
  assumes "env_ok E" "reliable E" "\<forall>p t. quiet (verifier p t)" "db_inv E w0"
    and "reaches (traffic chi (assemble L E verifier cfg)) ([], w0) (ps, w)"
    and "routed chi (assemble L E verifier cfg) hr = Some (r, params)"
    and "rt_method r = ''DELETE''" "rt_pattern r = ''/api/v1/events/{id}''"
    and "URLParam (request_of hr params) ''id'' = i" "uuid_Parse L i" "event_lookup E w i = Some e"
    and "bearerToken (request_of hr params) = Some raw"
    and "key_lookup w (HashToken raw) = Some a" "\<not> Revoked a" "Agent_UserID a = Event_UserID e"
  shows "\<exists>w'. run (ServeHTTP chi (assemble L E verifier cfg) hr) w = (NoContent, w')
    \<and> event_lookup E w' = (\<lambda>j. if same_id E j i then None else event_lookup E w j)"
proof -
  let ?svc = "auth_svc E (provideRateLimiter cfg) verifier (provideAuthConfig cfg)"
  let ?events = "event_svc E (provideRateLimiter cfg)"
  have inv: "auth_inv E verifier w"
    using traffic_evolves[OF assms(1,3,5)] assms(1,3,4) by (simp add: auth_inv_def pg_inv_def)
  obtain q w1 where q: "run (AuthenticateAgent E ?svc raw) w = (q, w1)" by fastforce
  obtain creds where creds: "q = Inr creds" "User_ID (ac_User creds) = Event_UserID e" "pg_inv E w1"
    "event_lookup E w1 = event_lookup E w"
    using live_key_authenticates[OF inv assms(2,13,14) q] assms(15) by (auto simp: auth_inv_def)
  let ?actor = "\<lparr>Actor_UserID = User_ID (ac_User creds), Actor_AgentID = Agent_ID (ac_Agent creds)\<rparr>"
  obtain d w2 where d: "run (EventService_Delete ?events ?actor i) w1 = (d, w2)" by fastforce
  have D: "d = Inr ()" "event_lookup E w2 = (\<lambda>j. if same_id E j i then None else event_lookup E w j)"
    using pg_events.delete_succeeds[OF creds(3) assms(2) _ _ d[unfolded event_svc_defs]] creds assms(11) by auto
  have "r \<in> set (NewRouter (assemble L E verifier cfg))"
    using assms(6) by (auto simp: routed_def split: option.splits if_splits)
  then have h: "rt_handler r = RequireAgent E ?svc (EventHandler_delete L ?events)"
    using delete_route[OF _ assms(7,8)] by (simp add: assemble_services) (simp add: assemble_def Let_def)
  have "eventURLID L (WithAgent x (request_of hr params)) = Inr i" for x
    using assms(9,10) by (simp add: eventURLID_def URLParam_def WithAgent_def)
  then have "run (ServeHTTP chi (assemble L E verifier cfg) hr) w = (NoContent, w2)"
    using q creds(1) d D(1) by (simp add: ServeHTTP_def assms(6,12) h RequireAgent_def EventHandler_delete_def run_simps
        AgentFrom_def WithAgent_def reply_def)
  then show ?thesis using D(2) by blast
qed

theorem owner_can_delete_witness:
  "event_lookup sample_env sample_bot_world ''e1'' \<noteq> None
    \<and> (\<exists>w'. serve_sample delete_hr sample_bot_world = (NoContent, w') \<and> event_lookup sample_env w' ''e1'' = None)"
proof -
  obtain r where r: "routed sample_chi sample_server delete_hr = Some (r, [(''id'', ''e1'')])"
    "rt_method r = ''DELETE''" "rt_pattern r = ''/api/v1/events/{id}''"
    by (simp add: routed_def chi_says_def delete_hr_def sample_hr_def sample_chi_delete)
      (simp add: NewRouter_def open_routes_def user_routes_def agent_routes_def Route_def Group_With_def
        EventHandler_Register_def AgentHandler_Register_def on_def)
  obtain e where e: "event_lookup sample_env sample_bot_world ''e1'' = Some e" "Event_UserID e = ''ann''"
    by (simp add: event_lookup_def sample_bot_world_def sample_world_def sample_env_def eventFromRow_def)
  obtain a where a: "key_lookup sample_bot_world (HashToken ''aea_bot'') = Some a" "\<not> Revoked a" "Agent_UserID a = ''ann''"
    using sample_bot key_iff_law[OF auth_inv_agents[OF sample_bot_inv]] pg_agents.a_id[OF sample_bot_inv]
      pg_agents.a_same[OF sample_bot_inv] by metis
  have i: "URLParam (request_of delete_hr [(''id'', ''e1'')]) ''id'' = ''e1''" "uuid_Parse sample_lib ''e1''"
    by (simp_all add: URLParam_def sample_lib_def)
  have inv: "db_inv sample_env sample_bot_world" using sample_bot_inv by (simp add: auth_inv_def pg_inv_def)
  have same: "same_id sample_env ''e1'' ''e1''" by (simp add: same_id_def sample_env_def)
  have "Agent_UserID a = Event_UserID e" using a e by simp
  from owner_can_delete[OF sample_env_ok sample_reliable sample_quiet inv reaches.here r(1)[unfolded sample_server_def] r(2,3)
      i e(1) sample_delete_bearer a(1,2) this]
  show ?thesis using e(1) same by (auto simp: serve_sample_def sample_server_def)
qed

end
