(* ===== verification/Spec2Isabelle.thy ===== *)
theory Spec2Isabelle
  imports HttpProperties StartProperties AgentLimit AgentOwnership Networks CleanupJob EventRequests
begin

text \<open>
  Verification of the server of agent-events (the Go module under server/). Users sign in with an
  identity token of Google, Apple or Microsoft and get a user token; with it they create agents, each
  with a key; agents create, read, change and delete events with their key. The server is a router of
  HTTP handlers over use cases, which work on interfaces (the package port) that are implemented by
  Postgres repositories, an in-memory rate limiter and the verifiers of identity tokens.

  \<^bold>\<open>How the program is modelled.\<close> A request is a program of atomic actions (type \<open>prog\<close> of theory
  Prelude): one SQL statement, one call of the limiter under its mutex, one reading of the clock or
  the random source, each a function of the shared \<open>world\<close> (the four tables, the counters, the number
  of effects so far), with pure Go code in between. Run alone, a program has the meaning \<open>run\<close>; run
  with others, it is interleaved action by action (theory Concurrency), so what other requests do
  between two statements is part of the model. A Go error is a value of \<open>err\<close>, a function that can
  fail returns \<open>err + 'a\<close>, a pointer or an optional value is an \<open>option\<close>. A Go string is its
  bytes, a list of 8-bit characters. Times are nanoseconds since Go's zero time as \<open>int\<close>; durations
  are 64 bits, and the sums, products and differences that can overflow are written with their
  wrap-around or saturation. Names are those of the source where HOL allows it: a method
  \<open>T.m\<close> is \<open>T_m\<close>, a generated query \<open>q\<close> is \<open>q_q\<close>, an interface \<open>I\<close> of the package
  port is \<open>port_I\<close>.

  \<^bold>\<open>The theories and the code they model\<close> (paths under server/).
  \<^item> Prelude, Concurrency: programs, their laws, interleaving, bounds on actions; generic lemmas.
  \<^item> GoStrings, GoNet, Json, JsonText, Sha256: what the source uses of Go's standard library: TrimSpace,
    Split, the prefixes, base64 and hexadecimal; addresses and networks; decoding into structs, reading
    and writing JSON text; SHA-256.
  \<^item> Apperr: pkg/apperr. Domain: internal/core/domain. Ports: internal/core/port, the contracts of its
    interfaces as locales.
  \<^item> RateLimiter: internal/adapters/memory/rate\_limiter.go; LimiterProperties: what it promises.
  \<^item> World, Database: the world, and internal/adapters/postgres/gen on the tables of the migrations;
    Repositories: internal/adapters/postgres; Store: the invariant of the database.
  \<^item> EventService, EventStore, EventProperties: internal/core/usecase/event.go over its contracts, the
    interpretation of the contracts on the model of the code, and the properties.
  \<^item> AuthService, AuthContracts, AuthStore, AuthProperties: the same for internal/core/usecase/auth.go.
  \<^item> Oidc: internal/adapters/oidc. Config: pkg/config. ClientIP, NetProperties, Networks: clientIP of
    internal/transport/http/handler/auth.go, the properties of addresses, proxies and the configuration.
  \<^item> Http, Server: internal/transport/http (dto, authctx, handler, middleware, controller).
    Responses: the form of every response. HttpProperties: credentials and bodies.
  \<^item> UseCases, ServerLaws, ServerProperties: laws that every action keeps, and the running server.
  \<^item> Ownership, AgentOwnership: who can change events and agents, from the request to the rows.
  \<^item> Revocation: a revoked key under all further traffic. EventRequests: what a client reads of an event
    and sends back, and the owner's request that removes one.
  \<^item> AgentLimit: the statements of the transaction of CreateIfUnderLimit under the lock of a row.
  \<^item> Termination: the number of actions of a request.
  \<^item> Wiring, StartProperties: cmd/api/main.go from the configuration to the services. Logging:
    internal/adapters/logger and the lines about requests. Lifecycle: postgres/db.go and the hooks of
    main.go. CleanupJob: the job that removes expired tokens beside the requests.
  \<^item> Sample, SampleServer: one concrete environment, database and server for the instances.

  \<^bold>\<open>What is shown.\<close>
  \<^item> Ownership: one request changes an event only with the key of a live agent of its owner, and
    creates or revokes an agent only with a live token of its owner.
  \<^item> Consistency: under every interleaving the invariant of the database is kept, revocation and
    ownership are permanent, a revoked key is rejected whatever happens after the revocation, and no user gets more active agents than configured; the interleaved
    statements of the creating transaction refine one atomic creation, which is why it is one action
    elsewhere; the process with its one cleanup job refines the traffic these theorems are about.
  \<^item> Authentication: when tokens and keys are accepted, that issued ones are until they expire or are
    revoked, whose identities can sign in.
  \<^item> The use cases: their outcome on every branch, errors included, from the contracts alone (inside the
    locales \<open>event_service\<close> and \<open>auth_service\<close>), and from there on the code's repositories.
  \<^item> The limiter: exact as long as it need not evict, bounded in memory, and what eviction costs.
  \<^item> HTTP: the statuses and bodies of the handlers' responses, that the text of an event reads back as
    this event and can be sent back, what is logged, which routes need what.
  \<^item> Addresses: what forwarded headers and trusted networks mean, on the bits of addresses.
  \<^item> Endings: requests end after at most eight actions each, the owner's request to delete an event
    succeeds in every state the server reaches, the cleanup job ends after the
    cancellation, no pool stays open after the stop hooks.

  \<^bold>\<open>Interfaces.\<close> The contracts are the locales of Ports (a repository or the limiter, with the
  abstraction of its rows and its laws); \<open>event_service\<close> and \<open>auth_service\<close> combine them, and
  \<open>pg_events\<close> and \<open>pg_auth\<close> interpret them on the Postgres model. The locale \<open>respected\<close> and its
  parts carry a relation between worlds through all use cases and handlers; its interpretations are
  \<open>safe\<close>, \<open>capped\<close>, \<open>events_kept\<close> and \<open>agents_kept\<close>.

  \<^bold>\<open>Parameters.\<close> Code outside the repository is an argument: \<open>Env\<close> (clock, random bytes, UUIDs, the
  order of a Go map, which statement fails, how Postgres reads a UUID and rounds a time), \<open>chi_match\<close>
  (which route chi selects, and its own answer, 404 or 405, to a request without a route), \<open>http_lib\<close> (the validator, uuid.Parse), \<open>oidc_lib\<close> (go-oidc),
  \<open>viper\<close>, \<open>zap_lib\<close>, \<open>process_lib\<close> (pgx, goose, the listener). What is relied on is a named
  hypothesis: \<open>env_ok\<close>, \<open>no_faults\<close>, \<open>reliable\<close>, \<open>map_order\<close>, \<open>quiet\<close> (a verifier does not
  touch the database), \<open>at_most\<close> (a token is checked by one call). Nothing is assumed of
  SHA-256: the theorems speak of the hashes of tokens and keys.

  \<^bold>\<open>Bounds and fuel.\<close> Only the reader of JSON has fuel, \<open>Suc (2 * length s)\<close>; \<open>json_fuel\<close> shows that
  more changes nothing. Its nesting is limited to 10000, as in Go, and a body to \<open>maxBodySize\<close>, 1 MiB.
  All other recursion is structural.

  \<^bold>\<open>Not modelled.\<close>
  \<^item> The lines the use cases log: no result or state depends on them.
  \<^item> gen/db.go, the interface of the driver: statements are modelled by what their SQL does.
  \<^item> How chi matches paths, its request ids, its middlewares Recoverer (an empty 500 after a panic) and
    Timeout (504 when a handler has not answered); deadlines of contexts (a statement that is cancelled is one that fails, which \<open>Env\<close> allows at any point).
  \<^item> fx, which calls the constructors and hooks; the listener and the connections; the timeouts of
    start, stop and ping.
  \<^item> The SQL of the migrations as such: their tables, keys and foreign keys are the checks of the
    statements in theory Database, and so is the refusal of NUL bytes in columns of type TEXT.
\<close>

end
